(* ===== verification/Prelude.thy ===== *)
theory Prelude
  imports Main "HOL-Library.Word" "HOL-Library.Monad_Syntax"
begin

text \<open>
  Vocabulary shared by every component of the model: the machine integers and byte strings
  of the Rust code, its \<open>Result\<close>, panics as values, the checked arithmetic and slice
  accesses of \<open>core\<close>, and little-endian encoding. Generic lemmas about them are collected
  in \<open>std_simps\<close>.
\<close>

section \<open>Machine integers and bytes\<close>

type_synonym u8 = "8 word"
type_synonym u16 = "16 word"
type_synonym u32 = "32 word"
type_synonym u64 = "64 word"

text \<open>\<open>&[u8]\<close>, \<open>Vec<u8>\<close>, and the bytes of a \<open>String\<close>.\<close>

type_synonym bytes = "u8 list"

named_theorems std_simps "unfolding rules for the standard-library vocabulary"

section \<open>Results and panics\<close>

text \<open>\<open>core::result::Result\<close>, constructors as in the source.\<close>

datatype ('a, 'e) result = Ok 'a | Err 'e

primrec is_ok :: "('a, 'e) result \<Rightarrow> bool" where
  "is_ok (Ok _) = True"
| "is_ok (Err _) = False"

abbreviation is_err :: "('a, 'e) result \<Rightarrow> bool" where
  "is_err r \<equiv> \<not> is_ok r"

primrec result_ok :: "('a, 'e) result \<Rightarrow> 'a option" where
  "result_ok (Ok a) = Some a"
| "result_ok (Err _) = None"

primrec ok_or :: "'a option \<Rightarrow> 'e \<Rightarrow> ('a, 'e) result" where
  "ok_or None e = Err e"
| "ok_or (Some a) e = Ok a"

primrec map_err :: "('e \<Rightarrow> 'f) \<Rightarrow> ('a, 'e) result \<Rightarrow> ('a, 'f) result" where
  "map_err f (Ok a) = Ok a"
| "map_err f (Err e) = Err (f e)"

lemma is_ok_iff: "is_ok r \<longleftrightarrow> (\<exists>a. r = Ok a)"
  by (cases r) auto

lemma ok_or_eq_Ok [simp]: "ok_or opt e = Ok a \<longleftrightarrow> opt = Some a"
  by (cases opt) auto

lemma ok_or_eq_Err [simp]: "ok_or opt e = Err f \<longleftrightarrow> opt = None \<and> f = e"
  by (cases opt) auto

lemma map_err_eq_Ok [simp]: "map_err f r = Ok a \<longleftrightarrow> r = Ok a"
  by (cases r) auto

lemma map_err_eq_Err [simp]: "map_err f r = Err e' \<longleftrightarrow> (\<exists>e. r = Err e \<and> e' = f e)"
  by (cases r) auto

text \<open>
  An operation that may panic returns \<open>Panic\<close> or \<open>Return\<close>: an out-of-range index or
  slice of the source is a \<open>Panic\<close> of the model, never an unspecified value.
\<close>

datatype 'a run = Panic | Return 'a

primrec run_bind :: "'a run \<Rightarrow> ('a \<Rightarrow> 'b run) \<Rightarrow> 'b run" where
  "run_bind Panic f = Panic"
| "run_bind (Return a) f = f a"

lemma run_bind_eq_Return:
  "run_bind m f = Return b \<longleftrightarrow> (\<exists>a. m = Return a \<and> f a = Return b)"
  by (cases m) auto

section \<open>Checked arithmetic\<close>

text \<open>
  \<open>usize\<close> is 32 bits wide on both targets (Xtensa ESP32-S3, RV32 ESP32-C3); a
  \<open>usize\<close> value is a \<open>nat\<close> and the checked operations fail at \<open>2 ^ 32\<close>.
\<close>

definition checked_add :: "nat \<Rightarrow> nat \<Rightarrow> nat option" where
  "checked_add a b = (if a + b < 2 ^ 32 then Some (a + b) else None)"

definition u16_try_from :: "nat \<Rightarrow> u16 option" where
  "u16_try_from n = (if n < 2 ^ 16 then Some (of_nat n) else None)"

definition u32_checked_mul :: "u32 \<Rightarrow> u32 \<Rightarrow> u32 option" where
  "u32_checked_mul a b = (if unat a * unat b < 2 ^ 32 then Some (a * b) else None)"

definition u32_checked_add :: "u32 \<Rightarrow> u32 \<Rightarrow> u32 option" where
  "u32_checked_add a b = (if unat a + unat b < 2 ^ 32 then Some (a + b) else None)"

definition u32_saturating_add :: "u32 \<Rightarrow> u32 \<Rightarrow> u32" where
  "u32_saturating_add a b = (if unat a + unat b < 2 ^ 32 then a + b else - 1)"

lemma checked_add_small [std_simps]: "a + b < 2 ^ 32 \<Longrightarrow> checked_add a b = Some (a + b)"
  by (simp add: checked_add_def)

lemma checked_add_Some: "checked_add a b = Some c \<longleftrightarrow> a + b < 2 ^ 32 \<and> c = a + b"
  by (auto simp: checked_add_def)

lemma u16_try_from_small [std_simps]: "n < 2 ^ 16 \<Longrightarrow> u16_try_from n = Some (of_nat n)"
  by (simp add: u16_try_from_def)

lemma u16_try_from_Some:
  "u16_try_from n = Some v \<longleftrightarrow> n < 2 ^ 16 \<and> v = of_nat n"
  by (auto simp: u16_try_from_def)

lemma u32_checked_mul_Some:
  "u32_checked_mul a b = Some c \<longleftrightarrow> unat a * unat b < 2 ^ 32 \<and> unat c = unat a * unat b"
proof -
  have "unat a * unat b < 2 ^ 32 \<Longrightarrow> unat (a * b) = unat a * unat b"
    by (simp add: unat_word_ariths)
  then show ?thesis
    by (auto simp: u32_checked_mul_def unat_word_ariths word_unat_eq_iff)
qed

lemma u32_checked_add_Some:
  "u32_checked_add a b = Some c \<longleftrightarrow> unat a + unat b < 2 ^ 32 \<and> unat c = unat a + unat b"
proof -
  have "unat a + unat b < 2 ^ 32 \<Longrightarrow> unat (a + b) = unat a + unat b"
    by (simp add: unat_word_ariths)
  then show ?thesis
    by (auto simp: u32_checked_add_def unat_word_ariths word_unat_eq_iff)
qed

lemma u32_saturating_add_unat:
  "unat (u32_saturating_add a b) = min (unat a + unat b) (2 ^ 32 - 1)"
proof (cases "unat a + unat b < 2 ^ 32")
  case True
  then show ?thesis by (simp add: u32_saturating_add_def unat_word_ariths)
next
  case False
  then show ?thesis
    by (simp add: u32_saturating_add_def unsigned_minus_1_eq_mask mask_eq_exp_minus_1)
qed

section \<open>Slices and little-endian encoding\<close>

text \<open>\<open>&raw[a..b]\<close> and \<open>raw[i]\<close>: both panic out of range.\<close>

definition slice_range :: "bytes \<Rightarrow> nat \<Rightarrow> nat \<Rightarrow> bytes run" where
  "slice_range raw a b =
     (if a \<le> b \<and> b \<le> length raw then Return (take (b - a) (drop a raw)) else Panic)"

definition index_at :: "'a list \<Rightarrow> nat \<Rightarrow> 'a run" where
  "index_at raw i = (if i < length raw then Return (raw ! i) else Panic)"

lemma slice_range_ok [std_simps]:
  "a \<le> b \<Longrightarrow> b \<le> length raw \<Longrightarrow> slice_range raw a b = Return (take (b - a) (drop a raw))"
  by (simp add: slice_range_def)

lemma index_at_ok [std_simps]: "i < length raw \<Longrightarrow> index_at raw i = Return (raw ! i)"
  by (simp add: index_at_def)

definition u16_to_le_bytes :: "u16 \<Rightarrow> bytes" where
  "u16_to_le_bytes v = [ucast v, ucast (drop_bit 8 v)]"

definition u16_from_le_bytes :: "u8 \<Rightarrow> u8 \<Rightarrow> u16" where
  "u16_from_le_bytes lo hi = ucast lo + push_bit 8 (ucast hi)"

lemma length_u16_to_le_bytes [simp]: "length (u16_to_le_bytes v) = 2"
  by (simp add: u16_to_le_bytes_def)

lemma u8_less_256: "unat (b :: u8) < 256"
  using unsigned_less [of b, where 'a = nat] by simp

lemma u16_less_65536: "unat (v :: u16) < 65536"
  using unsigned_less [of v, where 'a = nat] by simp

lemma unat_ucast_u8_u16 [simp]: "unat (ucast (b :: u8) :: u16) = unat b"
  using u8_less_256 [of b] by (simp add: unsigned_ucast_eq take_bit_eq_mod)

lemma unat_ucast_u16_u8 [simp]: "unat (ucast (v :: u16) :: u8) = unat v mod 256"
  by (simp add: unsigned_ucast_eq take_bit_eq_mod)

lemma unat_drop_8_u16 [simp]: "unat (drop_bit 8 (v :: u16)) = unat v div 256"
  unfolding unat_drop_bit_eq by (simp add: drop_bit_eq_div)

lemma unat_u16_from_le_bytes: "unat (u16_from_le_bytes lo hi) = unat lo + 256 * unat hi"
proof -
  note lo = u8_less_256 [of lo] and hi = u8_less_256 [of hi]
  have "unat (push_bit 8 (ucast hi :: u16)) = 256 * unat hi"
    using hi by (simp add: push_bit_eq_mult unat_word_ariths)
  with lo hi show ?thesis
    by (simp add: u16_from_le_bytes_def unat_word_ariths)
qed

lemma u16_le_roundtrip [simp]:
  "u16_from_le_bytes (ucast v) (ucast (drop_bit 8 v)) = (v :: u16)"
  using u16_less_65536 [of v]
  by (simp add: word_unat_eq_iff unat_u16_from_le_bytes)

lemma u16_le_bytes_inverse:
  "u16_to_le_bytes (u16_from_le_bytes lo hi) = [lo, hi]"
  using u8_less_256 [of lo] u8_less_256 [of hi]
  by (simp add: u16_to_le_bytes_def word_unat_eq_iff unat_u16_from_le_bytes)

lemma unat_of_nat_u16 [simp]: "n < 65536 \<Longrightarrow> unat (of_nat n :: u16) = n"
  by (simp add: unsigned_of_nat take_bit_eq_mod)

lemma unat_of_nat_u8 [simp]: "n < 256 \<Longrightarrow> unat (of_nat n :: u8) = n"
  by (simp add: unsigned_of_nat take_bit_eq_mod)

section \<open>List lemmas\<close>

lemma take_drop_append_exact:
  "length a = n \<Longrightarrow> length b = m \<Longrightarrow> take m (drop n (a @ b @ c)) = b"
  by simp

lemma split_at_two: "b = a + length y \<Longrightarrow> length x = a \<Longrightarrow> take (b - a) (drop a (x @ y @ z)) = y"
  by simp

lemma slice_split:
  assumes "a \<le> b" "b \<le> c"
  shows "take (b - a) (drop a raw) @ take (c - b) (drop b raw) = take (c - a) (drop a raw)"
proof -
  have "take ((b - a) + (c - b)) (drop a raw)
        = take (b - a) (drop a raw) @ take (c - b) (drop (b - a) (drop a raw))"
    by (rule take_add)
  with assms show ?thesis by simp
qed

end
