(* ===== verification/Rust_Std.thy ===== *)
theory Rust_Std
  imports Prelude
begin

text \<open>
  The parts of Rust's \<open>core\<close>/\<open>alloc\<close> string library the agent uses, on the bytes of a
  string: UTF-8 validation (\<open>core::str::from_utf8\<close>) and \<open>chars\<close>, \<open>split_once\<close>,
  \<open>split\<close>, \<open>replace\<close>, \<open>starts_with\<close>, decimal and hexadecimal formatting, and
  \<open>u16::from_str\<close>. A \<open>String\<close> is its byte list; that the bytes are valid UTF-8 is the
  predicate \<open>utf8\<close>, which the type guarantees in Rust.
\<close>

section \<open>String literals\<close>

text \<open>The bytes of an ASCII literal of the source.\<close>

definition lit :: "string \<Rightarrow> bytes" where
  "lit s = map of_char s"

lemma length_lit [simp]: "length (lit s) = length s"
  by (simp add: lit_def)

lemma lit_Nil [simp]: "lit [] = []" and lit_Cons: "lit (c # cs) = of_char c # lit cs"
  by (simp_all add: lit_def)

lemma lit_eq_Nil [simp]: "lit s = [] \<longleftrightarrow> s = []"
  by (simp add: lit_def)

section \<open>UTF-8\<close>

definition utf8_cont :: "u8 \<Rightarrow> bool" where
  "utf8_cont b \<longleftrightarrow> 0x80 \<le> b \<and> b \<le> 0xBF"

definition utf8_lead2 :: "u8 \<Rightarrow> bool" where
  "utf8_lead2 b \<longleftrightarrow> 0xC2 \<le> b \<and> b \<le> 0xDF"

definition utf8_lead3 :: "u8 \<Rightarrow> u8 \<Rightarrow> bool" where
  "utf8_lead3 b0 b1 \<longleftrightarrow>
     b0 = 0xE0 \<and> 0xA0 \<le> b1 \<and> b1 \<le> 0xBF \<or>
     0xE1 \<le> b0 \<and> b0 \<le> 0xEC \<and> utf8_cont b1 \<or>
     b0 = 0xED \<and> 0x80 \<le> b1 \<and> b1 \<le> 0x9F \<or>
     0xEE \<le> b0 \<and> b0 \<le> 0xEF \<and> utf8_cont b1"

definition utf8_lead4 :: "u8 \<Rightarrow> u8 \<Rightarrow> bool" where
  "utf8_lead4 b0 b1 \<longleftrightarrow>
     b0 = 0xF0 \<and> 0x90 \<le> b1 \<and> b1 \<le> 0xBF \<or>
     0xF1 \<le> b0 \<and> b0 \<le> 0xF3 \<and> utf8_cont b1 \<or>
     b0 = 0xF4 \<and> 0x80 \<le> b1 \<and> b1 \<le> 0x8F"

text \<open>The length of the first character, \<open>None\<close> where \<open>from_utf8\<close> reports an error.\<close>

definition utf8_next :: "bytes \<Rightarrow> nat option" where
  "utf8_next bs = (case bs of
     [] \<Rightarrow> None
   | b0 # r0 \<Rightarrow>
       if b0 < 0x80 then Some 1
       else case r0 of
         [] \<Rightarrow> None
       | b1 # r1 \<Rightarrow>
           if utf8_lead2 b0 \<and> utf8_cont b1 then Some 2
           else case r1 of
             [] \<Rightarrow> None
           | b2 # r2 \<Rightarrow>
               if utf8_lead3 b0 b1 \<and> utf8_cont b2 then Some 3
               else case r2 of
                 [] \<Rightarrow> None
               | b3 # r3 \<Rightarrow>
                   if utf8_lead4 b0 b1 \<and> utf8_cont b2 \<and> utf8_cont b3 then Some 4 else None)"

lemma utf8_next_bounds: "utf8_next bs = Some n \<Longrightarrow> 0 < n \<and> n \<le> length bs"
  by (auto simp: utf8_next_def split: list.splits if_splits)

lemma utf8_next_append: "utf8_next a = Some n \<Longrightarrow> utf8_next (a @ b) = Some n"
  by (auto simp: utf8_next_def split: list.splits if_splits)

text \<open>Validation and segmentation: the characters, each as its bytes.\<close>

function utf8_chars :: "bytes \<Rightarrow> bytes list option" where
  "utf8_chars bs =
     (if bs = [] then Some []
      else case utf8_next bs of
        None \<Rightarrow> None
      | Some n \<Rightarrow> map_option ((#) (take n bs)) (utf8_chars (drop n bs)))"
  by pat_completeness auto
termination
  by (relation "measure length") (auto dest: utf8_next_bounds)

declare utf8_chars.simps [simp del]

lemma utf8_chars_Nil [simp]: "utf8_chars [] = Some []"
  by (simp add: utf8_chars.simps)

lemma utf8_chars_step:
  "utf8_next bs = Some n \<Longrightarrow>
   utf8_chars bs = map_option ((#) (take n bs)) (utf8_chars (drop n bs))"
  by (subst utf8_chars.simps) (auto dest: utf8_next_bounds)

lemma utf8_chars_SomeE:
  assumes "utf8_chars bs = Some cs"
  obtains "bs = []" "cs = []"
  | n ds where "utf8_next bs = Some n" "utf8_chars (drop n bs) = Some ds" "cs = take n bs # ds"
  using assms by (subst (asm) utf8_chars.simps) (auto split: if_splits option.splits)

definition utf8 :: "bytes \<Rightarrow> bool" where
  "utf8 bs \<longleftrightarrow> utf8_chars bs \<noteq> None"

text \<open>\<open>core::str::from_utf8(bs).ok()\<close> and \<open>str::chars\<close>.\<close>

definition from_utf8 :: "bytes \<Rightarrow> bytes option" where
  "from_utf8 bs = (if utf8 bs then Some bs else None)"

definition chars :: "bytes \<Rightarrow> bytes list" where
  "chars s = (case utf8_chars s of Some cs \<Rightarrow> cs | None \<Rightarrow> [])"

lemma from_utf8_Some [simp]: "from_utf8 bs = Some s \<longleftrightarrow> utf8 bs \<and> s = bs"
  by (auto simp: from_utf8_def)

lemma from_utf8_valid [simp]: "utf8 bs \<Longrightarrow> from_utf8 bs = Some bs"
  by simp

lemma utf8_Nil [simp]: "utf8 []"
  by (simp add: utf8_def)

lemma utf8_chars_concat: "utf8_chars bs = Some cs \<Longrightarrow> concat cs = bs"
proof (induction bs arbitrary: cs rule: utf8_chars.induct)
  case (1 bs)
  from "1.prems" show ?case
  proof (cases rule: utf8_chars_SomeE)
    case 1
    then show ?thesis by simp
  next
    case (2 n ds)
    then show ?thesis
      using "1.IH" [of n ds] utf8_next_bounds [of bs n] by fastforce
  qed
qed

lemma utf8_chars_append:
  "utf8_chars a = Some cs \<Longrightarrow> utf8_chars (a @ b) = map_option ((@) cs) (utf8_chars b)"
proof (induction a arbitrary: cs rule: utf8_chars.induct)
  case (1 a)
  from "1.prems" show ?case
  proof (cases rule: utf8_chars_SomeE)
    case 1
    then show ?thesis by (simp add: option.map_ident)
  next
    case (2 n ds)
    have "n \<le> length a" and "a \<noteq> []"
      using utf8_next_bounds [OF 2(1)] by auto
    then have "utf8_chars (a @ b) = map_option ((#) (take n a)) (utf8_chars (drop n a @ b))"
      using utf8_chars_step [OF utf8_next_append [OF 2(1)], of b] by simp
    also have "utf8_chars (drop n a @ b) = map_option ((@) ds) (utf8_chars b)"
      using "1.IH" [OF \<open>a \<noteq> []\<close> 2(1) 2(2)] .
    finally show ?thesis
      using 2(3) by (simp add: option.map_comp comp_def)
  qed
qed

lemma utf8_append: "utf8 a \<Longrightarrow> utf8 b \<Longrightarrow> utf8 (a @ b)"
  by (auto simp: utf8_def utf8_chars_append)

lemma concat_chars: "utf8 s \<Longrightarrow> concat (chars s) = s"
  by (auto simp: chars_def utf8_def dest: utf8_chars_concat)

lemma chars_append: "utf8 a \<Longrightarrow> utf8 b \<Longrightarrow> chars (a @ b) = chars a @ chars b"
  by (auto simp: chars_def utf8_def utf8_chars_append)

definition ascii :: "bytes \<Rightarrow> bool" where
  "ascii bs \<longleftrightarrow> list_all (\<lambda>b. b < 0x80) bs"

lemma ascii_Nil [simp]: "ascii []"
  and ascii_Cons [simp]: "ascii (b # bs) \<longleftrightarrow> b < 0x80 \<and> ascii bs"
  and ascii_append [simp]: "ascii (xs @ ys) \<longleftrightarrow> ascii xs \<and> ascii ys"
  by (simp_all add: ascii_def)

lemma ascii_chars: "ascii bs \<Longrightarrow> utf8_chars bs = Some (map (\<lambda>b. [b]) bs)"
proof (induction bs)
  case Nil
  then show ?case by simp
next
  case (Cons b bs)
  then have "utf8_next (b # bs) = Some 1"
    by (simp add: utf8_next_def)
  with Cons show ?case by (simp add: utf8_chars_step)
qed

lemma ascii_utf8: "ascii bs \<Longrightarrow> utf8 bs"
  by (simp add: utf8_def ascii_chars)

section \<open>Searching and splitting\<close>

definition starts_with :: "bytes \<Rightarrow> bytes \<Rightarrow> bool" where
  "starts_with s pat \<longleftrightarrow> take (length pat) s = pat"

text \<open>
  \<open>str::split_once\<close>: the text before and after the first occurrence. Patterns are ASCII,
  so a byte match always lies on character boundaries.
\<close>

fun split_once :: "bytes \<Rightarrow> bytes \<Rightarrow> (bytes \<times> bytes) option" where
  "split_once [] pat = (if pat = [] then Some ([], []) else None)"
| "split_once (c # cs) pat =
     (if starts_with (c # cs) pat then Some ([], drop (length pat) (c # cs))
      else map_option (\<lambda>(a, b). (c # a, b)) (split_once cs pat))"

lemma split_once_Some: "split_once s pat = Some (a, b) \<Longrightarrow> s = a @ pat @ b"
proof (induction s pat arbitrary: a b rule: split_once.induct)
  case (1 pat)
  then show ?case by (simp split: if_splits)
next
  case (2 c cs pat)
  show ?case
  proof (cases "starts_with (c # cs) pat")
    case True
    with "2.prems" show ?thesis
      by (metis append_Nil append_take_drop_id fst_conv option.inject snd_conv split_once.simps(2)
          starts_with_def)
  next
    case False
    with 2 show ?thesis by auto
  qed
qed

lemma split_once_None: "split_once s [p] = None \<longleftrightarrow> p \<notin> set s"
  by (induction s) (auto simp: starts_with_def split: prod.splits)

lemma split_once_char:
  "split_once s [p] = Some (a, b) \<longleftrightarrow> s = a @ p # b \<and> p \<notin> set a"
proof (induction s arbitrary: a b)
  case Nil
  then show ?case by simp
next
  case (Cons c cs)
  show ?case
  proof (cases "c = p")
    case True
    then show ?thesis by (cases a) (auto simp: starts_with_def)
  next
    case False
    with Cons.IH show ?thesis by (cases a) (auto simp: starts_with_def)
  qed
qed

text \<open>\<open>s.split(p).next()\<close> for a character \<open>p\<close>: the text before its first occurrence.\<close>

definition split_first :: "bytes \<Rightarrow> u8 \<Rightarrow> bytes" where
  "split_first s p = takeWhile (\<lambda>c. c \<noteq> p) s"

text \<open>
  \<open>str::replace\<close> for a non-empty pattern: leftmost, non-overlapping. The counter is the
  number of bytes of the current match still to be skipped.
\<close>

fun replace_from :: "bytes \<Rightarrow> bytes \<Rightarrow> nat \<Rightarrow> bytes \<Rightarrow> bytes" where
  "replace_from pat to k [] = []"
| "replace_from pat to (Suc k) (c # cs) = replace_from pat to k cs"
| "replace_from pat to 0 (c # cs) =
     (if starts_with (c # cs) pat then to @ replace_from pat to (length pat - 1) cs
      else c # replace_from pat to 0 cs)"

definition str_replace :: "bytes \<Rightarrow> bytes \<Rightarrow> bytes \<Rightarrow> bytes" where
  "str_replace s pat to = replace_from pat to 0 s"

section \<open>Numbers as text\<close>

definition is_ascii_digit :: "u8 \<Rightarrow> bool" where
  "is_ascii_digit b \<longleftrightarrow> 48 \<le> b \<and> b \<le> 57"

definition digit_val :: "u8 \<Rightarrow> nat" where
  "digit_val b = unat b - 48"

text \<open>The number a digit string denotes: the reference for every parser below.\<close>

definition dec_val :: "bytes \<Rightarrow> nat" where
  "dec_val ds = foldl (\<lambda>n b. 10 * n + digit_val b) 0 ds"

lemma dec_val_Nil [simp]: "dec_val [] = 0"
  by (simp add: dec_val_def)

lemma dec_val_snoc [simp]: "dec_val (ds @ [b]) = 10 * dec_val ds + digit_val b"
  by (simp add: dec_val_def)

text \<open>\<open>format!("{n}")\<close>.\<close>

fun fmt_dec :: "nat \<Rightarrow> bytes" where
  "fmt_dec n = (if n < 10 then [of_nat (48 + n)] else fmt_dec (n div 10) @ [of_nat (48 + n mod 10)])"

declare fmt_dec.simps [simp del]

lemma digit_byte:
  assumes "d < 10"
  shows "is_ascii_digit (of_nat (48 + d))" and "digit_val (of_nat (48 + d)) = d"
proof -
  have "unat (of_nat (48 + d) :: u8) = 48 + d"
    using assms by (intro unat_of_nat_u8) simp
  then show "is_ascii_digit (of_nat (48 + d))" and "digit_val (of_nat (48 + d)) = d"
    using assms by (simp_all add: is_ascii_digit_def digit_val_def word_le_nat_alt del: of_nat_add)
qed

lemma fmt_dec_digits: "list_all is_ascii_digit (fmt_dec n) \<and> fmt_dec n \<noteq> []"
proof (induction n rule: fmt_dec.induct)
  case (1 n)
  then show ?case
    by (subst (1 2) fmt_dec.simps) (simp add: digit_byte del: of_nat_add)
qed

lemma dec_val_fmt_dec: "dec_val (fmt_dec n) = n"
proof (induction n rule: fmt_dec.induct)
  case (1 n)
  show ?case
  proof (cases "n < 10")
    case True
    then have "fmt_dec n = [] @ [of_nat (48 + n)]"
      by (simp add: fmt_dec.simps)
    with True show ?thesis by (simp only: dec_val_snoc digit_byte(2)) simp
  next
    case False
    then have "fmt_dec n = fmt_dec (n div 10) @ [of_nat (48 + n mod 10)]"
      by (subst fmt_dec.simps) simp
    with 1 False show ?thesis by (simp only: dec_val_snoc digit_byte(2)) simp
  qed
qed

text \<open>
  \<open>u16::from_str\<close>: an optional leading \<open>+\<close>, then one or more digits; any other byte
  and any overflow is an error.
\<close>

fun u16_digits :: "nat \<Rightarrow> bytes \<Rightarrow> nat option" where
  "u16_digits acc [] = Some acc"
| "u16_digits acc (b # bs) =
     (if is_ascii_digit b \<and> 10 * acc + digit_val b < 2 ^ 16
      then u16_digits (10 * acc + digit_val b) bs else None)"

definition u16_parse :: "bytes \<Rightarrow> u16 option" where
  "u16_parse s =
     (let ds = (case s of b # bs \<Rightarrow> if b = 43 then bs else s | [] \<Rightarrow> s)
      in if ds = [] then None else map_option of_nat (u16_digits 0 ds))"

lemma u16_digits_bound: "u16_digits acc ds = Some n \<Longrightarrow> acc < 2 ^ 16 \<Longrightarrow> n < 2 ^ 16"
  by (induction acc ds rule: u16_digits.induct) (auto split: if_splits)

text \<open>\<open>format!("{b:02x}")\<close> for one byte.\<close>

definition hex_digit :: "nat \<Rightarrow> u8" where
  "hex_digit d = (if d < 10 then of_nat (48 + d) else of_nat (87 + d))"

definition fmt_02x :: "u8 \<Rightarrow> bytes" where
  "fmt_02x b = [hex_digit (unat b div 16), hex_digit (unat b mod 16)]"

definition is_lower_hex :: "u8 \<Rightarrow> bool" where
  "is_lower_hex b \<longleftrightarrow> 48 \<le> b \<and> b \<le> 57 \<or> 97 \<le> b \<and> b \<le> 102"

lemma unat_hex_digit:
  "d < 16 \<Longrightarrow> unat (hex_digit d) = (if d < 10 then 48 + d else 87 + d)"
  by (simp add: hex_digit_def del: of_nat_add)

lemma hex_digit_lower: "d < 16 \<Longrightarrow> is_lower_hex (hex_digit d)"
  by (simp add: is_lower_hex_def word_le_nat_alt unat_hex_digit)

lemma hex_digit_inj: "d < 16 \<Longrightarrow> e < 16 \<Longrightarrow> hex_digit d = hex_digit e \<Longrightarrow> d = e"
  by (drule arg_cong [where f = unat]) (auto simp: unat_hex_digit split: if_splits)

lemma fmt_02x_lower: "list_all is_lower_hex (fmt_02x b)"
  using u8_less_256 [of b] by (simp add: fmt_02x_def hex_digit_lower)

lemma fmt_02x_inj: "fmt_02x a = fmt_02x b \<Longrightarrow> a = b"
proof -
  assume "fmt_02x a = fmt_02x b"
  then have "unat a div 16 = unat b div 16" and "unat a mod 16 = unat b mod 16"
    using u8_less_256 [of a] u8_less_256 [of b]
    by (auto simp: fmt_02x_def intro!: hex_digit_inj)
  then have "unat a = unat b"
    by (metis div_mult_mod_eq)
  then show "a = b" by (simp add: word_unat_eq_iff)
qed

lemma is_lower_hex_ascii: "list_all is_lower_hex bs \<Longrightarrow> ascii bs"
  by (induction bs) (auto simp: is_lower_hex_def word_le_nat_alt word_less_nat_alt)

end
