(* ===== verification/Config_Space.thy ===== *)
theory Config_Space
  imports Rust_Std
begin

text \<open>
  The interface of \<open>iobewi_config_space::ConfigSpace\<close>, as far as the agent uses it. The
  crate is not part of the repository: \<open>load\<close> and \<open>commit\<close> are parameters of the model
  that act on an opaque device state \<open>'w\<close>, and what the agent relies on is the hypothesis
  \<open>config_space_law\<close>, which states what the sources say of it: isolation between spaces
  and complete-value replacement (\<open>agent.rs\<close>), as one atomic blob
  (\<open>runtime_config.rs\<close>).

  The locale \<open>schema\<close> is the contract of every component that owns the encoding inside its
  space; each of them interprets it on its own encoder and decoder.
\<close>

section \<open>The interface\<close>

text \<open>The spaces the two binaries claim, by the name they claim them under.\<close>

datatype space_name = Hardware | App | Agent | Lifecycle | Ota | Runtime | Tls | Wifi

record snapshot =
  data :: bytes
  generation :: u64

text \<open>
  Every use of a backend error in the agent maps \<open>Err(_)\<close> without looking at it, so the
  error carries nothing.
\<close>

record 'w config_space =
  load :: "'w \<Rightarrow> (snapshot option, unit) result \<times> 'w"
  commit :: "bytes \<Rightarrow> 'w \<Rightarrow> (u64, unit) result \<times> 'w"

text \<open>
  \<open>stored n w\<close> is the value of space \<open>n\<close> in device state \<open>w\<close>. A load changes no
  value and, when it succeeds, returns the stored one. A commit leaves the other spaces
  alone; when it succeeds it replaces the value completely, and when it fails the value is the
  old one or the complete new one.
\<close>

definition load_law ::
  "(space_name \<Rightarrow> 'w config_space) \<Rightarrow> (space_name \<Rightarrow> 'w \<Rightarrow> snapshot option) \<Rightarrow> bool" where
  "load_law cs stored \<longleftrightarrow>
     (\<forall>n w r w'. load (cs n) w = (r, w') \<longrightarrow>
        (\<forall>m. stored m w' = stored m w) \<and> (\<forall>s. r = Ok s \<longrightarrow> s = stored n w))"

definition commit_law ::
  "(space_name \<Rightarrow> 'w config_space) \<Rightarrow> (space_name \<Rightarrow> 'w \<Rightarrow> snapshot option) \<Rightarrow> bool" where
  "commit_law cs stored \<longleftrightarrow>
     (\<forall>n bs w r w'. commit (cs n) bs w = (r, w') \<longrightarrow>
        (\<forall>m. m \<noteq> n \<longrightarrow> stored m w' = stored m w) \<and>
        (\<forall>g. r = Ok g \<longrightarrow> stored n w' = Some \<lparr>data = bs, generation = g\<rparr>) \<and>
        (\<forall>e. r = Err e \<longrightarrow> stored n w' = stored n w \<or>
           (\<exists>g. stored n w' = Some \<lparr>data = bs, generation = g\<rparr>)))"

definition config_space_law ::
  "(space_name \<Rightarrow> 'w config_space) \<Rightarrow> (space_name \<Rightarrow> 'w \<Rightarrow> snapshot option) \<Rightarrow> bool" where
  "config_space_law cs stored \<longleftrightarrow> load_law cs stored \<and> commit_law cs stored"

lemma law_load_stored:
  "config_space_law cs stored \<Longrightarrow> load (cs n) w = (r, w') \<Longrightarrow> stored m w' = stored m w"
  by (simp add: config_space_law_def load_law_def)

lemma law_load_Ok:
  "config_space_law cs stored \<Longrightarrow> load (cs n) w = (Ok s, w') \<Longrightarrow> s = stored n w"
  by (simp add: config_space_law_def load_law_def)

lemma law_commit_other:
  "config_space_law cs stored \<Longrightarrow> commit (cs n) bs w = (r, w') \<Longrightarrow> m \<noteq> n \<Longrightarrow>
   stored m w' = stored m w"
  by (simp add: config_space_law_def commit_law_def)

lemma law_commit_Ok:
  "config_space_law cs stored \<Longrightarrow> commit (cs n) bs w = (Ok g, w') \<Longrightarrow>
   stored n w' = Some \<lparr>data = bs, generation = g\<rparr>"
  by (simp add: config_space_law_def commit_law_def)

lemma law_commit_Err:
  "config_space_law cs stored \<Longrightarrow> commit (cs n) bs w = (Err e, w') \<Longrightarrow>
   stored n w' = stored n w \<or> (\<exists>g. stored n w' = Some \<lparr>data = bs, generation = g\<rparr>)"
  by (simp add: config_space_law_def commit_law_def)

text \<open>Whatever a commit returns, the value is the old one or the complete new one.\<close>

lemma law_commit_atomic:
  assumes "config_space_law cs stored" and "commit (cs n) bs w = (r, w')"
  shows "stored n w' = stored n w \<or> (\<exists>g. stored n w' = Some \<lparr>data = bs, generation = g\<rparr>)"
proof (cases r)
  case (Ok g)
  then show ?thesis using law_commit_Ok [OF assms(1)] assms(2) by blast
next
  case (Err e)
  then show ?thesis using law_commit_Err [OF assms(1)] assms(2) by blast
qed

lemmas config_space_laws =
  law_load_stored law_load_Ok law_commit_other law_commit_Ok law_commit_Err

section \<open>Schemas\<close>

text \<open>
  A component owns the bytes inside its space: an encoder that may refuse a value, a decoder
  that may refuse bytes, the values it can represent, and the capacity it claims.
\<close>

locale schema =
  fixes enc :: "'a \<Rightarrow> bytes option"
    and dec :: "bytes \<Rightarrow> 'a option"
    and valid :: "'a \<Rightarrow> bool"
    and budget :: nat
  assumes dec_enc: "valid x \<Longrightarrow> enc x = Some bs \<Longrightarrow> dec bs = Some x"
    and enc_budget: "enc x = Some bs \<Longrightarrow> length bs \<le> budget"
    and dec_valid: "dec bs = Some x \<Longrightarrow> valid x"
begin

lemma enc_inj: "valid x \<Longrightarrow> valid y \<Longrightarrow> enc x = Some bs \<Longrightarrow> enc y = Some bs \<Longrightarrow> x = y"
  using dec_enc [of x bs] dec_enc [of y bs] by simp

text \<open>What a successful commit stored is what the next successful load decodes to.\<close>

lemma commit_then_load:
  assumes "config_space_law cs stored" and "valid x" and "enc x = Some bs"
    and "commit (cs n) bs w = (Ok g, w1)" and "load (cs n) w1 = (Ok s, w2)"
  shows "\<exists>sn. s = Some sn \<and> dec (data sn) = Some x \<and> generation sn = g"
  using law_load_Ok [OF assms(1,5)] law_commit_Ok [OF assms(1,4)] dec_enc [OF assms(2,3)]
  by simp

text \<open>
  A predicate that holds of the decoded old value and of the committed one holds of whatever
  is stored after the commit, whether it reported success or not.
\<close>

lemma commit_keeps:
  assumes "config_space_law cs stored" and "valid x" and "enc x = Some bs"
    and "commit (cs n) bs w = (r, w')"
    and "\<exists>sn y. stored n w = Some sn \<and> dec (data sn) = Some y \<and> P y" and "P x"
  shows "\<exists>sn y. stored n w' = Some sn \<and> dec (data sn) = Some y \<and> P y"
  using law_commit_atomic [OF assms(1,4)] assms(5,6) dec_enc [OF assms(2,3)] by auto

end

section \<open>A provider in memory\<close>

text \<open>
  A concrete provider, on which the witnesses run the model: the value of every space and a
  list of faults, one per coming operation (\<open>True\<close> makes it fail without effect).
\<close>

record ram =
  cells :: "space_name \<Rightarrow> snapshot option"
  faults :: "bool list"

definition ram_faulty :: "ram \<Rightarrow> bool" where
  "ram_faulty w = (case faults w of [] \<Rightarrow> False | f # _ \<Rightarrow> f)"

definition ram_space :: "space_name \<Rightarrow> ram config_space" where
  "ram_space n = \<lparr>
     load = (\<lambda>w. let w' = w\<lparr>faults := tl (faults w)\<rparr>
       in if ram_faulty w then (Err (), w') else (Ok (cells w n), w')),
     commit = (\<lambda>bs w. let w' = w\<lparr>faults := tl (faults w)\<rparr>;
         g = (case cells w n of None \<Rightarrow> 1 | Some s \<Rightarrow> generation s + 1)
       in if ram_faulty w then (Err (), w')
          else (Ok g, w'\<lparr>cells := (cells w)(n \<mapsto> \<lparr>data = bs, generation = g\<rparr>)\<rparr>))\<rparr>"

definition ram_empty :: ram where
  "ram_empty = \<lparr>cells = (\<lambda>_. None), faults = []\<rparr>"

definition ram_with :: "space_name \<Rightarrow> bytes \<Rightarrow> ram \<Rightarrow> ram" where
  "ram_with n bs w = w\<lparr>cells := (cells w)(n \<mapsto> \<lparr>data = bs, generation = 1\<rparr>)\<rparr>"

lemma ram_law: "config_space_law ram_space (\<lambda>n w. cells w n)"
  unfolding config_space_law_def load_law_def commit_law_def ram_space_def Let_def
  by (auto split: if_splits)

lemmas ram_defs = ram_space_def ram_empty_def ram_with_def ram_faulty_def

lemma ram_load: "faults w = [] \<Longrightarrow> load (ram_space n) w = (Ok (cells w n), w)"
  by (simp add: ram_defs)

lemma ram_load_next:
  "faults w = f # fs \<Longrightarrow> load (ram_space n) w =
     (if f then Err () else Ok (cells w n), w\<lparr>faults := fs\<rparr>)"
  by (simp add: ram_defs Let_def)

lemma ram_commit_fault:
  "faults w = True # fs \<Longrightarrow> commit (ram_space n) bs w = (Err (), w\<lparr>faults := fs\<rparr>)"
  by (simp add: ram_defs Let_def)

definition ram_put :: "space_name \<Rightarrow> bytes \<Rightarrow> ram \<Rightarrow> ram" where
  "ram_put n bs w = w\<lparr>cells := (cells w)(n \<mapsto> \<lparr>data = bs,
     generation = (case cells w n of None \<Rightarrow> 1 | Some s \<Rightarrow> generation s + 1)\<rparr>)\<rparr>"

lemma ram_commit:
  "faults w = [] \<Longrightarrow> commit (ram_space n) bs w =
     (Ok (case cells w n of None \<Rightarrow> 1 | Some s \<Rightarrow> generation s + 1), ram_put n bs w)"
  by (simp add: ram_defs ram_put_def Let_def)

lemma ram_put_simps [simp]:
  "faults (ram_put n bs w) = faults w"
  "cells (ram_put n bs w) n = Some \<lparr>data = bs,
     generation = (case cells w n of None \<Rightarrow> 1 | Some s \<Rightarrow> generation s + 1)\<rparr>"
  "m \<noteq> n \<Longrightarrow> cells (ram_put n bs w) m = cells w m"
  by (simp_all add: ram_put_def)

lemma ram_empty_simps [simp]: "faults ram_empty = []" "cells ram_empty n = None"
  by (simp_all add: ram_empty_def)

end
