(* ===== verification/Agent_Core.thy ===== *)
theory Agent_Core
  imports Config_Space
begin

text \<open>
  \<open>src/agent.rs\<close>, identity and state: the agent's configuration (\<open>node_id\<close>,
  \<open>ctrl_url\<close>, Bearer token) with its encoding in the \<open>agent\<close> space, provisioning, token
  rotation and authorization, and the device state machine's one global cell. The JSON views
  \<open>info\<close> and \<open>health\<close> are in \<open>Agent_Info\<close>.
\<close>

section \<open>The agent configuration and its encoding\<close>

definition CONFIG_MAGIC :: bytes where
  "CONFIG_MAGIC = lit ''AGC1''"

definition CONFIG_HEADER_LEN :: nat where "CONFIG_HEADER_LEN = 10"
definition MAX_NODE_ID_LEN :: nat where "MAX_NODE_ID_LEN = 64"
definition MAX_CTRL_URL_LEN :: nat where "MAX_CTRL_URL_LEN = 192"
definition MAX_TOKEN_LEN :: nat where "MAX_TOKEN_LEN = 64"
definition agent_CONFIG_BUDGET :: nat where "agent_CONFIG_BUDGET = 384"

lemmas agent_limits =
  CONFIG_HEADER_LEN_def MAX_NODE_ID_LEN_def MAX_CTRL_URL_LEN_def MAX_TOKEN_LEN_def
  agent_CONFIG_BUDGET_def

record agent_config =
  cfg_node_id :: bytes
  cfg_ctrl_url :: bytes
  cfg_token :: bytes

definition agent_config_default :: agent_config where
  "agent_config_default = \<lparr>cfg_node_id = [], cfg_ctrl_url = [], cfg_token = []\<rparr>"

definition agent_config_encode :: "agent_config \<Rightarrow> bytes option" where
  "agent_config_encode c =
     (if length (cfg_node_id c) > MAX_NODE_ID_LEN
         \<or> length (cfg_ctrl_url c) > MAX_CTRL_URL_LEN
         \<or> length (cfg_token c) > MAX_TOKEN_LEN
      then None
      else do {
        node_len \<leftarrow> u16_try_from (length (cfg_node_id c));
        ctrl_len \<leftarrow> u16_try_from (length (cfg_ctrl_url c));
        token_len \<leftarrow> u16_try_from (length (cfg_token c));
        t1 \<leftarrow> checked_add CONFIG_HEADER_LEN (length (cfg_node_id c));
        t2 \<leftarrow> checked_add t1 (length (cfg_ctrl_url c));
        total \<leftarrow> checked_add t2 (length (cfg_token c));
        if total > agent_CONFIG_BUDGET then None
        else Some (CONFIG_MAGIC
          @ u16_to_le_bytes node_len
          @ u16_to_le_bytes ctrl_len
          @ u16_to_le_bytes token_len
          @ cfg_node_id c @ cfg_ctrl_url c @ cfg_token c)
      })"

text \<open>
  The decoder with its panics: every index and slice of the source is one that may panic.
  The outer \<open>run\<close> says whether it panics, the inner option is the function's result.
\<close>

definition agent_config_decode_run :: "bytes \<Rightarrow> agent_config option run" where
  "agent_config_decode_run raw =
     (if length raw < CONFIG_HEADER_LEN then Return None
      else run_bind (slice_range raw 0 4) (\<lambda>magic.
        if magic \<noteq> CONFIG_MAGIC then Return None
        else
          run_bind (index_at raw 4) (\<lambda>b4. run_bind (index_at raw 5) (\<lambda>b5.
          run_bind (index_at raw 6) (\<lambda>b6. run_bind (index_at raw 7) (\<lambda>b7.
          run_bind (index_at raw 8) (\<lambda>b8. run_bind (index_at raw 9) (\<lambda>b9.
          let node_len = unat (u16_from_le_bytes b4 b5);
              ctrl_len = unat (u16_from_le_bytes b6 b7);
              token_len = unat (u16_from_le_bytes b8 b9)
          in if node_len > MAX_NODE_ID_LEN \<or> ctrl_len > MAX_CTRL_URL_LEN
                \<or> token_len > MAX_TOKEN_LEN
             then Return None
             else case checked_add CONFIG_HEADER_LEN node_len of
               None \<Rightarrow> Return None
             | Some node_end \<Rightarrow> (case checked_add node_end ctrl_len of
                 None \<Rightarrow> Return None
               | Some ctrl_end \<Rightarrow> (case checked_add ctrl_end token_len of
                   None \<Rightarrow> Return None
                 | Some token_end \<Rightarrow>
                     if token_end \<noteq> length raw then Return None
                     else
                       run_bind (slice_range raw CONFIG_HEADER_LEN node_end) (\<lambda>node.
                       case from_utf8 node of
                         None \<Rightarrow> Return None
                       | Some nid \<Rightarrow>
                           run_bind (slice_range raw node_end ctrl_end) (\<lambda>ctrl.
                           case from_utf8 ctrl of
                             None \<Rightarrow> Return None
                           | Some url \<Rightarrow>
                               run_bind (slice_range raw ctrl_end token_end) (\<lambda>tok.
                               case from_utf8 tok of
                                 None \<Rightarrow> Return None
                               | Some t \<Rightarrow> Return (Some
                                   \<lparr>cfg_node_id = nid, cfg_ctrl_url = url, cfg_token = t\<rparr>)))))))
          )))))))"

text \<open>The decoder's result; \<open>agent_config_decode_total\<close> below shows that it never panics.\<close>

definition agent_config_decode :: "bytes \<Rightarrow> agent_config option" where
  "agent_config_decode raw =
     (case agent_config_decode_run raw of Return r \<Rightarrow> r | Panic \<Rightarrow> None)"

subsection \<open>Encoding lemmas\<close>

text \<open>The configurations the encoding can represent: bounded fields, valid strings.\<close>

definition agent_config_valid :: "agent_config \<Rightarrow> bool" where
  "agent_config_valid c \<longleftrightarrow>
     length (cfg_node_id c) \<le> MAX_NODE_ID_LEN \<and> length (cfg_ctrl_url c) \<le> MAX_CTRL_URL_LEN \<and>
     length (cfg_token c) \<le> MAX_TOKEN_LEN \<and>
     utf8 (cfg_node_id c) \<and> utf8 (cfg_ctrl_url c) \<and> utf8 (cfg_token c)"

definition agent_config_layout :: "agent_config \<Rightarrow> bytes" where
  "agent_config_layout c = CONFIG_MAGIC
     @ u16_to_le_bytes (of_nat (length (cfg_node_id c)))
     @ u16_to_le_bytes (of_nat (length (cfg_ctrl_url c)))
     @ u16_to_le_bytes (of_nat (length (cfg_token c)))
     @ cfg_node_id c @ cfg_ctrl_url c @ cfg_token c"

lemma agent_config_encode_eq:
  "agent_config_encode c =
     (if length (cfg_node_id c) \<le> MAX_NODE_ID_LEN \<and> length (cfg_ctrl_url c) \<le> MAX_CTRL_URL_LEN
         \<and> length (cfg_token c) \<le> MAX_TOKEN_LEN
      then Some (agent_config_layout c) else None)"
  by (auto simp: agent_config_encode_def agent_config_layout_def agent_limits u16_try_from_def
      checked_add_def)

lemma agent_config_encode_Some:
  "agent_config_valid c \<Longrightarrow> agent_config_encode c = Some (agent_config_layout c)"
  by (simp add: agent_config_encode_eq agent_config_valid_def)

lemma length_agent_config_layout:
  "length (agent_config_layout c) =
     10 + length (cfg_node_id c) + length (cfg_ctrl_url c) + length (cfg_token c)"
  by (simp add: agent_config_layout_def CONFIG_MAGIC_def)

text \<open>The decoder in closed form: its checks, none of which panics.\<close>

definition le_at :: "bytes \<Rightarrow> nat \<Rightarrow> nat" where
  "le_at raw i = unat (u16_from_le_bytes (raw ! i) (raw ! Suc i))"

definition agent_config_fields :: "bytes \<Rightarrow> agent_config" where
  "agent_config_fields raw =
     (let n = le_at raw 4; c = le_at raw 6; t = le_at raw 8
      in \<lparr>cfg_node_id = take n (drop 10 raw),
          cfg_ctrl_url = take c (drop (10 + n) raw),
          cfg_token = take t (drop (10 + n + c) raw)\<rparr>)"

definition agent_config_wellformed :: "bytes \<Rightarrow> bool" where
  "agent_config_wellformed raw \<longleftrightarrow>
     10 \<le> length raw \<and> take 4 raw = CONFIG_MAGIC \<and>
     le_at raw 4 \<le> MAX_NODE_ID_LEN \<and> le_at raw 6 \<le> MAX_CTRL_URL_LEN \<and>
     le_at raw 8 \<le> MAX_TOKEN_LEN \<and>
     length raw = 10 + le_at raw 4 + le_at raw 6 + le_at raw 8 \<and>
     utf8 (cfg_node_id (agent_config_fields raw)) \<and>
     utf8 (cfg_ctrl_url (agent_config_fields raw)) \<and>
     utf8 (cfg_token (agent_config_fields raw))"

lemma agent_config_decode_run_eq:
  "agent_config_decode_run raw =
     Return (if agent_config_wellformed raw then Some (agent_config_fields raw) else None)"
proof (cases "10 \<le> length raw \<and> take 4 raw = CONFIG_MAGIC \<and>
     le_at raw 4 \<le> MAX_NODE_ID_LEN \<and> le_at raw 6 \<le> MAX_CTRL_URL_LEN \<and>
     le_at raw 8 \<le> MAX_TOKEN_LEN \<and> length raw = 10 + le_at raw 4 + le_at raw 6 + le_at raw 8")
  case True
  then show ?thesis
    by (simp add: agent_config_decode_run_def agent_config_wellformed_def agent_config_fields_def
        le_at_def agent_limits std_simps Let_def from_utf8_def)
next
  case False
  then show ?thesis
    by (auto simp: agent_config_decode_run_def agent_config_wellformed_def le_at_def agent_limits
        std_simps Let_def slice_range_def split: option.splits)
qed

lemma agent_config_decode_eq:
  "agent_config_decode raw =
     (if agent_config_wellformed raw then Some (agent_config_fields raw) else None)"
  by (simp add: agent_config_decode_def agent_config_decode_run_eq)

lemma agent_config_decode_valid:
  "agent_config_decode raw = Some c \<Longrightarrow> agent_config_valid c"
  by (auto simp: agent_config_decode_eq agent_config_wellformed_def agent_config_valid_def
      agent_config_fields_def Let_def split: if_splits)

lemma agent_config_layout_bytes:
  "agent_config_layout c =
     [65, 71, 67, 49,
      ucast (of_nat (length (cfg_node_id c)) :: u16),
      ucast (drop_bit 8 (of_nat (length (cfg_node_id c)) :: u16)),
      ucast (of_nat (length (cfg_ctrl_url c)) :: u16),
      ucast (drop_bit 8 (of_nat (length (cfg_ctrl_url c)) :: u16)),
      ucast (of_nat (length (cfg_token c)) :: u16),
      ucast (drop_bit 8 (of_nat (length (cfg_token c)) :: u16))]
     @ cfg_node_id c @ cfg_ctrl_url c @ cfg_token c"
  by (simp add: agent_config_layout_def CONFIG_MAGIC_def lit_def u16_to_le_bytes_def)

lemma agent_config_layout_le_at:
  assumes "agent_config_valid c"
  shows "le_at (agent_config_layout c) 4 = length (cfg_node_id c)"
    and "le_at (agent_config_layout c) 6 = length (cfg_ctrl_url c)"
    and "le_at (agent_config_layout c) 8 = length (cfg_token c)"
  using assms
  by (simp_all add: le_at_def agent_config_layout_bytes agent_config_valid_def agent_limits
      del: of_nat_add)

lemma agent_config_fields_layout:
  assumes "agent_config_valid c"
  shows "agent_config_fields (agent_config_layout c) = c"
proof -
  obtain h where "length h = 10"
    and "agent_config_layout c = h @ cfg_node_id c @ cfg_ctrl_url c @ cfg_token c"
    using agent_config_layout_bytes [of c] by fastforce
  then show ?thesis
    unfolding agent_config_fields_def agent_config_layout_le_at [OF assms] Let_def by simp
qed

lemma agent_config_wellformed_layout:
  "agent_config_valid c \<Longrightarrow> agent_config_wellformed (agent_config_layout c)"
  by (simp add: agent_config_wellformed_def agent_config_fields_layout agent_config_layout_le_at
      length_agent_config_layout)
     (simp add: agent_config_layout_def CONFIG_MAGIC_def agent_config_valid_def)

lemma agent_config_decode_layout:
  "agent_config_valid c \<Longrightarrow> agent_config_decode (agent_config_layout c) = Some c"
  by (simp add: agent_config_decode_eq agent_config_wellformed_layout agent_config_fields_layout)

lemma le_at_bytes:
  "Suc i < length raw \<Longrightarrow>
   u16_to_le_bytes (of_nat (le_at raw i)) = take 2 (drop i raw)"
  by (simp add: le_at_def u16_le_bytes_inverse numeral_2_eq_2 Cons_nth_drop_Suc
      take_Suc_conv_app_nth)

lemma agent_config_layout_fields:
  assumes "agent_config_wellformed raw"
  shows "agent_config_layout (agent_config_fields raw) = raw"
proof -
  let ?n = "le_at raw 4" and ?c = "le_at raw 6" and ?t = "le_at raw 8"
  have len: "length raw = 10 + ?n + ?c + ?t" and magic: "take 4 raw = CONFIG_MAGIC"
    using assms by (auto simp: agent_config_wellformed_def)
  have "take 10 raw = take 4 raw @ take 2 (drop 4 raw) @ take 2 (drop 6 raw) @ take 2 (drop 8 raw)"
    using take_add [of 4 6 raw] take_add [of 2 4 "drop 4 raw"] take_add [of 2 2 "drop 6 raw"]
    by simp
  moreover have "drop 10 raw = take ?n (drop 10 raw) @ take ?c (drop (10 + ?n) raw)
      @ take ?t (drop (10 + ?n + ?c) raw)"
    using len append_take_drop_id [of ?n "drop 10 raw"]
      append_take_drop_id [of ?c "drop (10 + ?n) raw"]
    by (simp add: add.commute add.left_commute)
  ultimately show ?thesis
    using len magic append_take_drop_id [of 10 raw]
    by (simp add: agent_config_layout_def agent_config_fields_def Let_def le_at_bytes)
qed

text \<open>The stored encoding is canonical: only the encoder's own bytes decode.\<close>

lemma agent_config_encode_decode:
  "agent_config_decode raw = Some c \<Longrightarrow> agent_config_encode c = Some raw"
  using agent_config_decode_valid [of raw c]
  by (auto simp: agent_config_decode_eq agent_config_encode_Some agent_config_layout_fields
      split: if_splits)

interpretation agc: schema agent_config_encode agent_config_decode agent_config_valid
  agent_CONFIG_BUDGET
proof
  show "agent_config_valid c \<Longrightarrow> agent_config_encode c = Some bs \<Longrightarrow> agent_config_decode bs = Some c"
    for c bs by (auto simp: agent_config_encode_Some agent_config_decode_layout)
  show "agent_config_encode c = Some bs \<Longrightarrow> length bs \<le> agent_CONFIG_BUDGET" for c bs
    by (auto simp: agent_config_encode_eq length_agent_config_layout agent_limits split: if_splits)
qed (rule agent_config_decode_valid)

section \<open>Loading and saving\<close>

datatype agent_config_error = Persistence | InvalidValue

definition load_config ::
  "'w config_space \<Rightarrow> 'w \<Rightarrow> (agent_config, agent_config_error) result \<times> 'w" where
  "load_config space w =
     (case load space w of
        (Ok (Some snapshot), w') \<Rightarrow> (ok_or (agent_config_decode (data snapshot)) InvalidValue, w')
      | (Ok None, w') \<Rightarrow> (Ok agent_config_default, w')
      | (Err _, w') \<Rightarrow> (Err Persistence, w'))"

text \<open>
  \<open>node_id\<close>: the stored name, or \<open>embewi-\<close> and the device's hardware id, the value
  \<open>DeviceIdentity::hardware_id\<close> displays.
\<close>

definition node_id :: "'w config_space \<Rightarrow> bytes \<Rightarrow> 'w \<Rightarrow> bytes \<times> 'w" where
  "node_id space hardware_id w =
     (case load_config space w of
        (Ok config, w') \<Rightarrow>
          if cfg_node_id config \<noteq> [] then (cfg_node_id config, w')
          else (lit ''embewi-'' @ hardware_id, w')
      | (Err _, w') \<Rightarrow> (lit ''embewi-'' @ hardware_id, w'))"

definition ctrl_url :: "'w config_space \<Rightarrow> 'w \<Rightarrow> bytes \<times> 'w" where
  "ctrl_url space w =
     (case load_config space w of
        (Ok c, w') \<Rightarrow> (cfg_ctrl_url c, w')
      | (Err _, w') \<Rightarrow> ([], w'))"

definition token :: "'w config_space \<Rightarrow> 'w \<Rightarrow> bytes \<times> 'w" where
  "token space w =
     (case load_config space w of
        (Ok c, w') \<Rightarrow> (cfg_token c, w')
      | (Err _, w') \<Rightarrow> ([], w'))"

definition is_provisioned :: "'w config_space \<Rightarrow> 'w \<Rightarrow> bool \<times> 'w" where
  "is_provisioned space w =
     (case load_config space w of
        (Ok config, w') \<Rightarrow> (cfg_token config \<noteq> [], w')
      | (Err _, w') \<Rightarrow> (False, w'))"

text \<open>
  \<open>EntropySource::fill_random\<close> fills the 16-byte array; it is a parameter that returns the
  array, as a function of the index, and the new device state.
\<close>

definition generate_token :: "('w \<Rightarrow> (nat \<Rightarrow> u8) \<times> 'w) \<Rightarrow> 'w \<Rightarrow> bytes \<times> 'w" where
  "generate_token fill_random w =
     (case fill_random w of (f, w') \<Rightarrow> (concat (map (\<lambda>i. fmt_02x (f i)) [0..<16]), w'))"

definition save_identity ::
  "'w config_space \<Rightarrow> bytes \<Rightarrow> bytes \<Rightarrow> bytes \<Rightarrow> ('w \<Rightarrow> (nat \<Rightarrow> u8) \<times> 'w) \<Rightarrow> 'w
   \<Rightarrow> (unit, agent_config_error) result \<times> 'w" where
  "save_identity space new_node_id new_ctrl_url presented_token fill_random w =
     (case load_config space w of
        (Err e, w1) \<Rightarrow> (Err e, w1)
      | (Ok config0, w1) \<Rightarrow>
          let config1 = config0\<lparr>cfg_node_id := new_node_id, cfg_ctrl_url := new_ctrl_url\<rparr>;
              (config, w2) =
                (if presented_token \<noteq> [] then (config1\<lparr>cfg_token := presented_token\<rparr>, w1)
                 else if cfg_token config1 = [] then
                   (case generate_token fill_random w1 of
                      (t, w') \<Rightarrow> (config1\<lparr>cfg_token := t\<rparr>, w'))
                 else (config1, w1))
          in case agent_config_encode config of
               None \<Rightarrow> (Err InvalidValue, w2)
             | Some encoded \<Rightarrow>
                 (case commit space encoded w2 of
                    (Err _, w3) \<Rightarrow> (Err Persistence, w3)
                  | (Ok _, w3) \<Rightarrow> (Ok (), w3)))"

section \<open>Authorization and rotation\<close>

text \<open>
  The comparison is \<open>subtle::ConstantTimeEq\<close>, a parameter; the code relies on its
  documented result, equality.
\<close>

definition ct_eq_law :: "(bytes \<Rightarrow> bytes \<Rightarrow> bool) \<Rightarrow> bool" where
  "ct_eq_law ct_eq \<longleftrightarrow> (\<forall>a b. ct_eq a b \<longleftrightarrow> a = b)"

definition is_authorized ::
  "(bytes \<Rightarrow> bytes \<Rightarrow> bool) \<Rightarrow> 'w config_space \<Rightarrow> bytes \<Rightarrow> 'w \<Rightarrow> bool \<times> 'w" where
  "is_authorized ct_eq space presented w =
     (case token space w of (t, w') \<Rightarrow>
        if t = [] then (False, w') else (ct_eq t presented, w'))"

datatype rotate_token_error = InvalidLength | WriteFailed

definition rotate_token ::
  "'w config_space \<Rightarrow> bytes \<Rightarrow> 'w \<Rightarrow> (unit, rotate_token_error) result \<times> 'w" where
  "rotate_token space new_token w =
     (if \<not> (8 \<le> length new_token \<and> length new_token \<le> 64) then (Err InvalidLength, w)
      else case load_config space w of
        (Err _, w1) \<Rightarrow> (Err WriteFailed, w1)
      | (Ok config0, w1) \<Rightarrow>
          let config = config0\<lparr>cfg_token := new_token\<rparr>
          in case agent_config_encode config of
               None \<Rightarrow> (Err WriteFailed, w1)
             | Some encoded \<Rightarrow>
                 (case commit space encoded w1 of
                    (Err _, w2) \<Rightarrow> (Err WriteFailed, w2)
                  | (Ok _, w2) \<Rightarrow>
                      (case token space w2 of (t, w3) \<Rightarrow>
                         if t = new_token then (Ok (), w3) else (Err WriteFailed, w3))))"

section \<open>The device state\<close>

datatype agent_state =
    St_Booting | St_PendingVerify | St_Running | St_Degraded | St_Rollback | St_Failed

definition state_to_byte :: "agent_state \<Rightarrow> u8" where
  "state_to_byte s = (case s of
     St_Booting \<Rightarrow> 0 | St_PendingVerify \<Rightarrow> 1 | St_Running \<Rightarrow> 2
   | St_Degraded \<Rightarrow> 3 | St_Rollback \<Rightarrow> 4 | St_Failed \<Rightarrow> 5)"

definition state_from_byte :: "u8 \<Rightarrow> agent_state" where
  "state_from_byte byte =
     (if byte = 1 then St_PendingVerify
      else if byte = 2 then St_Running
      else if byte = 3 then St_Degraded
      else if byte = 4 then St_Rollback
      else if byte = 5 then St_Failed
      else St_Booting)"

definition state_as_str :: "agent_state \<Rightarrow> bytes" where
  "state_as_str s = (case s of
     St_Booting \<Rightarrow> lit ''booting''
   | St_PendingVerify \<Rightarrow> lit ''pending_verify''
   | St_Running \<Rightarrow> lit ''running''
   | St_Degraded \<Rightarrow> lit ''degraded''
   | St_Rollback \<Rightarrow> lit ''rollback''
   | St_Failed \<Rightarrow> lit ''failed'')"

text \<open>
  The device as the agent sees it: the opaque platform state, the \<open>STATE\<close> cell, and the
  calls made on the platform so far, oldest first (\<open>calls\<close> is the model's record of effects
  the code has through functions outside the repository).
\<close>

record ('w, 'c) dev =
  world :: 'w
  STATE :: u8
  calls :: "'c list"

definition set_state :: "agent_state \<Rightarrow> ('w, 'c) dev \<Rightarrow> ('w, 'c) dev" where
  "set_state s d = d\<lparr>STATE := state_to_byte s\<rparr>"

definition device_state :: "('w, 'c) dev \<Rightarrow> agent_state" where
  "device_state d = state_from_byte (STATE d)"

instantiation agent_state :: enum
begin

definition "enum_agent_state =
  [St_Booting, St_PendingVerify, St_Running, St_Degraded, St_Rollback, St_Failed]"

definition "enum_all_agent_state P \<longleftrightarrow>
  P St_Booting \<and> P St_PendingVerify \<and> P St_Running \<and> P St_Degraded \<and> P St_Rollback \<and> P St_Failed"

definition "enum_ex_agent_state P \<longleftrightarrow>
  P St_Booting \<or> P St_PendingVerify \<or> P St_Running \<or> P St_Degraded \<or> P St_Rollback \<or> P St_Failed"

instance
proof
  have cover: "(UNIV :: agent_state set) =
    {St_Booting, St_PendingVerify, St_Running, St_Degraded, St_Rollback, St_Failed}"
    by (auto intro: agent_state.exhaust)
  show "(UNIV :: agent_state set) = set enum_class.enum"
    by (simp add: enum_agent_state_def cover)
  show "distinct (enum_class.enum :: agent_state list)"
    by (simp add: enum_agent_state_def)
  show "enum_class.enum_all P \<longleftrightarrow> Ball UNIV P" for P :: "agent_state \<Rightarrow> bool"
    by (simp add: enum_all_agent_state_def cover)
  show "enum_class.enum_ex P \<longleftrightarrow> Bex UNIV P" for P :: "agent_state \<Rightarrow> bool"
    by (simp add: enum_ex_agent_state_def cover)
qed

end

lemma state_roundtrip: "state_from_byte (state_to_byte s) = s"
  by (cases s) (simp_all add: state_from_byte_def state_to_byte_def)

lemma state_as_str_inj: "state_as_str s = state_as_str s' \<Longrightarrow> s = s'"
  by (cases s; cases s'; simp add: state_as_str_def lit_def)

lemma device_state_set [simp]: "device_state (set_state s d) = s"
  by (simp add: device_state_def set_state_def state_roundtrip)

lemma set_state_frame [simp]:
  "world (set_state s d) = world d" "calls (set_state s d) = calls d"
  by (simp_all add: set_state_def)

end
