(* ===== verification/Platform.thy ===== *)
theory Platform
  imports Agent_Core
begin

text \<open>
  The vocabulary of the code that runs on the device and may never return: the tasks the two
  images spawn, the calls they make on the platform (reset, watchdog, OTA image state, task
  spawning), the ways a call leaves for good, and sequencing with early exit. An action maps the
  device to an outcome and the device after it; \<open>wp\<close> is its weakest precondition, with one
  postcondition for returning and one for leaving.
\<close>

section \<open>Calls, exits, actions\<close>

datatype task =
    T_Led u8 | T_Reconcile | T_Support | T_Selftest
  | T_Http_Api | T_Time_Sync | T_Heartbeat | T_Log_Stream
  | T_Http_Provisioning | T_Reboot

text \<open>The states the status indicator shows (\<open>iobewi_indicator::Status\<close>).\<close>

datatype status = S_Ready | S_Scanning | S_Connecting | S_Online | S_Failed

datatype call =
    Arm_Watchdog nat
  | Claim space_name
  | Read_Boot_Status
  | Pending_Check nat
  | Confirm_Image
  | Reject_Image
  | Begin_Provisioning
  | Ready_For_Agent
  | Enter_Production
  | Spawn task
  | Tls_Init
  | Ensure_Identity bytes
  | Wifi_Construct
  | Wifi_Maintain
  | Wifi_Reconnect
  | Serve_Improv
  | Indicate status
  | Publish bytes u32 bytes bytes
  | Activate_Staged bytes
  | Schedule_Reboot

text \<open>
  The ways control leaves for good: the two resets of \<open>BootReset\<close>, the endless spin of the
  freeze fault, a panic (\<open>panic!\<close>, \<open>expect\<close>, \<open>unwrap\<close>), and the final loop of a
  binary.
\<close>

datatype exit_kind = Rollback_Reset | Immediate_Reset | Spins | Panicked | Idles

datatype 'a outcome = Returns 'a | Exits exit_kind

type_synonym 'w device = "('w, call) dev"
type_synonym ('w, 'a) act = "'w device \<Rightarrow> 'a outcome \<times> 'w device"

definition act_return :: "'a \<Rightarrow> ('w, 'a) act" where
  "act_return a d = (Returns a, d)"

definition act_exit :: "exit_kind \<Rightarrow> ('w, 'a) act" where
  "act_exit e d = (Exits e, d)"

definition act_bind :: "('w, 'a) act \<Rightarrow> ('a \<Rightarrow> ('w, 'b) act) \<Rightarrow> ('w, 'b) act" where
  "act_bind m f d =
     (case m d of (Returns a, d') \<Rightarrow> f a d' | (Exits e, d') \<Rightarrow> (Exits e, d'))"

definition act_seq :: "('w, unit) act \<Rightarrow> ('w, 'b) act \<Rightarrow> ('w, 'b) act" where
  "act_seq m n = act_bind m (\<lambda>_. n)"

definition act_when :: "bool \<Rightarrow> ('w, unit) act \<Rightarrow> ('w, unit) act" where
  "act_when b m = (if b then m else act_return ())"

text \<open>\<open>expect\<close> and \<open>unwrap\<close> of a result, and \<open>panic!\<close>.\<close>

definition act_expect :: "('w, ('a, 'e) result) act \<Rightarrow> ('w, 'a) act" where
  "act_expect m = act_bind m (\<lambda>r. case r of Ok a \<Rightarrow> act_return a | Err _ \<Rightarrow> act_exit Panicked)"

text \<open>An operation on the platform: a reader leaves no trace, an effect is recorded.\<close>

definition act_read :: "('w \<Rightarrow> 'a \<times> 'w) \<Rightarrow> ('w, 'a) act" where
  "act_read f d = (case f (world d) of (a, w') \<Rightarrow> (Returns a, d\<lparr>world := w'\<rparr>))"

definition act_call :: "call \<Rightarrow> ('w \<Rightarrow> 'a \<times> 'w) \<Rightarrow> ('w, 'a) act" where
  "act_call c f d =
     (case f (world d) of (a, w') \<Rightarrow> (Returns a, d\<lparr>world := w', calls := calls d @ [c]\<rparr>))"

definition act_set_state :: "agent_state \<Rightarrow> ('w, unit) act" where
  "act_set_state s d = (Returns (), set_state s d)"

section \<open>Build features\<close>

text \<open>
  The cargo features that change the code modelled here. \<open>test-probe-runtime\<close> and
  \<open>workload-native\<close> together are a compile error (\<open>workload.rs\<close>).
\<close>

record features =
  fault_injection :: bool
  fault_injection_freeze :: bool
  workload_native :: bool
  test_probe_runtime :: bool
  workload_selftest :: bool
  test_runtime_api_0_9 :: bool

definition features_compile :: "features \<Rightarrow> bool" where
  "features_compile feat \<longleftrightarrow> \<not> (test_probe_runtime feat \<and> workload_native feat)"

text \<open>The default feature set, the production image.\<close>

definition production_features :: features where
  "production_features = \<lparr>fault_injection = False, fault_injection_freeze = False,
     workload_native = True, test_probe_runtime = False, workload_selftest = False,
     test_runtime_api_0_9 = False\<rparr>"

section \<open>Weakest preconditions\<close>

definition wp ::
  "('w, 'a) act \<Rightarrow> ('a \<Rightarrow> 'w device \<Rightarrow> bool) \<Rightarrow> (exit_kind \<Rightarrow> 'w device \<Rightarrow> bool)
   \<Rightarrow> 'w device \<Rightarrow> bool" where
  "wp m Q E d = (case m d of (Returns a, d') \<Rightarrow> Q a d' | (Exits e, d') \<Rightarrow> E e d')"

named_theorems wp_rules "weakest preconditions of the action combinators"

lemma wp_return [wp_rules]: "wp (act_return a) Q E d \<longleftrightarrow> Q a d"
  by (simp add: wp_def act_return_def)

lemma wp_exit [wp_rules]: "wp (act_exit e) Q E d \<longleftrightarrow> E e d"
  by (simp add: wp_def act_exit_def)

lemma wp_set_state [wp_rules]: "wp (act_set_state s) Q E d \<longleftrightarrow> Q () (set_state s d)"
  by (simp add: wp_def act_set_state_def)

lemma wp_bind [wp_rules]: "wp (act_bind m f) Q E d \<longleftrightarrow> wp m (\<lambda>a. wp (f a) Q E) E d"
  by (simp add: wp_def act_bind_def split: prod.split outcome.split)

lemma wp_seq [wp_rules]: "wp (act_seq m n) Q E d \<longleftrightarrow> wp m (\<lambda>_. wp n Q E) E d"
  by (simp add: act_seq_def wp_bind)

lemma wp_when [wp_rules]: "wp (act_when b m) Q E d \<longleftrightarrow> (if b then wp m Q E d else Q () d)"
  by (simp add: act_when_def wp_return)

lemma wp_expect [wp_rules]:
  "wp (act_expect m) Q E d \<longleftrightarrow>
   wp m (\<lambda>r d'. case r of Ok a \<Rightarrow> Q a d' | Err _ \<Rightarrow> E Panicked d') E d"
  unfolding act_expect_def wp_bind
  by (simp add: wp_def act_return_def act_exit_def split: prod.split outcome.split result.split)

lemma wp_read [wp_rules]:
  "wp (act_read f) Q E d \<longleftrightarrow>
   Q (fst (f (world d))) (d\<lparr>world := snd (f (world d))\<rparr>)"
  by (simp add: wp_def act_read_def split: prod.split)

lemma wp_call [wp_rules]:
  "wp (act_call c f) Q E d \<longleftrightarrow>
   Q (fst (f (world d))) (d\<lparr>world := snd (f (world d)), calls := calls d @ [c]\<rparr>)"
  by (simp add: wp_def act_call_def split: prod.split)

lemma wp_mono:
  assumes "wp m Q E d" and "\<And>a d'. Q a d' \<Longrightarrow> Q' a d'" and "\<And>e d'. E e d' \<Longrightarrow> E' e d'"
  shows "wp m Q' E' d"
  using assms by (auto simp: wp_def split: prod.splits outcome.splits)

lemma wp_conj:
  "wp m Q E d \<Longrightarrow> wp m Q' E' d \<Longrightarrow> wp m (\<lambda>a d. Q a d \<and> Q' a d) (\<lambda>e d. E e d \<and> E' e d) d"
  by (auto simp: wp_def split: prod.splits outcome.splits)

lemma wp_run:
  "wp m Q E d \<Longrightarrow> m d = (r, d') \<Longrightarrow> (case r of Returns a \<Rightarrow> Q a d' | Exits e \<Rightarrow> E e d')"
  by (simp add: wp_def)

lemma wp_result [wp_rules]:
  "wp (case r of Ok a \<Rightarrow> f a | Err e \<Rightarrow> g e) Q E d \<longleftrightarrow>
   (case r of Ok a \<Rightarrow> wp (f a) Q E d | Err e \<Rightarrow> wp (g e) Q E d)"
  by (simp split: result.split)

lemma wp_option [wp_rules]:
  "wp (case x of None \<Rightarrow> g | Some a \<Rightarrow> f a) Q E d \<longleftrightarrow>
   (case x of None \<Rightarrow> wp g Q E d | Some a \<Rightarrow> wp (f a) Q E d)"
  by (simp split: option.split)

lemma wp_if [wp_rules]:
  "wp (if b then m else n) Q E d \<longleftrightarrow> (if b then wp m Q E d else wp n Q E d)"
  by simp

text \<open>What an action does to \<open>STATE\<close> and to the trace when it is only a reader or a call.\<close>

lemma state_frame [simp]:
  "device_state (d\<lparr>world := w\<rparr>) = device_state d"
  "device_state (d\<lparr>world := w, calls := cs\<rparr>) = device_state d"
  "device_state (d\<lparr>calls := cs\<rparr>) = device_state d"
  by (simp_all add: device_state_def)

section \<open>Phases\<close>

text \<open>
  A phase relates the device before and after by a preorder \<open>R\<close>, whether it returns, with a
  value satisfying \<open>P\<close>, or leaves, in one of the ways \<open>X\<close>. Phases compose.
\<close>

definition phase ::
  "('w device \<Rightarrow> 'w device \<Rightarrow> bool) \<Rightarrow> (exit_kind \<Rightarrow> bool) \<Rightarrow> ('a \<Rightarrow> bool) \<Rightarrow> ('w, 'a) act \<Rightarrow> bool" where
  "phase R X P m \<longleftrightarrow> (\<forall>d. wp m (\<lambda>a d'. P a \<and> R d d') (\<lambda>e d'. X e \<and> R d d') d)"

definition preorder_on_devices :: "('w device \<Rightarrow> 'w device \<Rightarrow> bool) \<Rightarrow> bool" where
  "preorder_on_devices R \<longleftrightarrow> (\<forall>d. R d d) \<and> (\<forall>d d' d''. R d d' \<longrightarrow> R d' d'' \<longrightarrow> R d d'')"

lemma phase_bind:
  assumes R: "preorder_on_devices R" and m: "phase R X P m" and f: "\<And>a. P a \<Longrightarrow> phase R X Q (f a)"
  shows "phase R X Q (act_bind m f)"
  unfolding phase_def wp_bind
proof
  fix d
  have "wp m (\<lambda>a d'. P a \<and> R d d') (\<lambda>e d'. X e \<and> R d d') d"
    using m by (simp add: phase_def)
  then show "wp m (\<lambda>a. wp (f a) (\<lambda>a d'. Q a \<and> R d d') (\<lambda>e d'. X e \<and> R d d'))
      (\<lambda>e d'. X e \<and> R d d') d"
  proof (rule wp_mono)
    fix a d' assume a: "P a \<and> R d d'"
    then have "wp (f a) (\<lambda>b d''. Q b \<and> R d' d'') (\<lambda>e d''. X e \<and> R d' d'') d'"
      using f by (simp add: phase_def)
    then show "wp (f a) (\<lambda>a d'. Q a \<and> R d d') (\<lambda>e d'. X e \<and> R d d') d'"
      using R a by (elim wp_mono) (unfold preorder_on_devices_def, blast+)
  qed
qed

lemma phase_seq:
  "preorder_on_devices R \<Longrightarrow> phase R X P m \<Longrightarrow> phase R X Q n \<Longrightarrow> phase R X Q (act_seq m n)"
  unfolding act_seq_def by (rule phase_bind)

lemma phase_return: "preorder_on_devices R \<Longrightarrow> P a \<Longrightarrow> phase R X P (act_return a)"
  by (simp add: phase_def wp_return preorder_on_devices_def)

lemma phase_exit: "preorder_on_devices R \<Longrightarrow> X e \<Longrightarrow> phase R X P (act_exit e)"
  by (simp add: phase_def wp_exit preorder_on_devices_def)

lemma phase_when:
  "preorder_on_devices R \<Longrightarrow> (b \<Longrightarrow> phase R X (\<lambda>_. True) m) \<Longrightarrow> phase R X (\<lambda>_. True) (act_when b m)"
  by (simp add: act_when_def phase_return)

lemma phase_expect:
  assumes "preorder_on_devices R" and "X Panicked" and "phase R X (\<lambda>r. \<forall>a. r = Ok a \<longrightarrow> P a) m"
  shows "phase R X P (act_expect m)"
  unfolding act_expect_def using assms(1,3)
  by (rule phase_bind) (use assms in \<open>auto intro: phase_return phase_exit split: result.split\<close>)

lemma phase_run:
  "phase R X P m \<Longrightarrow> wp m (\<lambda>a d'. P a \<and> R d d') (\<lambda>e d'. X e \<and> R d d') d"
  by (simp add: phase_def)

section \<open>Actions that keep a predicate of the stored values\<close>

definition maintains :: "('w \<Rightarrow> bool) \<Rightarrow> ('w \<Rightarrow> 'a \<times> 'w) \<Rightarrow> bool" where
  "maintains J f \<longleftrightarrow> (\<forall>w. J w \<longrightarrow> J (snd (f w)))"

definition keeps :: "('w \<Rightarrow> bool) \<Rightarrow> ('a \<Rightarrow> bool) \<Rightarrow> ('w, 'a) act \<Rightarrow> bool" where
  "keeps J P m \<longleftrightarrow>
     (\<forall>d. J (world d) \<longrightarrow> wp m (\<lambda>a d'. P a \<and> J (world d')) (\<lambda>e d'. J (world d')) d)"

named_theorems keeps_rules "actions that keep a predicate of the stored values"

lemma keeps_return [keeps_rules]: "P a \<Longrightarrow> keeps J P (act_return a)"
  by (simp add: keeps_def wp_rules)

lemma keeps_exit [keeps_rules]: "keeps J P (act_exit e)"
  by (simp add: keeps_def wp_rules)

lemma keeps_set_state [keeps_rules]: "keeps J (\<lambda>_. True) (act_set_state s)"
  by (simp add: keeps_def wp_rules set_state_def)

lemma keeps_bind:
  assumes "keeps J P m" and "\<And>a. P a \<Longrightarrow> keeps J Q (f a)"
  shows "keeps J Q (act_bind m f)"
  unfolding keeps_def wp_bind
proof (intro allI impI)
  fix d :: "'a device" assume "J (world d)"
  then have "wp m (\<lambda>a d'. P a \<and> J (world d')) (\<lambda>e d'. J (world d')) d"
    using assms(1) by (simp add: keeps_def)
  then show "wp m (\<lambda>a. wp (f a) (\<lambda>a d'. Q a \<and> J (world d')) (\<lambda>e d'. J (world d'))) (\<lambda>e d'. J (world d')) d"
    by (rule wp_mono) (use assms(2) in \<open>simp_all add: keeps_def\<close>)
qed

lemma keeps_seq [keeps_rules]: "keeps J (\<lambda>_. True) m \<Longrightarrow> keeps J Q n \<Longrightarrow> keeps J Q (act_seq m n)"
  unfolding act_seq_def by (rule keeps_bind)

lemma keeps_when [keeps_rules]:
  "(b \<Longrightarrow> keeps J (\<lambda>_. True) m) \<Longrightarrow> keeps J (\<lambda>_. True) (act_when b m)"
  by (simp add: act_when_def keeps_return)

lemma keeps_expect [keeps_rules]:
  "keeps J (\<lambda>r. \<forall>a. r = Ok a \<longrightarrow> P a) m \<Longrightarrow> keeps J P (act_expect m)"
  unfolding act_expect_def
  by (erule keeps_bind) (auto intro: keeps_return keeps_exit split: result.split)

lemma keeps_read: "maintains J f \<Longrightarrow> (\<And>w. J w \<Longrightarrow> P (fst (f w))) \<Longrightarrow> keeps J P (act_read f)"
  by (simp add: keeps_def wp_rules maintains_def)

lemma keeps_call: "maintains J f \<Longrightarrow> (\<And>w. J w \<Longrightarrow> P (fst (f w))) \<Longrightarrow> keeps J P (act_call c f)"
  by (simp add: keeps_def wp_rules maintains_def)

lemma keeps_read_any [keeps_rules]: "maintains J f \<Longrightarrow> keeps J (\<lambda>_. True) (act_read f)"
  by (rule keeps_read) simp_all

lemma keeps_call_any [keeps_rules]: "maintains J f \<Longrightarrow> keeps J (\<lambda>_. True) (act_call c f)"
  by (rule keeps_call) simp_all

lemma keeps_bind_any [keeps_rules]:
  "keeps J (\<lambda>_. True) m \<Longrightarrow> (\<And>a. keeps J Q (f a)) \<Longrightarrow> keeps J Q (act_bind m f)"
  by (rule keeps_bind)

lemma keeps_any: "keeps J P m \<Longrightarrow> keeps J (\<lambda>_. True) m"
  unfolding keeps_def by (auto elim: wp_mono)

lemma maintains_none [keeps_rules]: "maintains J (\<lambda>w. (a, w))"
  by (simp add: maintains_def)

lemma keeps_wp:
  "(\<And>d. J (world d) \<Longrightarrow> wp m (\<lambda>a d'. P a \<and> J (world d')) (\<lambda>e d'. J (world d')) d) \<Longrightarrow> keeps J P m"
  by (simp add: keeps_def)

lemma keeps_run: "keeps J P m \<Longrightarrow> J (world d) \<Longrightarrow> m d = (r, d') \<Longrightarrow> J (world d')"
  unfolding keeps_def wp_def by (cases r) fastforce+

end
