(* ===== verification/Ota_Facade.thy ===== *)
theory Ota_Facade
  imports Platform
begin

text \<open>
  \<open>src/ota.rs\<close>: the bootstrap lifecycle, the read-only OTA metadata, and the boot-time policy
  (\<open>on_boot\<close>, \<open>confirm_pending\<close>, \<open>reject_pending\<close>). The transaction engine behind it is the
  crate \<open>iobewi-ota\<close>, outside the repository: its entry points are the fields of \<open>ota_service\<close>.
\<close>

section \<open>The external OTA service\<close>

datatype bootstrap_state = Factory | Provisioning | ReadyForAgent | Production

text \<open>The states in the order a device goes through them.\<close>

primrec bootstrap_rank :: "bootstrap_state \<Rightarrow> nat" where
  "bootstrap_rank Factory = 0"
| "bootstrap_rank Provisioning = 1"
| "bootstrap_rank ReadyForAgent = 2"
| "bootstrap_rank Production = 3"

lemma bootstrap_rank_inj: "bootstrap_rank s = bootstrap_rank t \<Longrightarrow> s = t"
  by (cases s; cases t) simp_all

instantiation bootstrap_state :: linorder
begin

definition less_eq_bootstrap_state :: "bootstrap_state \<Rightarrow> bootstrap_state \<Rightarrow> bool" where
  "s \<le> t \<longleftrightarrow> bootstrap_rank s \<le> bootstrap_rank t"

definition less_bootstrap_state :: "bootstrap_state \<Rightarrow> bootstrap_state \<Rightarrow> bool" where
  "s < t \<longleftrightarrow> bootstrap_rank s < bootstrap_rank t"

instance
  by intro_classes (auto simp: less_eq_bootstrap_state_def less_bootstrap_state_def intro: bootstrap_rank_inj)

end

datatype pending_check_action = PC_Confirm | PC_Reject | PC_Reset

datatype confirmation = Conf_Valid | Conf_Degraded | Conf_ResetRequired

datatype boot_status = BS_PendingVerify | BS_Rollback | BS_Degraded | BS_Stable

text \<open>
  The metadata fields the agent reads: the staged record (its stage as \<open>Stage::as_str\<close> shows
  it) and the identity of the active image.
\<close>

record staged_record =
  staged_stage :: bytes
  staged_slot :: bytes
  staged_digest :: bytes
  staged_deployment_id :: bytes

record ota_metadata =
  md_staged :: staged_record
  md_active_digest :: bytes
  md_active_deployment_id :: bytes

text \<open>What \<open>service::boot::on_boot\<close> returns, as far as it is used beyond logging.\<close>

record boot_result =
  br_status :: boot_status
  br_storage_healthy :: "bool option"

record 'w ota_service =
  svc_bootstrap_state :: "'w config_space \<Rightarrow> 'w \<Rightarrow> (bootstrap_state, unit) result \<times> 'w"
  svc_begin_provisioning :: "'w config_space \<Rightarrow> 'w \<Rightarrow> (unit, unit) result \<times> 'w"
  svc_ready_for_agent :: "'w config_space \<Rightarrow> 'w \<Rightarrow> (unit, unit) result \<times> 'w"
  svc_production :: "'w config_space \<Rightarrow> 'w \<Rightarrow> (unit, unit) result \<times> 'w"
  svc_load_metadata :: "'w config_space \<Rightarrow> 'w \<Rightarrow> (ota_metadata, unit) result \<times> 'w"
  svc_clear_staged :: "'w config_space \<Rightarrow> 'w \<Rightarrow> (unit, unit) result \<times> 'w"
  svc_staged_default :: staged_record
  svc_pending_check :: "nat \<Rightarrow> 'w \<Rightarrow> pending_check_action \<times> 'w"
  svc_confirm_pending :: "'w config_space \<Rightarrow> 'w \<Rightarrow> confirmation \<times> 'w"
  svc_reject_pending :: "'w \<Rightarrow> unit \<times> 'w"
  svc_on_boot :: "'w config_space \<Rightarrow> 'w \<Rightarrow> boot_result \<times> 'w"

section \<open>The facade\<close>

definition bootstrap_state_of ::
  "'w ota_service \<Rightarrow> 'w config_space \<Rightarrow> ('w, (bootstrap_state, unit) result) act" where
  "bootstrap_state_of svc space = act_read (svc_bootstrap_state svc space)"

definition begin_provisioning :: "'w ota_service \<Rightarrow> 'w config_space \<Rightarrow> ('w, (unit, unit) result) act" where
  "begin_provisioning svc space = act_call Begin_Provisioning (svc_begin_provisioning svc space)"

definition ready_for_agent :: "'w ota_service \<Rightarrow> 'w config_space \<Rightarrow> ('w, (unit, unit) result) act" where
  "ready_for_agent svc space = act_call Ready_For_Agent (svc_ready_for_agent svc space)"

definition production :: "'w ota_service \<Rightarrow> 'w config_space \<Rightarrow> ('w, (unit, unit) result) act" where
  "production svc space = act_call Enter_Production (svc_production svc space)"

definition staged :: "'w ota_service \<Rightarrow> 'w config_space \<Rightarrow> 'w \<Rightarrow> staged_record \<times> 'w" where
  "staged svc space w =
     (case svc_load_metadata svc space w of
        (Ok metadata, w') \<Rightarrow> (md_staged metadata, w')
      | (Err _, w') \<Rightarrow> (svc_staged_default svc, w'))"

definition clear_staged :: "'w ota_service \<Rightarrow> 'w config_space \<Rightarrow> 'w \<Rightarrow> (unit, unit) result \<times> 'w" where
  "clear_staged svc space w = svc_clear_staged svc space w"

definition active_digest :: "'w ota_service \<Rightarrow> 'w config_space \<Rightarrow> 'w \<Rightarrow> bytes \<times> 'w" where
  "active_digest svc space w =
     (case svc_load_metadata svc space w of
        (Ok metadata, w') \<Rightarrow> (md_active_digest metadata, w')
      | (Err _, w') \<Rightarrow> ([], w'))"

definition active_deployment_id :: "'w ota_service \<Rightarrow> 'w config_space \<Rightarrow> 'w \<Rightarrow> bytes \<times> 'w" where
  "active_deployment_id svc space w =
     (case svc_load_metadata svc space w of
        (Ok metadata, w') \<Rightarrow> (md_active_deployment_id metadata, w')
      | (Err _, w') \<Rightarrow> ([], w'))"

section \<open>Boot policy\<close>

definition BOOT_WATCHDOG_DEADLINE_MS :: nat where
  "BOOT_WATCHDOG_DEADLINE_MS = 20000"

definition reset_for_rollback :: "('w, 'a) act" where
  "reset_for_rollback = act_exit Rollback_Reset"

definition reset_now :: "('w, 'a) act" where
  "reset_now = act_exit Immediate_Reset"

text \<open>
  \<open>confirm_pending\<close>; \<open>deadline\<close> is \<open>SELFCHECK_DEADLINE\<close>, a constant of the OTA crate.
\<close>

definition confirm_pending ::
  "features \<Rightarrow> 'w ota_service \<Rightarrow> nat \<Rightarrow> 'w config_space \<Rightarrow> ('w, unit) act" where
  "confirm_pending feat svc deadline ota_config =
     (if fault_injection_freeze feat then act_exit Spins
      else
        act_bind (act_call (Pending_Check deadline) (svc_pending_check svc deadline)) (\<lambda>check.
        case check of
          PC_Confirm \<Rightarrow>
            act_seq (act_when (fault_injection feat) reset_for_rollback)
            (act_bind (act_call Confirm_Image (svc_confirm_pending svc ota_config)) (\<lambda>conf.
             case conf of
               Conf_Valid \<Rightarrow> act_set_state St_Running
             | Conf_Degraded \<Rightarrow> act_set_state St_Degraded
             | Conf_ResetRequired \<Rightarrow> reset_for_rollback))
        | PC_Reject \<Rightarrow>
            act_seq (act_call Reject_Image (svc_reject_pending svc)) reset_for_rollback
        | PC_Reset \<Rightarrow> reset_now))"

datatype boot_disposition = Stable | PendingVerify

definition on_boot :: "'w ota_service \<Rightarrow> 'w config_space \<Rightarrow> ('w, boot_disposition) act" where
  "on_boot svc ota_config =
     act_bind (act_call Read_Boot_Status (svc_on_boot svc ota_config)) (\<lambda>res.
       case br_status res of
         BS_PendingVerify \<Rightarrow> act_seq (act_set_state St_PendingVerify) (act_return PendingVerify)
       | BS_Rollback \<Rightarrow> act_seq (act_set_state St_Rollback) reset_for_rollback
       | BS_Degraded \<Rightarrow> act_seq (act_set_state St_Degraded) (act_return Stable)
       | BS_Stable \<Rightarrow> act_seq (act_set_state St_Running) (act_return Stable))"

definition reject_pending :: "'w ota_service \<Rightarrow> ('w, 'a) act" where
  "reject_pending svc =
     act_seq (act_call Reject_Image (svc_reject_pending svc)) reset_for_rollback"

lemma wp_reset_for_rollback [wp_rules]: "wp reset_for_rollback Q E d \<longleftrightarrow> E Rollback_Reset d"
  and wp_reset_now [wp_rules]: "wp reset_now Q E d \<longleftrightarrow> E Immediate_Reset d"
  by (simp_all add: reset_for_rollback_def reset_now_def wp_rules)

lemma wp_bootstrap_state_of [wp_rules]:
  "wp (bootstrap_state_of svc space) Q E d \<longleftrightarrow>
   Q (fst (svc_bootstrap_state svc space (world d)))
     (d\<lparr>world := snd (svc_bootstrap_state svc space (world d))\<rparr>)"
  by (simp add: bootstrap_state_of_def wp_rules)

text \<open>
  What \<open>on_boot\<close> leaves behind: a disposition that matches \<open>STATE\<close>, and one more entry in
  the trace; it leaves for good only to roll back.
\<close>

lemma on_boot_spec:
  "wp (on_boot svc space)
     (\<lambda>b d'. calls d' = calls d @ [Read_Boot_Status] \<and>
        (b = PendingVerify \<longrightarrow> device_state d' = St_PendingVerify) \<and>
        (b = Stable \<longrightarrow> device_state d' \<in> {St_Running, St_Degraded}))
     (\<lambda>e d'. e = Rollback_Reset \<and> device_state d' = St_Rollback \<and>
        calls d' = calls d @ [Read_Boot_Status]) d"
  unfolding on_boot_def
  by (cases "br_status (fst (svc_on_boot svc space (world d)))") (simp_all add: wp_rules)

lemma confirm_pending_spec:
  "wp (confirm_pending feat svc deadline space)
     (\<lambda>_ d'. calls d' = calls d @ [Pending_Check deadline, Confirm_Image] \<and>
        device_state d' \<in> {St_Running, St_Degraded})
     (\<lambda>e d'. e \<in> {Rollback_Reset, Immediate_Reset, Spins} \<and>
        (\<exists>cs. calls d' = calls d @ cs \<and>
           set cs \<subseteq> {Pending_Check deadline, Confirm_Image, Reject_Image})) d"
proof (cases "fst (svc_pending_check svc deadline (world d))")
  case PC_Confirm
  then show ?thesis
    unfolding confirm_pending_def
    by (auto simp: wp_rules split: confirmation.split)
qed (auto simp: confirm_pending_def wp_rules)

lemma reject_pending_spec:
  "wp (reject_pending svc) Q
     (\<lambda>e d'. e = Rollback_Reset \<and> calls d' = calls d @ [Reject_Image] \<and>
        device_state d' = device_state d) d"
  by (simp add: reject_pending_def wp_rules)

end
