(* ===== verification/App_Config.thy ===== *)
theory App_Config
  imports Config_Space
begin

text \<open>
  \<open>src/app_config.rs\<close>: the business service's TCP port in the \<open>app\<close> space, six bytes
  \<open>APC1\<close> and the port in little-endian order, with a default when nothing usable is stored.
\<close>

definition app_MAGIC :: bytes where
  "app_MAGIC = lit ''APC1''"

definition DEFAULT_PORT :: u16 where
  "DEFAULT_PORT = 8080"

definition app_CONFIG_BUDGET :: nat where
  "app_CONFIG_BUDGET = 8"

definition app_decode :: "bytes \<Rightarrow> u16 option" where
  "app_decode raw =
     (if length raw \<noteq> 6 \<or> take 4 raw \<noteq> app_MAGIC then None
      else Some (u16_from_le_bytes (raw ! 4) (raw ! 5)))"

definition app_encode :: "u16 \<Rightarrow> bytes" where
  "app_encode port = app_MAGIC @ u16_to_le_bytes port"

definition app_port :: "'w config_space \<Rightarrow> 'w \<Rightarrow> u16 \<times> 'w" where
  "app_port space w =
     (case load space w of
        (Ok (Some snapshot), w') \<Rightarrow>
          (case app_decode (data snapshot) of
             None \<Rightarrow> (DEFAULT_PORT, w')
           | Some p \<Rightarrow> (p, w'))
      | (_, w') \<Rightarrow> (DEFAULT_PORT, w'))"

definition save_port :: "'w config_space \<Rightarrow> u16 \<Rightarrow> 'w \<Rightarrow> (unit, unit) result \<times> 'w" where
  "save_port space p w =
     (case commit space (app_encode p) w of
        (Ok _, w') \<Rightarrow> (Ok (), w')
      | (Err _, w') \<Rightarrow> (Err (), w'))"

lemma app_decode_encode: "app_decode (app_encode p) = Some p"
  by (simp add: app_decode_def app_encode_def app_MAGIC_def nth_append u16_to_le_bytes_def)

lemma app_encode_decode: "app_decode raw = Some p \<Longrightarrow> app_encode p = raw"
proof -
  assume "app_decode raw = Some p"
  then have len: "length raw = 6" and m: "take 4 raw = app_MAGIC"
    and p: "p = u16_from_le_bytes (raw ! 4) (raw ! 5)"
    by (auto simp: app_decode_def split: if_splits)
  have "drop 4 raw = [raw ! 4, raw ! 5]"
    using len by (auto simp: numeral_eq_Suc length_Suc_conv)
  then show ?thesis
    by (metis app_encode_def append_take_drop_id m p u16_le_bytes_inverse)
qed

interpretation app: schema "\<lambda>p. Some (app_encode p)" app_decode "\<lambda>_. True" app_CONFIG_BUDGET
  by unfold_locales
     (auto simp: app_decode_encode, simp add: app_encode_def app_MAGIC_def app_CONFIG_BUDGET_def)

lemma app_port_keeps:
  "config_space_law cs stored \<Longrightarrow> app_port (cs n) w = (r, w') \<Longrightarrow> stored m w' = stored m w"
  by (auto simp: app_port_def dest: law_load_stored split: prod.splits result.splits option.splits)

lemma save_port_other:
  "config_space_law cs stored \<Longrightarrow> save_port (cs n) p w = (r, w') \<Longrightarrow> m \<noteq> n \<Longrightarrow>
   stored m w' = stored m w"
  by (auto simp: save_port_def dest: law_commit_other split: prod.splits result.splits)

lemma save_port_Ok:
  "config_space_law cs stored \<Longrightarrow> save_port (cs n) p w = (Ok (), w') \<Longrightarrow>
   \<exists>g. stored n w' = Some \<lparr>data = app_encode p, generation = g\<rparr>"
  by (auto simp: save_port_def dest: law_commit_Ok split: prod.splits result.splits)

lemma save_then_app_port:
  assumes "config_space_law cs stored"
    and "save_port (cs n) p w = (Ok (), w1)" and "load (cs n) w1 = (Ok s, w2)"
  shows "app_port (cs n) w1 = (p, w2)"
  using save_port_Ok [OF assms(1,2)] law_load_Ok [OF assms(1,3)] assms(3)
  by (auto simp: app_port_def app_decode_encode)

end
