(* ===== verification/BTree_Map.thy ===== *)
theory BTree_Map
  imports Rust_Std "HOL-Library.List_Lexorder"
begin

text \<open>
  \<open>alloc::collections::BTreeMap\<close> as the agent uses it: an association list in strictly
  ascending key order, which is the order iteration yields. String keys compare
  byte-lexicographically, the order \<open>List_Lexorder\<close> gives byte lists.
\<close>

type_synonym ('k, 'v) btree = "('k \<times> 'v) list"

definition bt_wf :: "('k::linorder, 'v) btree \<Rightarrow> bool" where
  "bt_wf m \<longleftrightarrow> sorted_wrt (<) (map fst m)"

text \<open>\<open>get\<close>, \<open>insert\<close> (the old value and the new map) and \<open>remove\<close>.\<close>

definition bt_get :: "('k, 'v) btree \<Rightarrow> 'k \<Rightarrow> 'v option" where
  "bt_get m k = map_of m k"

fun bt_put :: "'k::linorder \<Rightarrow> 'v \<Rightarrow> ('k, 'v) btree \<Rightarrow> ('k, 'v) btree" where
  "bt_put k v [] = [(k, v)]"
| "bt_put k v ((a, b) # m) =
     (if k < a then (k, v) # (a, b) # m
      else if k = a then (k, v) # m
      else (a, b) # bt_put k v m)"

definition bt_insert ::
  "'k::linorder \<Rightarrow> 'v \<Rightarrow> ('k, 'v) btree \<Rightarrow> 'v option \<times> ('k, 'v) btree" where
  "bt_insert k v m = (bt_get m k, bt_put k v m)"

definition bt_remove :: "'k \<Rightarrow> ('k, 'v) btree \<Rightarrow> 'v option \<times> ('k, 'v) btree" where
  "bt_remove k m = (bt_get m k, filter (\<lambda>e. fst e \<noteq> k) m)"

lemma bt_wf_Nil [simp]: "bt_wf []"
  by (simp add: bt_wf_def)

lemma bt_wf_Cons: "bt_wf ((k, v) # m) \<longleftrightarrow> (\<forall>e \<in> set m. k < fst e) \<and> bt_wf m"
  by (simp add: bt_wf_def)

lemma bt_wf_distinct: "bt_wf m \<Longrightarrow> distinct (map fst m)"
  unfolding bt_wf_def by (rule strict_sorted_iff [THEN iffD1, THEN conjunct2])

lemma bt_get_put [simp]: "bt_get (bt_put k v m) = (bt_get m)(k \<mapsto> v)"
  unfolding bt_get_def by (induction k v m rule: bt_put.induct) auto

lemma bt_get_Nil [simp]: "bt_get [] k = None"
  by (simp add: bt_get_def)

lemma bt_get_Cons: "bt_get ((a, b) # m) k = (if k = a then Some b else bt_get m k)"
  by (simp add: bt_get_def)

lemma bt_get_filter [simp]: "bt_get (filter (\<lambda>e. fst e \<noteq> k) m) = (bt_get m)(k := None)"
  unfolding bt_get_def by (induction m) auto

lemma set_bt_put: "set (bt_put k v m) \<subseteq> insert (k, v) (set m)"
  by (induction k v m rule: bt_put.induct) auto

lemma bt_wf_put: "bt_wf m \<Longrightarrow> bt_wf (bt_put k v m)"
proof (induction k v m rule: bt_put.induct)
  case (2 k v a b m)
  then show ?case
    using set_bt_put [of k v m] by (fastforce simp: bt_wf_Cons)
qed (simp add: bt_wf_Cons)

lemma bt_wf_filter: "bt_wf m \<Longrightarrow> bt_wf (filter P m)"
  by (induction m) (auto simp: bt_wf_Cons)

lemma bt_get_in: "bt_wf m \<Longrightarrow> bt_get m k = Some v \<longleftrightarrow> (k, v) \<in> set m"
  unfolding bt_get_def by (simp add: bt_wf_distinct)

text \<open>Two maps with the same entries are the same list.\<close>

lemma bt_eqI:
  assumes "bt_wf m" and "bt_wf m'" and "bt_get m = bt_get m'"
  shows "m = m'"
proof (rule map_sorted_distinct_set_unique [where f = fst])
  show eq: "set m = set m'"
    using assms by (auto simp flip: bt_get_in)
  show "inj_on fst (set m \<union> set m')"
    using bt_wf_distinct [OF assms(1)] eq by (simp add: distinct_map)
  show "sorted (map fst m)" "distinct (map fst m)" "sorted (map fst m')" "distinct (map fst m')"
    using assms(1,2) by (simp_all add: bt_wf_def strict_sorted_iff)
qed

text \<open>An entry that sorts after every key is appended: the order of decoding what was encoded.\<close>

lemma bt_put_last: "(\<forall>e \<in> set m. fst e < k) \<Longrightarrow> bt_put k v m = m @ [(k, v)]"
  by (induction k v m rule: bt_put.induct) auto

lemma length_bt_put_fresh: "bt_get m k = None \<Longrightarrow> length (bt_put k v m) = Suc (length m)"
  by (induction k v m rule: bt_put.induct) (auto simp: bt_get_Cons split: if_splits)

lemma sum_list_bt_put_fresh:
  fixes f :: "'k::linorder \<times> 'v \<Rightarrow> nat"
  shows "bt_get m k = None \<Longrightarrow> sum_list (map f (bt_put k v m)) = f (k, v) + sum_list (map f m)"
  by (induction k v m rule: bt_put.induct) (auto simp: bt_get_Cons split: if_splits)

lemma list_all_bt_put:
  "list_all P m \<Longrightarrow> P (k, v) \<Longrightarrow> list_all P (bt_put k v m)"
  using set_bt_put [of k v m] by (auto simp: list_all_iff)

end
