(* ===== verification/Runtime_Config.thy ===== *)
theory Runtime_Config
  imports BTree_Map Config_Space
begin

text \<open>
  \<open>src/runtime_config.rs\<close>: the schema-free key/value map behind \<open>/v1alpha1/config\<close>, one
  blob in the \<open>runtime\<close> space, with the snapshot taken at boot. The map is a \<open>BTreeMap\<close>
  (\<open>BTree_Map\<close>), so encoding visits the keys in ascending order.
\<close>

section \<open>The blob\<close>

definition runtime_MAGIC :: bytes where
  "runtime_MAGIC = lit ''RCF1''"

definition HEADER_LEN :: nat where "HEADER_LEN = 6"
definition MAX_KEY_LEN :: nat where "MAX_KEY_LEN = 15"
definition MAX_VALUE_LEN :: nat where "MAX_VALUE_LEN = 63"
definition runtime_CONFIG_BUDGET :: nat where "runtime_CONFIG_BUDGET = 2048"

lemmas runtime_limits =
  HEADER_LEN_def MAX_KEY_LEN_def MAX_VALUE_LEN_def runtime_CONFIG_BUDGET_def

type_synonym config_map = "(bytes, bytes) btree"

datatype runtime_config_error = RC_Persistence | RC_Corrupt | RC_TooLarge

definition valid_key :: "bytes \<Rightarrow> bool" where
  "valid_key key \<longleftrightarrow> key \<noteq> [] \<and> length key \<le> MAX_KEY_LEN \<and> \<not> starts_with key (lit ''_'')"

text \<open>The size loop of \<open>encode\<close>: the total so far, \<open>None\<close> at the first bad entry.\<close>

fun encode_total :: "nat \<Rightarrow> config_map \<Rightarrow> nat option" where
  "encode_total t [] = Some t"
| "encode_total t ((key, value) # rest) =
     (if \<not> valid_key key \<or> length value > MAX_VALUE_LEN then None
      else do {
        t1 \<leftarrow> checked_add t 2;
        t2 \<leftarrow> checked_add t1 (length key);
        t3 \<leftarrow> checked_add t2 (length value);
        encode_total t3 rest
      })"

definition encode_entry :: "bytes \<times> bytes \<Rightarrow> bytes" where
  "encode_entry e =
     [of_nat (length (fst e)), of_nat (length (snd e))] @ fst e @ snd e"

definition runtime_encode :: "config_map \<Rightarrow> bytes option" where
  "runtime_encode m = do {
     count \<leftarrow> u16_try_from (length m);
     tot \<leftarrow> encode_total HEADER_LEN m;
     if tot > runtime_CONFIG_BUDGET then None
     else Some (runtime_MAGIC @ u16_to_le_bytes count @ concat (map encode_entry m))
   }"

text \<open>
  The decoding loop with its panics: \<open>n\<close> entries left, the offset, the map so far. The
  result is the offset after the last entry and the map.
\<close>

fun decode_loop :: "nat \<Rightarrow> bytes \<Rightarrow> nat \<Rightarrow> config_map \<Rightarrow> (nat \<times> config_map) option run" where
  "decode_loop 0 raw offset out = Return (Some (offset, out))"
| "decode_loop (Suc n) raw offset out =
     (case checked_add offset 2 of
        None \<Rightarrow> Return None
      | Some o2 \<Rightarrow>
          if o2 > length raw then Return None
          else
            run_bind (index_at raw offset) (\<lambda>k. run_bind (index_at raw (offset + 1)) (\<lambda>v.
              let key_len = unat k; value_len = unat v; start = offset + 2
              in if key_len = 0 \<or> key_len > MAX_KEY_LEN \<or> value_len > MAX_VALUE_LEN
                 then Return None
                 else case checked_add start key_len of
                   None \<Rightarrow> Return None
                 | Some key_end \<Rightarrow> (case checked_add key_end value_len of
                     None \<Rightarrow> Return None
                   | Some value_end \<Rightarrow>
                       if value_end > length raw then Return None
                       else
                         run_bind (slice_range raw start key_end) (\<lambda>kb.
                         case from_utf8 kb of
                           None \<Rightarrow> Return None
                         | Some key \<Rightarrow>
                             run_bind (slice_range raw key_end value_end) (\<lambda>vb.
                             case from_utf8 vb of
                               None \<Rightarrow> Return None
                             | Some val \<Rightarrow>
                                 if \<not> valid_key key then Return None
                                 else case bt_insert key val out of
                                   (Some _, _) \<Rightarrow> Return None
                                 | (None, out') \<Rightarrow> decode_loop n raw value_end out'))))))"

definition runtime_decode_run :: "bytes \<Rightarrow> config_map option run" where
  "runtime_decode_run raw =
     (if length raw < HEADER_LEN then Return None
      else run_bind (slice_range raw 0 4) (\<lambda>magic.
        if magic \<noteq> runtime_MAGIC then Return None
        else
          run_bind (index_at raw 4) (\<lambda>b4. run_bind (index_at raw 5) (\<lambda>b5.
          run_bind (decode_loop (unat (u16_from_le_bytes b4 b5)) raw HEADER_LEN []) (\<lambda>r.
            case r of
              None \<Rightarrow> Return None
            | Some (offset, out) \<Rightarrow> Return (if offset = length raw then Some out else None))))))"

text \<open>The decoder's result; \<open>runtime_decode_no_panic\<close> below shows that it never panics.\<close>

definition runtime_decode :: "bytes \<Rightarrow> config_map option" where
  "runtime_decode raw = (case runtime_decode_run raw of Return r \<Rightarrow> r | Panic \<Rightarrow> None)"

subsection \<open>Encoding\<close>

text \<open>An entry the map may hold, and the bytes of all entries.\<close>

definition entry_ok :: "bytes \<times> bytes \<Rightarrow> bool" where
  "entry_ok e \<longleftrightarrow> valid_key (fst e) \<and> length (snd e) \<le> MAX_VALUE_LEN"

definition entry_size :: "bytes \<times> bytes \<Rightarrow> nat" where
  "entry_size e = 2 + length (fst e) + length (snd e)"

definition entries_size :: "config_map \<Rightarrow> nat" where
  "entries_size m = sum_list (map entry_size m)"

definition entry_text :: "bytes \<times> bytes \<Rightarrow> bool" where
  "entry_text e \<longleftrightarrow> entry_ok e \<and> utf8 (fst e) \<and> utf8 (snd e)"

text \<open>The maps the blob can represent.\<close>

definition config_map_valid :: "config_map \<Rightarrow> bool" where
  "config_map_valid m \<longleftrightarrow> bt_wf m \<and> list_all entry_text m"

lemma entries_size_simps [simp]:
  "entries_size [] = 0" "entries_size (e # m) = entry_size e + entries_size m"
  "entries_size (m @ m') = entries_size m + entries_size m'"
  by (simp_all add: entries_size_def)

lemma length_encode_entry: "length (encode_entry e) = entry_size e"
  by (simp add: encode_entry_def entry_size_def)

lemma length_concat_entries: "length (concat (map encode_entry m)) = entries_size m"
  by (induction m) (simp_all add: length_encode_entry)

lemma entry_size_ge: "2 * length m \<le> entries_size m"
  by (induction m) (auto simp: entry_size_def)

lemma encode_total_Cons:
  "encode_total t (e # rest) =
     (if entry_ok e \<and> t + entry_size e < 2 ^ 32 then encode_total (t + entry_size e) rest else None)"
  by (cases e) (auto simp: entry_ok_def entry_size_def checked_add_def add.assoc)

lemma encode_total_eq:
  "encode_total t m =
     (if list_all entry_ok m \<and> (m \<noteq> [] \<longrightarrow> t + entries_size m < 2 ^ 32)
      then Some (t + entries_size m) else None)"
proof (induction m arbitrary: t)
  case Nil
  then show ?case by simp
next
  case (Cons e m)
  show ?case unfolding encode_total_Cons Cons.IH by (auto simp: add.assoc)
qed

lemma runtime_encode_eq:
  "runtime_encode m =
     (if list_all entry_ok m \<and> HEADER_LEN + entries_size m \<le> runtime_CONFIG_BUDGET
      then Some (runtime_MAGIC @ u16_to_le_bytes (of_nat (length m)) @ concat (map encode_entry m))
      else None)"
proof (cases "length m < 2 ^ 16")
  case True
  then show ?thesis
    by (auto simp: runtime_encode_def u16_try_from_def encode_total_eq runtime_limits)
next
  case False
  with entry_size_ge [of m] have "\<not> HEADER_LEN + entries_size m \<le> runtime_CONFIG_BUDGET"
    by (simp add: runtime_limits)
  with False show ?thesis by (simp add: runtime_encode_def u16_try_from_def)
qed

lemma length_runtime_encode:
  "runtime_encode m = Some bs \<Longrightarrow> length bs = HEADER_LEN + entries_size m"
  by (auto simp: runtime_encode_eq runtime_MAGIC_def HEADER_LEN_def length_concat_entries
      split: if_splits)

subsection \<open>Decoding\<close>

text \<open>One round of the loop in closed form: the entry read and the offset after it.\<close>

definition read_entry :: "bytes \<Rightarrow> nat \<Rightarrow> ((bytes \<times> bytes) \<times> nat) option" where
  "read_entry raw offset =
     (let kl = unat (raw ! offset); vl = unat (raw ! Suc offset);
          key = take kl (drop (offset + 2) raw); val = take vl (drop (offset + 2 + kl) raw)
      in if offset + 2 \<le> length raw \<and> offset + 2 + kl + vl \<le> length raw
            \<and> offset + 2 + kl + vl < 2 ^ 32
            \<and> 0 < kl \<and> kl \<le> MAX_KEY_LEN \<and> vl \<le> MAX_VALUE_LEN
            \<and> utf8 key \<and> utf8 val \<and> valid_key key
         then Some ((key, val), offset + 2 + kl + vl) else None)"

lemma decode_loop_Suc:
  "decode_loop (Suc n) raw offset out =
     (case read_entry raw offset of
        None \<Rightarrow> Return None
      | Some ((key, val), value_end) \<Rightarrow>
          if bt_get out key \<noteq> None then Return None
          else decode_loop n raw value_end (bt_put key val out))"
  by (auto simp: read_entry_def Let_def checked_add_def std_simps bt_insert_def from_utf8_def
      split: option.splits)

lemma decode_loop_no_panic: "decode_loop n raw offset out \<noteq> Panic"
  by (induction n arbitrary: offset out)
     (auto simp: decode_loop_Suc simp del: decode_loop.simps(2) split: option.splits prod.splits)

lemma read_entry_Some:
  assumes "read_entry raw offset = Some (e, value_end)"
  shows "entry_text e" and "value_end = offset + entry_size e" and "value_end \<le> length raw"
  using assms by (auto simp: read_entry_def entry_text_def entry_ok_def entry_size_def Let_def
      split: if_splits)

text \<open>What a successful run has read: valid entries, no key twice, every byte accounted for.\<close>

lemma decode_loop_Some:
  assumes "decode_loop n raw offset out = Return (Some (offset', out'))"
    and "config_map_valid out" and "offset \<le> length raw"
  shows "config_map_valid out' \<and> offset' + entries_size out = offset + entries_size out' \<and>
    length out' = length out + n \<and> offset' \<le> length raw"
  using assms
proof (induction n arbitrary: offset out)
  case 0
  then show ?case by simp
next
  case (Suc n)
  from Suc.prems(1) obtain key val value_end
    where re: "read_entry raw offset = Some ((key, val), value_end)"
      and fresh: "bt_get out key = None"
      and rec: "decode_loop n raw value_end (bt_put key val out) = Return (Some (offset', out'))"
    by (auto simp: decode_loop_Suc simp del: decode_loop.simps(2) split: option.splits if_splits)
  note e = read_entry_Some [OF re]
  have v: "config_map_valid (bt_put key val out)"
    using Suc.prems(2) e(1) by (simp add: config_map_valid_def bt_wf_put list_all_bt_put)
  have "entries_size (bt_put key val out) = entry_size (key, val) + entries_size out"
    unfolding entries_size_def by (rule sum_list_bt_put_fresh [OF fresh])
  with Suc.IH [OF rec v e(3)] e(2) length_bt_put_fresh [OF fresh] show ?case by simp
qed

lemma runtime_decode_run_eq:
  "runtime_decode_run raw =
     (if 6 \<le> length raw \<and> take 4 raw = runtime_MAGIC
      then case decode_loop (unat (u16_from_le_bytes (raw ! 4) (raw ! 5))) raw 6 [] of
          Return (Some (offset, out)) \<Rightarrow> Return (if offset = length raw then Some out else None)
        | _ \<Rightarrow> Return None
      else Return None)"
  using decode_loop_no_panic [of "unat (u16_from_le_bytes (raw ! 4) (raw ! 5))" raw 6 "[]"]
  by (cases "decode_loop (unat (u16_from_le_bytes (raw ! 4) (raw ! 5))) raw 6 []")
     (auto simp: runtime_decode_run_def HEADER_LEN_def std_simps split: option.splits)

lemma runtime_decode_no_panic: "runtime_decode_run raw = Return (runtime_decode raw)"
  by (auto simp: runtime_decode_def runtime_decode_run_eq split: run.splits option.splits)

lemma runtime_decode_Some:
  assumes "runtime_decode raw = Some m"
  shows "config_map_valid m" and "length raw = HEADER_LEN + entries_size m"
proof -
  let ?n = "unat (u16_from_le_bytes (raw ! 4) (raw ! 5))"
  from assms have run: "runtime_decode_run raw = Return (Some m)"
    by (simp add: runtime_decode_no_panic)
  then have "decode_loop ?n raw 6 [] = Return (Some (length raw, m))" and "6 \<le> length raw"
    by (auto simp: runtime_decode_run_eq split: run.splits option.splits if_splits)
  from decode_loop_Some [OF this(1) _ this(2)]
  show "config_map_valid m" and "length raw = HEADER_LEN + entries_size m"
    by (simp_all add: config_map_valid_def HEADER_LEN_def)
qed

subsection \<open>Decoding what was encoded\<close>

lemma read_encoded_entry:
  assumes "raw = pre @ encode_entry e @ post" and "entry_text e" and "length raw < 2 ^ 32"
  shows "read_entry raw (length pre) = Some (e, length pre + entry_size e)"
proof -
  obtain key val where e: "e = (key, val)" by (cases e)
  have raw: "raw = pre @ of_nat (length key) # of_nat (length val) # key @ val @ post"
    using assms(1) e by (simp add: encode_entry_def)
  have len: "0 < length key" "length key \<le> 15" "length val \<le> 63"
    using assms(2) e
    by (auto simp: entry_text_def entry_ok_def valid_key_def runtime_limits)
  have "raw ! length pre = of_nat (length key)" "raw ! Suc (length pre) = of_nat (length val)"
    by (simp_all add: raw nth_append)
  then have kl: "unat (raw ! length pre) = length key" "unat (raw ! Suc (length pre)) = length val"
    using len by simp_all
  have "length raw = length pre + 2 + length key + length val + length post"
    by (simp add: raw)
  then show ?thesis
    using len assms(2,3) unfolding read_entry_def kl Let_def e
    by (simp add: entry_text_def entry_ok_def entry_size_def runtime_limits) (simp add: raw)
qed

lemma decode_loop_encoded:
  assumes "raw = pre @ concat (map encode_entry m) @ post" and "length raw < 2 ^ 32"
    and "list_all entry_text m" and "bt_wf (out @ m)"
  shows "decode_loop (length m) raw (length pre) out =
    Return (Some (length pre + entries_size m, out @ m))"
  using assms
proof (induction m arbitrary: pre out)
  case Nil
  then show ?case by simp
next
  case (Cons e m)
  obtain key val where e: "e = (key, val)" by (cases e)
  have below: "\<forall>x \<in> set out. fst x < key"
    using Cons.prems(4) e by (simp add: bt_wf_def sorted_wrt_append)
  then have fresh: "bt_get out key = None"
    by (auto simp: bt_get_def map_of_eq_None_iff)
  have "read_entry raw (length pre) = Some (e, length pre + entry_size e)"
    using Cons.prems by (intro read_encoded_entry) simp_all
  moreover have "decode_loop (length m) raw (length (pre @ encode_entry e)) (out @ [e]) =
      Return (Some (length (pre @ encode_entry e) + entries_size m, (out @ [e]) @ m))"
    using Cons.prems by (intro Cons.IH) simp_all
  ultimately show ?case
    using fresh bt_put_last [OF below, of val] e
    by (simp add: decode_loop_Suc length_encode_entry add.assoc del: decode_loop.simps(2))
qed

lemma runtime_decode_encode:
  assumes "config_map_valid m" and "runtime_encode m = Some bs"
  shows "runtime_decode bs = Some m"
proof -
  let ?head = "runtime_MAGIC @ u16_to_le_bytes (of_nat (length m))"
  have bs: "bs = ?head @ concat (map encode_entry m)"
    and size: "HEADER_LEN + entries_size m \<le> runtime_CONFIG_BUDGET"
    using assms(2) by (auto simp: runtime_encode_eq split: if_splits)
  have len: "length bs = 6 + entries_size m"
    using length_runtime_encode [OF assms(2)] by (simp add: HEADER_LEN_def)
  have count: "length m < 65536"
    using size entry_size_ge [of m] by (simp add: runtime_limits)
  have "bs ! 4 = ucast (of_nat (length m) :: u16)" "bs ! 5 = ucast (drop_bit 8 (of_nat (length m) :: u16))"
    by (simp_all add: bs runtime_MAGIC_def nth_append u16_to_le_bytes_def)
  then have n: "unat (u16_from_le_bytes (bs ! 4) (bs ! 5)) = length m"
    using count by simp
  have "length ?head = 6" by (simp add: runtime_MAGIC_def)
  moreover have "decode_loop (length m) bs (length ?head) [] =
      Return (Some (length ?head + entries_size m, [] @ m))"
    using assms(1) len size
    by (intro decode_loop_encoded [where post = "[]"]) (simp_all add: bs config_map_valid_def runtime_limits)
  ultimately have "runtime_decode_run bs = Return (Some m)"
    using n len by (simp add: runtime_decode_run_eq) (simp add: bs runtime_MAGIC_def)
  then show ?thesis by (simp add: runtime_decode_no_panic)
qed

interpretation rcs: schema runtime_encode runtime_decode config_map_valid runtime_CONFIG_BUDGET
proof
  show "config_map_valid m \<Longrightarrow> runtime_encode m = Some bs \<Longrightarrow> runtime_decode bs = Some m" for m bs
    by (rule runtime_decode_encode)
  show "runtime_encode m = Some bs \<Longrightarrow> length bs \<le> runtime_CONFIG_BUDGET" for m bs
    using length_runtime_encode [of m bs] by (auto simp: runtime_encode_eq split: if_splits)
  show "runtime_decode bs = Some m \<Longrightarrow> config_map_valid m" for bs m
    by (rule runtime_decode_Some)
qed

end
