(* ===== verification/Runs.thy ===== *)
theory Runs
  imports Main
begin

text \<open>
  Runs of a component: its operations applied one after the other, and the contract under
  which an invariant of one step is an invariant of every run. Each component with a state
  interprets \<open>step_invariant\<close> on its own step function.
\<close>

primrec run_steps :: "('o \<Rightarrow> 's \<Rightarrow> 's) \<Rightarrow> 'o list \<Rightarrow> 's \<Rightarrow> 's" where
  "run_steps step [] s = s"
| "run_steps step (x # xs) s = run_steps step xs (step x s)"

lemma run_steps_append: "run_steps step (xs @ ys) s = run_steps step ys (run_steps step xs s)"
  by (induction xs arbitrary: s) simp_all

locale step_invariant =
  fixes step :: "'o \<Rightarrow> 's \<Rightarrow> 's"
    and inv :: "'s \<Rightarrow> bool"
    and allowed :: "'o \<Rightarrow> bool"
  assumes step_keeps: "allowed x \<Longrightarrow> inv s \<Longrightarrow> inv (step x s)"
begin

lemma run_keeps: "list_all allowed xs \<Longrightarrow> inv s \<Longrightarrow> inv (run_steps step xs s)"
  by (induction xs arbitrary: s) (simp_all add: step_keeps)

lemma run_keeps_always: "list_all allowed (xs @ ys) \<Longrightarrow> inv s \<Longrightarrow> inv (run_steps step xs s)"
  by (simp add: run_keeps)

end

text \<open>
  A one-shot operation: it fires while armed, disarms, and does nothing afterwards. However
  often it is called, it acts once.
\<close>

locale one_shot =
  fixes fire :: "'a \<Rightarrow> 's \<Rightarrow> 's"
    and armed :: "'s \<Rightarrow> bool"
  assumes disarms: "\<not> armed (fire a s)"
    and spent: "\<not> armed s \<Longrightarrow> fire a s = s"
begin

lemma run_spent: "\<not> armed s \<Longrightarrow> run_steps fire xs s = s"
  by (induction xs) (simp_all add: spent)

lemma fires_once: "run_steps fire (x # xs) s = fire x s"
  by (simp add: run_spent disarms)

end

end
