(* ===== verification/Runtime_Apply.thy ===== *)
theory Runtime_Apply
  imports Runtime_Config Runs
begin

text \<open>
  The operations of \<open>RuntimeConfig\<close> (\<open>src/runtime_config.rs\<close>): the boot snapshot, the
  views, and the merge of a push into the stored map.
\<close>

record 'w runtime_config =
  rc_space :: "'w config_space"
  active_generation :: u64
  active :: config_map

record config_push =
  push_data :: config_map

record config_view =
  view_generation :: u64
  view_active_generation :: u64
  view_active :: config_map
  view_nvs :: config_map

definition runtime_config_new ::
  "'w config_space \<Rightarrow> 'w \<Rightarrow> ('w runtime_config, runtime_config_error) result \<times> 'w" where
  "runtime_config_new space w =
     (case load space w of
        (Ok (Some snapshot), w') \<Rightarrow>
          (case runtime_decode (data snapshot) of
             None \<Rightarrow> (Err RC_Corrupt, w')
           | Some m \<Rightarrow> (Ok \<lparr>rc_space = space, active_generation = generation snapshot, active = m\<rparr>, w'))
      | (Ok None, w') \<Rightarrow> (Ok \<lparr>rc_space = space, active_generation = 0, active = []\<rparr>, w')
      | (Err _, w') \<Rightarrow> (Err RC_Persistence, w'))"

definition runtime_current ::
  "'w runtime_config \<Rightarrow> 'w \<Rightarrow> (u64 \<times> config_map, runtime_config_error) result \<times> 'w" where
  "runtime_current rc w =
     (case load (rc_space rc) w of
        (Ok (Some snapshot), w') \<Rightarrow>
          (case runtime_decode (data snapshot) of
             None \<Rightarrow> (Err RC_Corrupt, w')
           | Some m \<Rightarrow> (Ok (generation snapshot, m), w'))
      | (Ok None, w') \<Rightarrow> (Ok (0, []), w')
      | (Err _, w') \<Rightarrow> (Err RC_Persistence, w'))"

definition runtime_generation :: "'w runtime_config \<Rightarrow> 'w \<Rightarrow> u64 \<times> 'w" where
  "runtime_generation rc w =
     (case runtime_current rc w of
        (Ok (g, _), w') \<Rightarrow> (g, w')
      | (Err _, w') \<Rightarrow> (active_generation rc, w'))"

definition runtime_view ::
  "'w runtime_config \<Rightarrow> 'w \<Rightarrow> (config_view, runtime_config_error) result \<times> 'w" where
  "runtime_view rc w =
     (case runtime_current rc w of
        (Err e, w') \<Rightarrow> (Err e, w')
      | (Ok (g, nvs), w') \<Rightarrow>
          (Ok \<lparr>view_generation = g, view_active_generation = active_generation rc,
               view_active = active rc, view_nvs = nvs\<rparr>, w'))"

text \<open>The merge loop of \<open>apply\<close> over the pushed entries: whether anything changed, and the map.\<close>

fun apply_loop :: "(bytes \<times> bytes) list \<Rightarrow> bool \<Rightarrow> config_map \<Rightarrow> bool \<times> config_map" where
  "apply_loop [] changed cur = (changed, cur)"
| "apply_loop ((key, val) # rest) changed cur =
     (if \<not> valid_key key \<or> length val > MAX_VALUE_LEN then apply_loop rest changed cur
      else if val = [] then
        (case bt_remove key cur of
           (old, cur') \<Rightarrow> apply_loop rest (changed \<or> old \<noteq> None) cur')
      else if bt_get cur key \<noteq> Some val then
        apply_loop rest True (snd (bt_insert key val cur))
      else apply_loop rest changed cur)"

definition runtime_apply ::
  "'w runtime_config \<Rightarrow> config_push \<Rightarrow> 'w \<Rightarrow> (u64, runtime_config_error) result \<times> 'w" where
  "runtime_apply rc push w =
     (case runtime_current rc w of
        (Err e, w1) \<Rightarrow> (Err e, w1)
      | (Ok (g, cur), w1) \<Rightarrow>
          (case apply_loop (push_data push) False cur of (changed, new) \<Rightarrow>
             if \<not> changed then (Ok g, w1)
             else case runtime_encode new of
               None \<Rightarrow> (Err RC_TooLarge, w1)
             | Some encoded \<Rightarrow>
                 (case commit (rc_space rc) encoded w1 of
                    (Err _, w2) \<Rightarrow> (Err RC_Persistence, w2)
                  | (Ok g', w2) \<Rightarrow> (Ok g', w2))))"

section \<open>The map as a function\<close>

text \<open>
  The specification of the merge: an entry with a valid key and a value that fits sets the key,
  an empty value removes it, any other entry is ignored.
\<close>

definition accepted :: "bytes \<times> bytes \<Rightarrow> bool" where
  "accepted e \<longleftrightarrow> valid_key (fst e) \<and> length (snd e) \<le> MAX_VALUE_LEN"

definition merge_spec :: "(bytes \<Rightarrow> bytes option) \<Rightarrow> (bytes \<Rightarrow> bytes option) \<Rightarrow> bytes \<Rightarrow> bytes option" where
  "merge_spec old push k =
     (case push k of
        Some v \<Rightarrow> if accepted (k, v) then (if v = [] then None else Some v) else old k
      | None \<Rightarrow> old k)"

text \<open>The effect of one pushed entry.\<close>

definition merge_one :: "config_map \<Rightarrow> bytes \<times> bytes \<Rightarrow> config_map" where
  "merge_one cur e =
     (if \<not> accepted e then cur
      else if snd e = [] then filter (\<lambda>x. fst x \<noteq> fst e) cur
      else if bt_get cur (fst e) \<noteq> Some (snd e) then bt_put (fst e) (snd e) cur else cur)"

lemma merge_one_get: "bt_get (merge_one cur e) = merge_spec (bt_get cur) [fst e \<mapsto> snd e]"
  by (cases e) (auto simp: merge_one_def merge_spec_def fun_eq_iff)

lemma merge_one_wf: "bt_wf cur \<Longrightarrow> bt_wf (merge_one cur e)"
  by (simp add: merge_one_def bt_wf_put bt_wf_filter)

lemma merge_one_changes:
  "bt_get (merge_one cur e) \<noteq> bt_get cur \<longleftrightarrow>
   accepted e \<and> bt_get cur (fst e) \<noteq> (if snd e = [] then None else Some (snd e))"
  by (cases "bt_get cur (fst e)") (auto simp: merge_one_def fun_eq_iff)

lemma apply_loop_step:
  "apply_loop (e # rest) changed cur =
     apply_loop rest (changed \<or> bt_get (merge_one cur e) \<noteq> bt_get cur) (merge_one cur e)"
proof -
  obtain key val where e: "e = (key, val)" by (cases e)
  show ?thesis
    unfolding merge_one_changes e
    by (cases "bt_get cur key") (auto simp: merge_one_def accepted_def bt_remove_def bt_insert_def)
qed

declare apply_loop.simps(2) [simp del]

lemma apply_loop_wf: "bt_wf cur \<Longrightarrow> bt_wf (snd (apply_loop push changed cur))"
  by (induction push arbitrary: changed cur) (simp_all add: apply_loop_step merge_one_wf)

lemma merge_one_entries: "list_all P cur \<Longrightarrow> (accepted e \<Longrightarrow> P e) \<Longrightarrow> list_all P (merge_one cur e)"
  by (auto simp: merge_one_def list_all_bt_put) (auto simp: list_all_iff)

lemma apply_loop_entries:
  "list_all P cur \<Longrightarrow> (\<And>e. e \<in> set push \<Longrightarrow> accepted e \<Longrightarrow> P e) \<Longrightarrow>
   list_all P (snd (apply_loop push changed cur))"
  by (induction push arbitrary: changed cur) (simp_all add: apply_loop_step merge_one_entries)

lemma merge_spec_step:
  assumes "k \<notin> fst ` set rest"
  shows "merge_spec (merge_spec old [k \<mapsto> v]) (map_of rest) = merge_spec old ((map_of rest)(k \<mapsto> v))"
proof
  fix k'
  have "map_of rest k = None" using assms by (simp add: map_of_eq_None_iff)
  then show "merge_spec (merge_spec old [k \<mapsto> v]) (map_of rest) k' =
      merge_spec old ((map_of rest)(k \<mapsto> v)) k'"
    by (cases "k' = k") (simp_all add: merge_spec_def split: option.split)
qed

lemma bt_get_map_of: "bt_get m = map_of m"
  by (simp add: bt_get_def fun_eq_iff)

lemma apply_loop_get:
  "distinct (map fst push) \<Longrightarrow>
   bt_get (snd (apply_loop push changed cur)) = merge_spec (bt_get cur) (bt_get push)"
proof (induction push arbitrary: changed cur)
  case Nil
  then show ?case by (simp add: merge_spec_def fun_eq_iff)
next
  case (Cons e push)
  then have "bt_get (snd (apply_loop (e # push) changed cur)) =
      merge_spec (merge_spec (bt_get cur) [fst e \<mapsto> snd e]) (map_of push)"
    by (simp add: apply_loop_step merge_one_get bt_get_map_of [of push])
  also have "\<dots> = merge_spec (bt_get cur) ((map_of push)(fst e \<mapsto> snd e))"
    using Cons.prems by (intro merge_spec_step) simp
  also have "(map_of push)(fst e \<mapsto> snd e) = bt_get (e # push)"
    by (cases e) (simp only: bt_get_map_of map_of.simps fst_conv snd_conv)
  finally show ?case .
qed

text \<open>The flag: set at the start, or by an entry that is not yet merged in.\<close>

definition settled :: "(bytes \<Rightarrow> bytes option) \<Rightarrow> (bytes \<times> bytes) list \<Rightarrow> bool" where
  "settled old push \<longleftrightarrow>
     (\<forall>e \<in> set push. accepted e \<longrightarrow> old (fst e) = (if snd e = [] then None else Some (snd e)))"

lemma settled_Cons:
  "settled old (e # push) \<longleftrightarrow>
   (accepted e \<longrightarrow> old (fst e) = (if snd e = [] then None else Some (snd e))) \<and> settled old push"
  by (simp add: settled_def)

lemma settled_merge_one:
  "fst e \<notin> fst ` set push \<Longrightarrow> settled (bt_get (merge_one cur e)) push = settled (bt_get cur) push"
  unfolding settled_def merge_one_get
  by (intro ball_cong refl) (auto simp: merge_spec_def image_iff)

lemma apply_loop_changed:
  "distinct (map fst push) \<Longrightarrow>
   fst (apply_loop push changed cur) \<longleftrightarrow> changed \<or> \<not> settled (bt_get cur) push"
proof (induction push arbitrary: changed cur)
  case Nil
  then show ?case by (simp add: settled_def)
next
  case (Cons e push)
  have "fst (apply_loop (e # push) changed cur) \<longleftrightarrow>
      (changed \<or> bt_get (merge_one cur e) \<noteq> bt_get cur) \<or> \<not> settled (bt_get cur) push"
    using Cons settled_merge_one [of e push cur] by (simp add: apply_loop_step)
  then show ?case unfolding merge_one_changes settled_Cons by blast
qed

lemma settled_merge:
  assumes "bt_wf push" and "settled old push"
  shows "merge_spec old (bt_get push) = old"
proof
  fix k
  show "merge_spec old (bt_get push) k = old k"
    using assms bt_get_in [OF assms(1), of k]
    by (auto simp: merge_spec_def settled_def split: option.splits)
qed

lemma settled_after_merge: "bt_wf push \<Longrightarrow> settled (merge_spec old (bt_get push)) push"
  by (auto simp: settled_def merge_spec_def bt_get_in [symmetric])

section \<open>What apply does to the stored map\<close>

definition runtime_view_of :: "snapshot option \<Rightarrow> (u64 \<times> config_map) option" where
  "runtime_view_of s = (case s of
     None \<Rightarrow> Some (0, [])
   | Some sn \<Rightarrow> map_option (Pair (generation sn)) (runtime_decode (data sn)))"

lemma runtime_view_of_valid: "runtime_view_of s = Some (g, m) \<Longrightarrow> config_map_valid m"
  by (auto simp: runtime_view_of_def config_map_valid_def [of "[]"] dest: runtime_decode_Some(1)
      split: option.splits)

lemma runtime_current_keeps:
  "config_space_law cs stored \<Longrightarrow> rc_space rc = cs n \<Longrightarrow> runtime_current rc w = (r, w') \<Longrightarrow>
   stored m w' = stored m w"
  by (auto simp: runtime_current_def dest: law_load_stored
      split: prod.splits result.splits option.splits)

lemma runtime_current_Ok:
  "config_space_law cs stored \<Longrightarrow> rc_space rc = cs n \<Longrightarrow> runtime_current rc w = (Ok p, w') \<Longrightarrow>
   runtime_view_of (stored n w) = Some p"
  by (auto simp: runtime_current_def runtime_view_of_def dest: law_load_Ok
      split: prod.splits result.splits option.splits)

lemma runtime_current_faultless:
  "config_space_law cs stored \<Longrightarrow> rc_space rc = cs n \<Longrightarrow> load (cs n) w = (Ok s, w') \<Longrightarrow>
   runtime_current rc w = (ok_or (runtime_view_of (stored n w)) RC_Corrupt, w')"
  using law_load_Ok [of cs stored n w s w']
  by (auto simp: runtime_current_def runtime_view_of_def split: option.splits)

lemma runtime_generation_keeps:
  "config_space_law cs stored \<Longrightarrow> rc_space rc = cs n \<Longrightarrow> runtime_generation rc w = (g, w') \<Longrightarrow>
   stored m w' = stored m w"
  by (auto simp: runtime_generation_def dest: runtime_current_keeps split: prod.splits result.splits)

lemma runtime_view_keeps:
  "config_space_law cs stored \<Longrightarrow> rc_space rc = cs n \<Longrightarrow> runtime_view rc w = (r, w') \<Longrightarrow>
   stored m w' = stored m w"
  by (auto simp: runtime_view_def dest: runtime_current_keeps split: prod.splits result.splits)

text \<open>What an outcome of \<open>apply\<close> says of the stored value.\<close>

definition push_ok :: "config_push \<Rightarrow> bool" where
  "push_ok push \<longleftrightarrow> bt_wf (push_data push) \<and> list_all (\<lambda>e. utf8 (fst e) \<and> utf8 (snd e)) (push_data push)"

lemma merged_valid:
  assumes "config_map_valid m" and "push_ok push"
  shows "config_map_valid (snd (apply_loop (push_data push) changed m))"
proof -
  have "entry_text e" if "e \<in> set (push_data push)" "accepted e" for e
    using that assms(2) by (simp add: push_ok_def list_all_iff accepted_def entry_text_def entry_ok_def)
  with assms(1) show ?thesis
    by (simp add: config_map_valid_def apply_loop_wf apply_loop_entries)
qed

lemma push_merge:
  assumes "push_ok push"
  shows "bt_get (snd (apply_loop (push_data push) changed m)) =
      merge_spec (bt_get m) (bt_get (push_data push))"
    and "fst (apply_loop (push_data push) False m) \<longleftrightarrow> \<not> settled (bt_get m) (push_data push)"
  using assms apply_loop_get [of "push_data push"] apply_loop_changed [of "push_data push" False]
  by (simp_all add: push_ok_def bt_wf_distinct)

lemma runtime_apply_cases:
  assumes law: "config_space_law cs stored" and rc: "rc_space rc = cs n" and push: "push_ok push"
    and run: "runtime_apply rc push w = (r, w')"
  obtains (unread) e where "r = Err e" "e = RC_Corrupt \<or> e = RC_Persistence"
      "\<And>m. stored m w' = stored m w"
  | (unchanged) g old where "r = Ok g" "runtime_view_of (stored n w) = Some (g, old)"
      "settled (bt_get old) (push_data push)" "\<And>m. stored m w' = stored m w"
  | (too_large) g old new where "r = Err RC_TooLarge" "runtime_view_of (stored n w) = Some (g, old)"
      "config_map_valid new" "bt_get new = merge_spec (bt_get old) (bt_get (push_data push))"
      "runtime_encode new = None" "\<And>m. stored m w' = stored m w"
  | (written) g old new where "runtime_view_of (stored n w) = Some (g, old)"
      "\<not> settled (bt_get old) (push_data push)"
      "config_map_valid new" "bt_get new = merge_spec (bt_get old) (bt_get (push_data push))"
      "stored n w' = stored n w \<or> (\<exists>g'. runtime_view_of (stored n w') = Some (g', new))"
      "\<And>g'. r = Ok g' \<Longrightarrow> runtime_view_of (stored n w') = Some (g', new)"
      "\<And>m. m \<noteq> n \<Longrightarrow> stored m w' = stored m w" "is_ok r \<or> r = Err RC_Persistence"
      "\<exists>bs. runtime_encode new = Some bs"
proof -
  obtain cr w1 where cur: "runtime_current rc w = (cr, w1)" by force
  note k1 = runtime_current_keeps [OF law rc cur]
  show ?thesis
  proof (cases cr)
    case (Err e)
    with cur have "e = RC_Corrupt \<or> e = RC_Persistence"
      by (auto simp: runtime_current_def split: prod.splits result.splits option.splits)
    with unread k1 run cur Err show ?thesis by (auto simp: runtime_apply_def)
  next
    case (Ok p)
    obtain g old where p: "p = (g, old)" by (cases p)
    have view: "runtime_view_of (stored n w) = Some (g, old)"
      using runtime_current_Ok [OF law rc cur [unfolded Ok]] p by simp
    define new where "new = snd (apply_loop (push_data push) False old)"
    have v: "config_map_valid new"
      unfolding new_def using merged_valid [OF runtime_view_of_valid [OF view] push] .
    have get: "bt_get new = merge_spec (bt_get old) (bt_get (push_data push))"
      unfolding new_def by (rule push_merge(1) [OF push])
    note changed = push_merge(2) [OF push, of old]
    show ?thesis
    proof (cases "settled (bt_get old) (push_data push)")
      case True
      with unchanged [of g old] view k1 run cur Ok p changed show ?thesis
        by (auto simp: runtime_apply_def split: prod.splits)
    next
      case False
      with run cur Ok p changed have run':
        "(case runtime_encode new of None \<Rightarrow> (Err RC_TooLarge, w1)
          | Some bs \<Rightarrow> (case commit (rc_space rc) bs w1 of
              (Err _, w2) \<Rightarrow> (Err RC_Persistence, w2) | (Ok g', w2) \<Rightarrow> (Ok g', w2))) = (r, w')"
        by (auto simp: runtime_apply_def new_def split: prod.splits)
      show ?thesis
      proof (cases "runtime_encode new")
        case None
        with run' k1 too_large [OF _ view v get] show ?thesis by simp
      next
        case (Some bs)
        obtain k w2 where cm: "commit (cs n) bs w1 = (k, w2)" by force
        have "w' = w2" and res: "\<And>g'. r = Ok g' \<Longrightarrow> k = Ok g'" "is_ok r \<or> r = Err RC_Persistence"
          using run' Some rc cm by (auto split: result.splits)
        moreover have "runtime_view_of (Some \<lparr>data = bs, generation = x\<rparr>) = Some (x, new)" for x
          using rcs.dec_enc [OF v Some] by (simp add: runtime_view_of_def)
        ultimately show ?thesis
          using law_commit_atomic [OF law cm] law_commit_Ok [OF law] cm law_commit_other [OF law cm] k1
          by (intro written [OF view False v get]) (auto simp: Some)
      qed
    qed
  qed
qed

section \<open>Properties\<close>


definition sample_map :: config_map where
  "sample_map = [(lit ''mqtt'', lit ''host''), (lit ''rate'', lit ''5'')]"

lemma sample_map_ok: "bt_wf sample_map" "list_all (\<lambda>e. utf8 (fst e) \<and> utf8 (snd e)) sample_map"
proof -
  show "bt_wf sample_map" unfolding sample_map_def by code_simp
  show "list_all (\<lambda>e. utf8 (fst e) \<and> utf8 (snd e)) sample_map"
    by (auto simp: sample_map_def lit_def intro!: ascii_utf8)
qed


text \<open>
  C34: decoding the runtime blob never panics, whatever bytes are stored. What it accepts is a
  map in key order with valid keys and values, accounts for every byte of the blob, and can be
  written back in the same number of bytes whenever those fit the space.
\<close>

theorem runtime_decode_total:
  "\<exists>r. runtime_decode_run raw = Return r \<and>
     (\<forall>m. r = Some m \<longrightarrow> config_map_valid m \<and>
        (if length raw \<le> 2048
         then \<exists>bs. runtime_encode m = Some bs \<and> length bs = length raw \<and> runtime_decode bs = Some m
         else runtime_encode m = None))"
proof (intro exI conjI allI impI)
  show "runtime_decode_run raw = Return (runtime_decode raw)" by (rule runtime_decode_no_panic)
  fix m assume m: "runtime_decode raw = Some m"
  note v = runtime_decode_Some [OF m]
  then show "config_map_valid m" by simp
  from v(1) have ok: "list_all entry_ok m"
    by (auto simp: config_map_valid_def list_all_iff entry_text_def)
  show "if length raw \<le> 2048
        then \<exists>bs. runtime_encode m = Some bs \<and> length bs = length raw \<and> runtime_decode bs = Some m
        else runtime_encode m = None"
  proof (cases "length raw \<le> 2048")
    case True
    with ok v(2) obtain bs where bs: "runtime_encode m = Some bs"
      by (simp add: runtime_encode_eq runtime_limits)
    with True length_runtime_encode [OF bs] v runtime_decode_encode [OF v(1) bs] show ?thesis by simp
  next
    case False
    with v(2) show ?thesis by (simp add: runtime_encode_eq runtime_limits)
  qed
qed

lemma sample_map_encodes:
  obtains bs where "runtime_encode sample_map = Some bs" "runtime_decode bs = Some sample_map"
    "length bs = 23"
proof -
  have "list_all entry_ok sample_map" "entries_size sample_map = 17"
    by (simp_all add: sample_map_def entry_ok_def valid_key_def runtime_limits entry_size_def
        starts_with_def lit_Cons)
  then obtain bs where "runtime_encode sample_map = Some bs"
    by (simp add: runtime_encode_eq runtime_limits)
  moreover have "config_map_valid sample_map"
    using sample_map_ok \<open>list_all entry_ok sample_map\<close>
    by (simp add: config_map_valid_def list_all_iff entry_text_def)
  ultimately show ?thesis
    using that length_runtime_encode [of sample_map bs] runtime_decode_encode [of sample_map bs]
    by (simp add: \<open>entries_size sample_map = 17\<close> HEADER_LEN_def)
qed

theorem runtime_decode_total_witness:
  "\<exists>raw. runtime_decode_run raw = Return (Some sample_map) \<and> config_map_valid sample_map \<and> length raw = 23"
proof -
  obtain bs where "runtime_decode bs = Some sample_map" "length bs = 23"
    by (rule sample_map_encodes)
  then show ?thesis
    using runtime_decode_total [of bs] by (auto simp: runtime_decode_no_panic)
qed

subsection \<open>Pushes\<close>

lemma runtime_apply_merges:
  assumes law: "config_space_law cs stored" and rc: "rc_space rc = cs Runtime"
    and push: "push_ok push" and run: "runtime_apply rc push w = (Ok g, w')"
  shows "\<exists>g0 old new. runtime_view_of (stored Runtime w) = Some (g0, old) \<and>
      runtime_view_of (stored Runtime w') = Some (g, new) \<and>
      (\<forall>k. bt_get new k = merge_spec (bt_get old) (bt_get (push_data push)) k) \<and>
      (new = old \<longrightarrow> g = g0 \<and> stored Runtime w' = stored Runtime w)"
  using law rc push run
proof (cases rule: runtime_apply_cases)
  case (unchanged g' old)
  moreover have "merge_spec (bt_get old) (bt_get (push_data push)) = bt_get old"
    using push unchanged(3) by (intro settled_merge) (simp_all add: push_ok_def)
  ultimately show ?thesis by auto
next
  case (written g' old new)
  have "settled (bt_get new) (push_data push)"
    unfolding written(4) using push by (intro settled_after_merge) (simp add: push_ok_def)
  with written(2) have "new \<noteq> old" by auto
  with written show ?thesis by auto
qed simp_all

text \<open>
  C31: a push that reports a generation has stored exactly the merge of the push into the old
  map: accepted entries set their key, accepted empty values remove it, entries with an invalid
  key or an over-long value are ignored, every other key keeps its value. The generation
  returned is the one of the stored value; when the merge changes nothing, nothing is written
  and the generation is the old one.
\<close>

theorem apply_refines_merge:
  assumes "config_space_law cs stored" and "rc_space rc = cs Runtime"
    and "push_ok push" and "runtime_apply rc push w = (Ok g, w')"
  shows "\<exists>g0 old new. runtime_view_of (stored Runtime w) = Some (g0, old) \<and>
      runtime_view_of (stored Runtime w') = Some (g, new) \<and>
      (\<forall>k. bt_get new k = merge_spec (bt_get old) (bt_get (push_data push)) k) \<and>
      (new = old \<longrightarrow> g = g0 \<and> stored Runtime w' = stored Runtime w)"
  by (rule runtime_apply_merges [OF assms])

definition sample_push :: config_push where
  "sample_push = \<lparr>push_data = sample_map\<rparr>"

definition boot_rc :: "ram runtime_config" where
  "boot_rc = \<lparr>rc_space = ram_space Runtime, active_generation = 0, active = []\<rparr>"

lemma bt_get_empty: "bt_get [] = (\<lambda>_. None)"
  by (rule ext) simp

lemma sample_push_ok: "push_ok sample_push"
  using sample_map_ok by (simp add: push_ok_def sample_push_def)

lemma sample_map_pushed: "apply_loop sample_map False [] = (True, sample_map)"
  unfolding sample_map_def
  by (simp add: apply_loop.simps(2) lit_Cons valid_key_def starts_with_def runtime_limits
      bt_insert_def bt_get_Cons)

lemma sample_apply_on:
  assumes "faults w = []" and "cells w Runtime = None"
  obtains w' where "runtime_apply boot_rc sample_push w = (Ok 1, w')"
    "runtime_view_of (cells w' Runtime) = Some (1, sample_map)" "faults w' = []"
proof -
  obtain bs where bs: "runtime_encode sample_map = Some bs" "runtime_decode bs = Some sample_map"
    by (rule sample_map_encodes)
  then have "runtime_apply boot_rc sample_push w = (Ok 1, ram_put Runtime bs w)"
    using assms
    by (simp add: runtime_apply_def runtime_current_def boot_rc_def sample_push_def ram_load
        ram_commit sample_map_pushed)
  with bs assms that show ?thesis by (simp add: runtime_view_of_def)
qed

lemma sample_apply:
  obtains w' where "runtime_apply boot_rc sample_push ram_empty = (Ok 1, w')"
    "runtime_view_of (cells w' Runtime) = Some (1, sample_map)" "faults w' = []"
  by (rule sample_apply_on [of ram_empty]) simp_all

lemma boot_rc_space [simp]: "rc_space boot_rc = ram_space Runtime"
  by (simp add: boot_rc_def)

theorem apply_refines_merge_witness:
  "\<exists>w' new. runtime_apply boot_rc sample_push ram_empty = (Ok 1, w') \<and>
     runtime_view_of (cells w' Runtime) = Some (1, new) \<and>
     (\<forall>k. bt_get new k = merge_spec (\<lambda>_. None) (bt_get sample_map) k)"
proof -
  obtain w' where run: "runtime_apply boot_rc sample_push ram_empty = (Ok 1, w')"
    by (rule sample_apply)
  have "runtime_view_of (cells ram_empty Runtime) = Some (0, [])"
    by (simp add: runtime_view_of_def)
  with apply_refines_merge [OF ram_law boot_rc_space sample_push_ok run] run show ?thesis
    by (auto simp: sample_push_def bt_get_empty)
qed

text \<open>
  C32: a push is atomic. Whatever it returns and wherever a storage operation fails, the stored
  map is the old one or the complete merge, never a part of it; a push refused as corrupt or too
  large stores nothing; no push touches another space.
\<close>

theorem apply_atomic:
  assumes law: "config_space_law cs stored" and rc: "rc_space rc = cs Runtime"
    and push: "push_ok push" and run: "runtime_apply rc push w = (r, w')"
  shows "(\<forall>m. m \<noteq> Runtime \<longrightarrow> stored m w' = stored m w) \<and>
    (stored Runtime w' = stored Runtime w \<or>
      (\<exists>g0 old g new. runtime_view_of (stored Runtime w) = Some (g0, old) \<and>
         runtime_view_of (stored Runtime w') = Some (g, new) \<and>
         bt_get new = merge_spec (bt_get old) (bt_get (push_data push)))) \<and>
    (r = Err RC_TooLarge \<or> r = Err RC_Corrupt \<longrightarrow> stored Runtime w' = stored Runtime w)"
  using law rc push run
proof (cases rule: runtime_apply_cases)
  case (written g old new)
  have "r \<noteq> Err RC_TooLarge \<and> r \<noteq> Err RC_Corrupt" using written(8) by auto
  moreover have "stored Runtime w' = stored Runtime w \<or>
      (\<exists>g0 old g new. runtime_view_of (stored Runtime w) = Some (g0, old) \<and>
         runtime_view_of (stored Runtime w') = Some (g, new) \<and>
         bt_get new = merge_spec (bt_get old) (bt_get (push_data push)))"
    using written(5)
  proof (elim disjE exE)
    fix g' assume "runtime_view_of (stored Runtime w') = Some (g', new)"
    with written(1,4) show ?thesis by blast
  qed simp
  ultimately show ?thesis using written(7) by simp
qed simp_all

theorem apply_atomic_witness:
  "\<exists>r w'. runtime_apply boot_rc sample_push (ram_empty\<lparr>faults := [False, True]\<rparr>) = (r, w') \<and>
     r = Err RC_Persistence \<and> cells w' Ota = None"
proof -
  define w where "w = ram_empty\<lparr>faults := [False, True]\<rparr>"
  obtain bs where bs: "runtime_encode sample_map = Some bs"
    by (rule sample_map_encodes)
  have w: "faults w = [False, True]" "cells w m = None" for m
    by (simp_all add: w_def ram_empty_def)
  with bs have "runtime_apply boot_rc sample_push w = (Err RC_Persistence, w\<lparr>faults := []\<rparr>)"
    by (simp add: runtime_apply_def runtime_current_def boot_rc_def sample_push_def
        sample_map_pushed ram_load_next [of w False "[True]"]
        ram_commit_fault [of "w\<lparr>faults := [True]\<rparr>" "[]"])
  with apply_atomic [OF ram_law boot_rc_space sample_push_ok this] w show ?thesis
    unfolding w_def [symmetric] by simp
qed

text \<open>
  Pushing the same document again is a no-op. After a push that reported a generation, the
  next push of it succeeds with the same generation and stores nothing, as long as the space
  can be read.
\<close>

theorem apply_idempotent:
  assumes law: "config_space_law cs stored" and rc: "rc_space rc = cs Runtime"
    and push: "push_ok push" and run: "runtime_apply rc push w = (Ok g, w')"
    and ld: "load (cs Runtime) w' = (Ok s, w'')"
  shows "runtime_apply rc push w' = (Ok g, w'') \<and> stored Runtime w'' = stored Runtime w'"
proof -
  obtain new where view: "runtime_view_of (stored Runtime w') = Some (g, new)"
    and settled: "settled (bt_get new) (push_data push)"
    using law rc push run
  proof (cases rule: runtime_apply_cases)
    case (unchanged g' old)
    with that [of old] show ?thesis by simp
  next
    case (written g' old new)
    have "settled (bt_get new) (push_data push)"
      unfolding written(4) using push by (intro settled_after_merge) (simp add: push_ok_def)
    with written that show ?thesis by auto
  qed simp_all
  have "runtime_current rc w' = (Ok (g, new), w'')"
    using runtime_current_faultless [OF law rc ld] view by simp
  moreover have "\<not> fst (apply_loop (push_data push) False new)"
    using push_merge(2) [OF push] settled by simp
  ultimately show ?thesis
    using law_load_stored [OF law ld]
    by (cases "apply_loop (push_data push) False new") (simp add: runtime_apply_def)
qed

theorem apply_idempotent_witness:
  "\<exists>w'. runtime_apply boot_rc sample_push ram_empty = (Ok 1, w') \<and>
     runtime_apply boot_rc sample_push w' = (Ok 1, w')"
proof -
  obtain w' where run: "runtime_apply boot_rc sample_push ram_empty = (Ok 1, w')"
    and f: "faults w' = []"
    by (rule sample_apply)
  from apply_idempotent [OF ram_law boot_rc_space sample_push_ok run ram_load [OF f]] run
  show ?thesis by blast
qed

subsection \<open>Runs\<close>

text \<open>
  What every sequence of pushes keeps of the stored map: valid keys, and values that are never
  empty (an empty value is how a push removes a key, so none is ever stored).
\<close>

definition stored_map_inv :: "snapshot option \<Rightarrow> bool" where
  "stored_map_inv s \<longleftrightarrow>
     (\<exists>g m. runtime_view_of s = Some (g, m) \<and> bt_wf m \<and>
        (\<forall>(k, v) \<in> set m. valid_key k \<and> v \<noteq> [] \<and> length v \<le> MAX_VALUE_LEN))"

definition apply_step :: "'w runtime_config \<Rightarrow> config_push \<Rightarrow> 'w \<Rightarrow> 'w" where
  "apply_step rc push w = snd (runtime_apply rc push w)"

lemma merge_keeps_inv:
  assumes "config_map_valid new" and "\<forall>(k, v) \<in> set old. v \<noteq> []" and "bt_wf old"
    and "bt_get new = merge_spec (bt_get old) push"
  shows "\<forall>(k, v) \<in> set new. valid_key k \<and> v \<noteq> [] \<and> length v \<le> MAX_VALUE_LEN"
proof (intro ballI, clarify)
  fix k v assume kv: "(k, v) \<in> set new"
  have wf: "bt_wf new" and ok: "entry_text (k, v)"
    using assms(1) kv by (auto simp: config_map_valid_def list_all_iff)
  have "bt_get new k = Some v" using kv wf by (simp add: bt_get_in)
  then have "v \<noteq> []"
    using assms(2-4) by (auto simp: merge_spec_def bt_get_in split: option.splits if_splits)
  with ok show "valid_key k \<and> v \<noteq> [] \<and> length v \<le> MAX_VALUE_LEN"
    by (simp add: entry_text_def entry_ok_def)
qed

lemma apply_step_inv:
  assumes law: "config_space_law cs stored" and rc: "rc_space rc = cs n" and push: "push_ok push"
    and inv: "stored_map_inv (stored n w)"
  shows "stored_map_inv (stored n (apply_step rc push w))"
proof -
  obtain r w' where run: "runtime_apply rc push w = (r, w')" by force
  have "stored_map_inv (stored n w')"
    using law rc push run
  proof (cases rule: runtime_apply_cases)
    case (written g old new)
    from inv written(1) have "bt_wf old" "\<forall>(k, v) \<in> set old. v \<noteq> []"
      by (auto simp: stored_map_inv_def)
    note keep = merge_keeps_inv [OF written(3) this(2,1) written(4)]
    have "bt_wf new" using written(3) by (simp add: config_map_valid_def)
    with keep written(5) inv show ?thesis by (auto simp: stored_map_inv_def)
  qed (use inv in simp_all)
  with run show ?thesis by (simp add: apply_step_def)
qed

interpretation pushes: step_invariant "apply_step rc"
  "\<lambda>w. config_space_law cs stored \<and> rc_space rc = cs n \<and> stored_map_inv (stored n w)" push_ok
  for rc cs stored n
  by unfold_locales (blast intro: apply_step_inv)

text \<open>
  On a device whose runtime space starts empty, after any sequence of pushes, successful or
  failed at any storage operation, the stored blob decodes to a map in key order with valid keys
  and no empty value. So the configuration read at the next boot is never corrupt.
\<close>

theorem pushes_never_corrupt:
  assumes "config_space_law cs stored" and "rc_space rc = cs Runtime"
    and "list_all push_ok pushes" and "stored Runtime w = None"
  shows "stored_map_inv (stored Runtime (run_steps (apply_step rc) pushes w))"
proof -
  have "stored_map_inv (stored Runtime w)"
    by (simp add: assms(4) stored_map_inv_def runtime_view_of_def)
  with assms pushes.run_keeps [of pushes cs stored rc Runtime w] show ?thesis by blast
qed

theorem pushes_never_corrupt_witness:
  "stored_map_inv (cells (run_steps (apply_step boot_rc) [sample_push, sample_push]
     (ram_empty\<lparr>faults := [False, True, False]\<rparr>)) Runtime)"
  by (rule pushes_never_corrupt [OF ram_law])
     (simp_all add: sample_push_ok ram_empty_def)

lemma runtime_config_new_Ok:
  "config_space_law cs stored \<Longrightarrow> runtime_config_new (cs n) w = (Ok rc, w1) \<Longrightarrow>
   rc_space rc = cs n \<and> runtime_view_of (stored n w) = Some (active_generation rc, active rc) \<and>
   stored m w1 = stored m w"
  by (auto simp: runtime_config_new_def runtime_view_of_def dest: law_load_Ok law_load_stored
      split: prod.splits result.splits option.splits)

text \<open>
  The boot snapshot. What the workload sees as active is the map stored when the agent
  booted, with its generation, whatever is pushed afterwards; the other half of the view is the
  map stored now. Both halves change only through a commit, and the active one only at a reboot.
\<close>

theorem view_active_is_boot_map:
  assumes law: "config_space_law cs stored"
    and new: "runtime_config_new (cs Runtime) w = (Ok rc, w1)"
    and view: "runtime_view rc (run_steps (apply_step rc) pushes w1) = (Ok v, w2)"
  shows "runtime_view_of (stored Runtime w) = Some (view_active_generation v, view_active v) \<and>
    runtime_view_of (stored Runtime w2) = Some (view_generation v, view_nvs v)"
proof -
  note boot = runtime_config_new_Ok [OF law new, THEN conjunct1]
    runtime_config_new_Ok [OF law new, THEN conjunct2, THEN conjunct1]
  obtain g nvs where cur: "runtime_current rc (run_steps (apply_step rc) pushes w1) = (Ok (g, nvs), w2)"
    and v: "v = \<lparr>view_generation = g, view_active_generation = active_generation rc,
      view_active = active rc, view_nvs = nvs\<rparr>"
    using view by (auto simp: runtime_view_def split: prod.splits result.splits)
  show ?thesis
    using boot(2) runtime_current_Ok [OF law boot(1) cur] runtime_current_keeps [OF law boot(1) cur]
    by (simp add: v)
qed

theorem view_active_is_boot_map_witness:
  "\<exists>w' v. runtime_view boot_rc (run_steps (apply_step boot_rc) [sample_push] ram_empty) = (Ok v, w') \<and>
     view_active v = [] \<and> view_nvs v = sample_map"
proof -
  have new: "runtime_config_new (ram_space Runtime) ram_empty = (Ok boot_rc, ram_empty)"
    by (simp add: runtime_config_new_def ram_load boot_rc_def)
  obtain w' where w': "runtime_apply boot_rc sample_push ram_empty = (Ok 1, w')"
    "runtime_view_of (cells w' Runtime) = Some (1, sample_map)" "faults w' = []"
    by (rule sample_apply)
  obtain v where v: "runtime_view boot_rc w' = (Ok v, w')"
    using runtime_current_faultless [OF ram_law boot_rc_space ram_load [OF w'(3)]] w'(2)
    by (auto simp: runtime_view_def)
  then have view: "runtime_view boot_rc (run_steps (apply_step boot_rc) [sample_push] ram_empty) = (Ok v, w')"
    by (simp add: apply_step_def w')
  from view_active_is_boot_map [OF ram_law new view] view w'(2) show ?thesis
    by (auto simp: runtime_view_of_def)
qed

end
