(* ===== verification/Agent_Auth.thy ===== *)
theory Agent_Auth
  imports Agent_Core Runs
begin

text \<open>
  What the identity operations of \<open>Agent_Core\<close> promise: the round trip of the stored
  configuration, token generation and rotation, and that authorization is decided by the
  stored token alone and is never switched off.
\<close>

section \<open>The configuration as a value\<close>

text \<open>
  The abstraction every operation refines: what the stored snapshot stands for, \<open>None\<close>
  when it is corrupt.
\<close>

definition agent_view :: "snapshot option \<Rightarrow> agent_config option" where
  "agent_view s = (case s of
     None \<Rightarrow> Some agent_config_default
   | Some sn \<Rightarrow> agent_config_decode (data sn))"

definition provisioned_view :: "snapshot option \<Rightarrow> bool" where
  "provisioned_view s = (case agent_view s of Some c \<Rightarrow> cfg_token c \<noteq> [] | None \<Rightarrow> False)"

lemma agent_view_None [simp]: "agent_view None = Some agent_config_default"
  by (simp add: agent_view_def)

lemma agent_view_Some: "agent_view (Some sn) = agent_config_decode (data sn)"
  by (simp add: agent_view_def)

lemma agent_config_default_valid: "agent_config_valid agent_config_default"
  by (simp add: agent_config_valid_def agent_config_default_def)

lemma agent_view_valid: "agent_view s = Some c \<Longrightarrow> agent_config_valid c"
  by (auto simp: agent_view_def agent_config_default_valid agent_config_decode_valid
      split: option.splits)

lemma agent_view_committed:
  "agent_config_valid c \<Longrightarrow> agent_config_encode c = Some bs \<Longrightarrow>
   agent_view (Some \<lparr>data = bs, generation = g\<rparr>) = Some c"
  by (simp add: agent_view_Some agc.dec_enc)

section \<open>What the readers return\<close>

lemma load_config_keeps:
  "config_space_law cs stored \<Longrightarrow> load_config (cs n) w = (r, w') \<Longrightarrow> stored m w' = stored m w"
  by (auto simp: load_config_def dest: law_load_stored split: prod.splits result.splits option.splits)

lemma load_config_Ok:
  "config_space_law cs stored \<Longrightarrow> load_config (cs n) w = (Ok c, w') \<Longrightarrow>
   agent_view (stored n w) = Some c"
  by (auto simp: load_config_def agent_view_def dest: law_load_Ok
      split: prod.splits result.splits option.splits)

lemma load_config_faultless:
  "config_space_law cs stored \<Longrightarrow> load (cs n) w = (Ok s, w') \<Longrightarrow>
   load_config (cs n) w = (ok_or (agent_view (stored n w)) InvalidValue, w')"
  using law_load_Ok [of cs stored n w s w']
  by (auto simp: load_config_def agent_view_def split: option.splits)

lemma token_keeps:
  "config_space_law cs stored \<Longrightarrow> token (cs n) w = (t, w') \<Longrightarrow> stored m w' = stored m w"
  by (auto simp: token_def dest: load_config_keeps split: prod.splits result.splits)

lemma token_stored:
  "config_space_law cs stored \<Longrightarrow> token (cs n) w = (t, w') \<Longrightarrow> t \<noteq> [] \<Longrightarrow>
   \<exists>c. agent_view (stored n w) = Some c \<and> cfg_token c = t"
  by (auto simp: token_def dest: load_config_Ok split: prod.splits result.splits)

lemma ctrl_url_keeps:
  "config_space_law cs stored \<Longrightarrow> ctrl_url (cs n) w = (t, w') \<Longrightarrow> stored m w' = stored m w"
  by (auto simp: ctrl_url_def dest: load_config_keeps split: prod.splits result.splits)

lemma ctrl_url_stored:
  "config_space_law cs stored \<Longrightarrow> ctrl_url (cs n) w = (t, w') \<Longrightarrow> t \<noteq> [] \<Longrightarrow>
   \<exists>c. agent_view (stored n w) = Some c \<and> cfg_ctrl_url c = t"
  by (auto simp: ctrl_url_def dest: load_config_Ok split: prod.splits result.splits)

lemma node_id_keeps:
  "config_space_law cs stored \<Longrightarrow> node_id (cs n) hw w = (t, w') \<Longrightarrow> stored m w' = stored m w"
  by (auto simp: node_id_def dest: load_config_keeps split: prod.splits result.splits if_splits)

lemma is_provisioned_keeps:
  "config_space_law cs stored \<Longrightarrow> is_provisioned (cs n) w = (b, w') \<Longrightarrow> stored m w' = stored m w"
  by (auto simp: is_provisioned_def dest: load_config_keeps split: prod.splits result.splits)

lemma is_provisioned_True:
  "config_space_law cs stored \<Longrightarrow> is_provisioned (cs n) w = (True, w') \<Longrightarrow>
   provisioned_view (stored n w)"
  by (auto simp: is_provisioned_def provisioned_view_def dest: load_config_Ok
      split: prod.splits result.splits)

lemma is_authorized_keeps:
  "config_space_law cs stored \<Longrightarrow> is_authorized ct (cs n) p w = (b, w') \<Longrightarrow>
   stored m w' = stored m w"
  by (auto simp: is_authorized_def dest: token_keeps split: prod.splits if_splits)

lemma is_authorized_True:
  assumes "config_space_law cs stored" and "ct_eq_law ct" and "is_authorized ct (cs n) p w = (True, w')"
  shows "\<exists>c. agent_view (stored n w) = Some c \<and> cfg_token c = p \<and> p \<noteq> []"
  using assms
  by (auto simp: is_authorized_def ct_eq_law_def dest!: token_stored [OF assms(1)]
      split: prod.splits if_splits)

section \<open>Writers\<close>

text \<open>
  The common tail of every writer: encode, commit. It either stores exactly \<open>c\<close>, or leaves
  the old value.
\<close>

lemma commit_config:
  assumes "config_space_law cs stored" and "agent_config_valid c"
    and "agent_config_encode c = Some bs" and "commit (cs n) bs w = (r, w')"
  shows "is_ok r \<Longrightarrow> agent_view (stored n w') = Some c"
    and "agent_view (stored n w') = Some c \<or> stored n w' = stored n w"
    and "m \<noteq> n \<Longrightarrow> stored m w' = stored m w"
proof -
  show "agent_view (stored n w') = Some c" if "is_ok r"
    using that law_commit_Ok [OF assms(1)] assms(4) agent_view_committed [OF assms(2,3)]
    by (metis is_ok_iff)
  show "agent_view (stored n w') = Some c \<or> stored n w' = stored n w"
    using law_commit_atomic [OF assms(1,4)] agent_view_committed [OF assms(2,3)] by metis
  show "stored m w' = stored m w" if "m \<noteq> n"
    using that law_commit_other [OF assms(1,4)] by simp
qed

definition rotated :: "agent_config \<Rightarrow> bytes \<Rightarrow> agent_config" where
  "rotated c t = c\<lparr>cfg_token := t\<rparr>"

lemma rotated_valid:
  "agent_config_valid c \<Longrightarrow> utf8 t \<Longrightarrow> length t \<le> 64 \<Longrightarrow> agent_config_valid (rotated c t)"
  by (simp add: agent_config_valid_def rotated_def agent_limits)

text \<open>
  Rotation: success means the stored configuration is the old one with the new token; any
  other outcome leaves the old configuration or the rotated one, and every other space alone.
\<close>

lemma rotate_token_cases:
  assumes law: "config_space_law cs stored" and "utf8 t"
    and run: "rotate_token (cs n) t w = (r, w')"
  obtains (refused) "r = Err InvalidLength" "w' = w" "length t < 8 \<or> 64 < length t"
  | (unread) "r = Err WriteFailed" "\<And>m. stored m w' = stored m w"
  | (written) c where "8 \<le> length t" "length t \<le> 64"
      "agent_view (stored n w) = Some c"
      "agent_view (stored n w') = Some (rotated c t) \<or> stored n w' = stored n w"
      "r = Ok () \<Longrightarrow> agent_view (stored n w') = Some (rotated c t)"
      "\<And>m. m \<noteq> n \<Longrightarrow> stored m w' = stored m w" "r = Ok () \<or> r = Err WriteFailed"
proof (cases "8 \<le> length t \<and> length t \<le> 64")
  case False
  with run have "r = Err InvalidLength" "w' = w" by (auto simp: rotate_token_def split: if_splits)
  with False refused show ?thesis by linarith
next
  case True
  obtain lr w1 where lc: "load_config (cs n) w = (lr, w1)" by force
  note k1 = load_config_keeps [OF law lc]
  show ?thesis
  proof (cases lr)
    case (Err e)
    with True run lc have "r = Err WriteFailed" "w' = w1" by (auto simp: rotate_token_def)
    with unread k1 show ?thesis by simp
  next
    case (Ok c)
    note view = load_config_Ok [OF law lc [unfolded Ok]]
    have v: "agent_config_valid (rotated c t)"
      using agent_view_valid [OF view] \<open>utf8 t\<close> True by (simp add: rotated_valid)
    obtain bs where enc: "agent_config_encode (rotated c t) = Some bs"
      using agent_config_encode_Some [OF v] by simp
    obtain cr w2 where cm: "commit (cs n) bs w1 = (cr, w2)" by force
    note cmt = commit_config [OF law v enc cm]
    show ?thesis
    proof (cases cr)
      case (Err e)
      with True run lc Ok enc cm have "r = Err WriteFailed" "w' = w2"
        by (auto simp: rotate_token_def rotated_def)
      with True view cmt k1 written [of c] show ?thesis by simp
    next
      case ok: (Ok g)
      obtain t' w3 where tk: "token (cs n) w2 = (t', w3)" by force
      from True run lc Ok enc cm ok tk
      have "w' = w3" and "r = Ok () \<or> r = Err WriteFailed"
        by (auto simp: rotate_token_def rotated_def split: if_splits)
      with True view cmt ok k1 token_keeps [OF law tk] written [of c] show ?thesis by simp
    qed
  qed
qed

lemma rotate_token_other:
  "config_space_law cs stored \<Longrightarrow> utf8 t \<Longrightarrow> rotate_token (cs n) t w = (r, w') \<Longrightarrow> m \<noteq> n \<Longrightarrow>
   stored m w' = stored m w"
  by (erule (2) rotate_token_cases) auto

lemma rotate_token_provisioned:
  assumes "config_space_law cs stored" and "utf8 t" and "rotate_token (cs n) t w = (r, w')"
    and "provisioned_view (stored n w)"
  shows "provisioned_view (stored n w')"
  using assms(1,2,3)
proof (cases rule: rotate_token_cases)
  case (written c)
  then have "t \<noteq> []" by auto
  with written assms(4) show ?thesis by (auto simp: provisioned_view_def rotated_def)
qed (use assms(4) in simp_all)

subsection \<open>Generated tokens\<close>

definition entropy_law ::
  "('w \<Rightarrow> (nat \<Rightarrow> u8) \<times> 'w) \<Rightarrow> (space_name \<Rightarrow> 'w \<Rightarrow> snapshot option) \<Rightarrow> bool" where
  "entropy_law fill stored \<longleftrightarrow> (\<forall>w m. stored m (snd (fill w)) = stored m w)"

lemma hex_string_properties:
  "length (concat (map (\<lambda>i. fmt_02x (f i)) xs)) = 2 * length xs"
  "list_all is_lower_hex (concat (map (\<lambda>i. fmt_02x (f i)) xs))"
  by (induction xs) (simp_all add: fmt_02x_lower, simp_all add: fmt_02x_def)

lemma hex_string_inj:
  "concat (map (\<lambda>i. fmt_02x (f i)) xs) = concat (map (\<lambda>i. fmt_02x (g i)) xs) \<Longrightarrow>
   \<forall>i \<in> set xs. f i = g i"
proof (induction xs)
  case Nil
  then show ?case by simp
next
  case (Cons i xs)
  have "length (fmt_02x (f i)) = length (fmt_02x (g i))"
    by (simp add: fmt_02x_def)
  with Cons.prems have "fmt_02x (f i) = fmt_02x (g i)"
    and "concat (map (\<lambda>i. fmt_02x (f i)) xs) = concat (map (\<lambda>i. fmt_02x (g i)) xs)"
    by simp_all
  with Cons.IH show ?case by (simp add: fmt_02x_inj)
qed

lemma generate_token_props:
  "generate_token fill w = (t, w') \<Longrightarrow> length t = 32 \<and> list_all is_lower_hex t \<and> utf8 t"
  using hex_string_properties [of "fst (fill w)" "[0..<16]"]
  by (auto simp: generate_token_def is_lower_hex_ascii ascii_utf8 split: prod.splits)

subsection \<open>Saving the identity\<close>

text \<open>
  The token a save stores: the presented one, else the existing one, else a fresh one.
\<close>

definition saved_config :: "agent_config \<Rightarrow> bytes \<Rightarrow> bytes \<Rightarrow> bytes \<Rightarrow> bytes \<Rightarrow> agent_config" where
  "saved_config c nid url presented fresh =
     \<lparr>cfg_node_id = nid, cfg_ctrl_url = url,
      cfg_token = (if presented \<noteq> [] then presented
                   else if cfg_token c \<noteq> [] then cfg_token c else fresh)\<rparr>"

definition identity_fits :: "bytes \<Rightarrow> bytes \<Rightarrow> bytes \<Rightarrow> bool" where
  "identity_fits nid url presented \<longleftrightarrow>
     length nid \<le> MAX_NODE_ID_LEN \<and> length url \<le> MAX_CTRL_URL_LEN \<and>
     length presented \<le> MAX_TOKEN_LEN"

lemma save_identity_cases:
  assumes law: "config_space_law cs stored" and ent: "entropy_law fill stored"
    and u8: "utf8 nid" "utf8 url" "utf8 presented"
    and run: "save_identity (cs n) nid url presented fill w = (r, w')"
  obtains (unread) e where "r = Err e" "\<And>m. stored m w' = stored m w"
  | (written) c fresh where
      "agent_view (stored n w) = Some c" "identity_fits nid url presented"
      "length fresh = 32" "list_all is_lower_hex fresh"
      "agent_config_valid (saved_config c nid url presented fresh)"
      "agent_view (stored n w') = Some (saved_config c nid url presented fresh)
         \<or> stored n w' = stored n w"
      "r = Ok () \<Longrightarrow> agent_view (stored n w') = Some (saved_config c nid url presented fresh)"
      "\<And>m. m \<noteq> n \<Longrightarrow> stored m w' = stored m w"
proof -
  obtain lr w1 where lc: "load_config (cs n) w = (lr, w1)" by force
  note k1 = load_config_keeps [OF law lc]
  obtain fresh wf where gen: "generate_token fill w1 = (fresh, wf)" by force
  have kf: "stored m wf = stored m w" for m
    using gen ent k1 [of m] by (auto simp: generate_token_def entropy_law_def split: prod.splits)
      (metis snd_conv)
  note fresh = generate_token_props [OF gen]
  show ?thesis
  proof (cases lr)
    case (Err e)
    with run lc have "r = Err e" "w' = w1" by (auto simp: save_identity_def)
    with unread k1 show ?thesis by simp
  next
    case (Ok c)
    note view = load_config_Ok [OF law lc [unfolded Ok]]
    let ?c = "saved_config c nid url presented fresh"
    let ?w2 = "if presented \<noteq> [] \<or> cfg_token c \<noteq> [] then w1 else wf"
    have k2: "stored m ?w2 = stored m w" for m using k1 kf by simp
    have run': "(case agent_config_encode ?c of None \<Rightarrow> (Err InvalidValue, ?w2)
        | Some bs \<Rightarrow> (case commit (cs n) bs ?w2 of (Err _, w3) \<Rightarrow> (Err Persistence, w3)
            | (Ok _, w3) \<Rightarrow> (Ok (), w3))) = (r, w')"
      using run lc Ok gen
      by (cases c) (auto simp: save_identity_def saved_config_def Let_def)
    show ?thesis
    proof (cases "identity_fits nid url presented")
      case False
      then have "agent_config_encode ?c = None"
        by (auto simp: agent_config_encode_eq identity_fits_def saved_config_def)
      with run' have "r = Err InvalidValue" "w' = ?w2" by (auto split: if_splits)
      with unread k2 show ?thesis by blast
    next
      case True
      have v: "agent_config_valid ?c"
        using True fresh u8 agent_view_valid [OF view]
        by (simp add: agent_config_valid_def saved_config_def identity_fits_def agent_limits)
      obtain bs where enc: "agent_config_encode ?c = Some bs"
        using agent_config_encode_Some [OF v] by simp
      obtain cr w3 where cm: "commit (cs n) bs ?w2 = (cr, w3)" by force
      have "w' = w3" and "r = Ok () \<Longrightarrow> is_ok cr"
        using run' enc cm by (auto split: result.splits)
      with commit_config [OF law v enc cm] v view True fresh k2 show ?thesis
        by (intro written [of c fresh]) simp_all
    qed
  qed
qed

lemma save_identity_other:
  "config_space_law cs stored \<Longrightarrow> entropy_law fill stored \<Longrightarrow> utf8 nid \<Longrightarrow> utf8 url \<Longrightarrow>
   utf8 presented \<Longrightarrow> save_identity (cs n) nid url presented fill w = (r, w') \<Longrightarrow> m \<noteq> n \<Longrightarrow>
   stored m w' = stored m w"
  by (erule (5) save_identity_cases) auto

lemma saved_config_token: "fresh \<noteq> [] \<Longrightarrow> cfg_token (saved_config c nid url p fresh) \<noteq> []"
  by (simp add: saved_config_def)

section \<open>Properties\<close>

subsection \<open>The stored configuration\<close>

text \<open>
  C36: a configuration whose strings are valid is refused exactly when a field is too long;
  otherwise its encoding fits the claimed space with room to spare and decodes to it.
\<close>

theorem agent_config_roundtrip:
  assumes "utf8 (cfg_node_id c)" and "utf8 (cfg_ctrl_url c)" and "utf8 (cfg_token c)"
  shows "case agent_config_encode c of
      Some bs \<Rightarrow> length bs \<le> 330 \<and> agent_config_decode bs = Some c
    | None \<Rightarrow> 64 < length (cfg_node_id c) \<or> 192 < length (cfg_ctrl_url c)
        \<or> 64 < length (cfg_token c)"
  using assms
  by (auto simp: agent_config_encode_eq agent_config_decode_layout agent_config_valid_def
      length_agent_config_layout agent_limits)

definition sample_config :: agent_config where
  "sample_config = \<lparr>cfg_node_id = lit ''node-7'', cfg_ctrl_url = lit ''https://core:8443'',
     cfg_token = lit ''0123456789abcdef''\<rparr>"

lemma sample_utf8:
  "utf8 (cfg_node_id sample_config)" "utf8 (cfg_ctrl_url sample_config)"
  "utf8 (cfg_token sample_config)"
  by (auto simp: sample_config_def lit_def intro!: ascii_utf8)

theorem agent_config_roundtrip_witness:
  "utf8 (cfg_node_id sample_config) \<and> utf8 (cfg_ctrl_url sample_config) \<and>
   utf8 (cfg_token sample_config) \<and>
   (case agent_config_encode sample_config of
      Some bs \<Rightarrow> length bs \<le> 330 \<and> agent_config_decode bs = Some sample_config
    | None \<Rightarrow> 64 < length (cfg_node_id sample_config) \<or> 192 < length (cfg_ctrl_url sample_config)
        \<or> 64 < length (cfg_token sample_config))"
  using agent_config_roundtrip [OF sample_utf8] sample_utf8 by blast

text \<open>
  Decoding never panics, whatever bytes are in the space: every index and slice it reads is
  in range. What it accepts is canonical: the bytes are those the encoder writes for the result.
\<close>

theorem agent_config_decode_total:
  "\<exists>r. agent_config_decode_run raw = Return r \<and> (\<forall>c. r = Some c \<longrightarrow> agent_config_encode c = Some raw)"
  using agent_config_encode_decode [of raw]
  by (auto simp: agent_config_decode_run_eq agent_config_decode_eq)

theorem agent_config_decode_total_witness:
  "\<exists>raw c. agent_config_decode_run raw = Return (Some c) \<and> agent_config_encode c = Some raw"
proof -
  let ?raw = "agent_config_layout sample_config"
  have "agent_config_valid sample_config"
    using sample_utf8 by (simp add: agent_config_valid_def) (simp add: sample_config_def agent_limits)
  then have "agent_config_decode_run ?raw = Return (Some sample_config)"
    by (simp add: agent_config_decode_run_eq agent_config_wellformed_layout agent_config_fields_layout)
  with agent_config_decode_total [of ?raw] show ?thesis by auto
qed

subsection \<open>A provisioned device in memory\<close>

definition sample_ram :: ram where
  "sample_ram = ram_with Agent (agent_config_layout sample_config) ram_empty"

lemma sample_config_valid: "agent_config_valid sample_config"
  using sample_utf8 by (simp add: agent_config_valid_def) (simp add: sample_config_def agent_limits)

lemma sample_view [simp]: "agent_view (cells sample_ram Agent) = Some sample_config"
  by (simp add: sample_ram_def ram_defs agent_view_def agent_config_decode_layout
      sample_config_valid)

lemma sample_faults [simp]: "faults sample_ram = []"
  by (simp add: sample_ram_def ram_defs)

lemma ram_load_config:
  "faults w = [] \<Longrightarrow> load_config (ram_space n) w = (ok_or (agent_view (cells w n)) InvalidValue, w)"
  by (rule load_config_faultless [OF ram_law ram_load])

text \<open>Without a fault, a rotation to a well-formed token succeeds.\<close>

lemma ram_rotate:
  assumes "faults w = []" and "agent_view (cells w Agent) = Some c"
    and "utf8 t" and "8 \<le> length t" and "length t \<le> 64"
  shows "fst (rotate_token (ram_space Agent) t w) = Ok ()"
proof -
  have v: "agent_config_valid (rotated c t)"
    using agent_view_valid [OF assms(2)] assms by (simp add: rotated_valid)
  let ?w2 = "ram_put Agent (agent_config_layout (rotated c t)) w"
  have "token (ram_space Agent) ?w2 = (t, ?w2)"
    using assms(1) v
    by (simp add: token_def ram_load_config agent_view_Some agent_config_decode_layout)
      (simp add: rotated_def)
  with assms agent_config_encode_Some [OF v] show ?thesis
    by (simp add: rotate_token_def ram_load_config ram_commit rotated_def)
qed

subsection \<open>Tokens\<close>

text \<open>
  A generated token is 32 lower-case hexadecimal digits, inside the length range rotation
  accepts, and carries all 128 bits: two tokens are equal exactly when the sixteen random bytes
  were.
\<close>

theorem generated_token:
  "length (fst (generate_token fill w)) = 32 \<and>
   list_all is_lower_hex (fst (generate_token fill w)) \<and>
   (fst (generate_token fill w) = fst (generate_token fill v) \<longleftrightarrow>
      (\<forall>i < 16. fst (fill w) i = fst (fill v) i))"
proof -
  have eq: "fst (generate_token fill u) = concat (map (\<lambda>i. fmt_02x (fst (fill u) i)) [0..<16])" for u
    by (simp add: generate_token_def split: prod.split)
  have "fst (generate_token fill w) = fst (generate_token fill v) \<longleftrightarrow>
      (\<forall>i < 16. fst (fill w) i = fst (fill v) i)" (is "?l \<longleftrightarrow> ?r")
  proof
    assume ?l
    then show ?r using hex_string_inj [of "fst (fill w)" "[0..<16]" "fst (fill v)"] by (simp add: eq)
  next
    assume ?r
    then have "map (\<lambda>i. fmt_02x (fst (fill w) i)) [0..<16] = map (\<lambda>i. fmt_02x (fst (fill v) i)) [0..<16]"
      by (intro map_cong) auto
    then show ?l unfolding eq by (rule arg_cong)
  qed
  then show ?thesis
    using hex_string_properties [of "fst (fill w)" "[0..<16]"] unfolding eq by simp
qed

theorem generated_token_witness:
  "length (fst (generate_token (\<lambda>w. (\<lambda>_. 7, w)) (3::nat))) = 32 \<and>
   fst (generate_token (\<lambda>w. (\<lambda>_. 7, w)) (3::nat)) = fst (generate_token (\<lambda>w. (\<lambda>_. 7, w)) (2::nat))"
proof -
  let ?fill = "\<lambda>w :: nat. (\<lambda>_ :: nat. 7 :: u8, w)"
  have "\<forall>i < 16. fst (?fill 3) i = fst (?fill 2) i" by simp
  with generated_token [of ?fill 3 2] show ?thesis by blast
qed

text \<open>
  C4: who is authorized. When the configuration can be read, a call is authorized exactly when
  the token it presents is the stored one and is not empty; so a device without a token, or
  with a corrupt configuration, authorizes nobody, not even an empty token. Checking changes
  no stored value.
\<close>

theorem authorized_iff_stored_token:
  assumes "config_space_law cs stored" and "ct_eq_law ct"
    and "load (cs Agent) w = (Ok s, w')"
  shows "is_authorized ct (cs Agent) presented w =
      ((\<exists>c. agent_view (stored Agent w) = Some c \<and> cfg_token c = presented \<and> presented \<noteq> []), w')
    \<and> stored m w' = stored m w"
  using load_config_faultless [OF assms(1,3)] law_load_stored [OF assms(1,3)] assms(2)
  by (auto simp: is_authorized_def token_def ct_eq_law_def split: prod.splits result.splits)

theorem authorized_iff_stored_token_witness:
  "is_authorized (=) (ram_space Agent) (lit ''0123456789abcdef'') sample_ram = (True, sample_ram) \<and>
   is_authorized (=) (ram_space Agent) (lit ''0123456789abcdeF'') sample_ram = (False, sample_ram) \<and>
   is_authorized (=) (ram_space Agent) [] sample_ram = (False, sample_ram)"
  using authorized_iff_stored_token [OF ram_law, of "(=)" sample_ram "cells sample_ram Agent" sample_ram]
  by (simp add: ct_eq_law_def ram_load) (simp add: sample_config_def lit_def)

text \<open>
  C12: a rotation that reports success has replaced the token and nothing else: the name and the
  controller URL are kept, the new token is 8 to 64 bytes long, from then on only the new token
  is authorized, and it is whenever the configuration can be read.
\<close>

theorem rotate_token_effect:
  assumes law: "config_space_law cs stored" and ct: "ct_eq_law ct" and u8: "utf8 t"
    and run: "rotate_token (cs Agent) t w = (Ok (), w')"
  shows "8 \<le> length t \<and> length t \<le> 64 \<and>
    (\<exists>c. agent_view (stored Agent w) = Some c \<and>
         agent_view (stored Agent w') = Some (c\<lparr>cfg_token := t\<rparr>)) \<and>
    (\<forall>p w1. is_authorized ct (cs Agent) p w' = (True, w1) \<longrightarrow> p = t) \<and>
    (\<forall>s w1. load (cs Agent) w' = (Ok s, w1) \<longrightarrow> is_authorized ct (cs Agent) t w' = (True, w1))"
proof -
  obtain c where len: "8 \<le> length t" "length t \<le> 64"
    and old: "agent_view (stored Agent w) = Some c"
    and new: "agent_view (stored Agent w') = Some (rotated c t)"
    using law u8 run by (cases rule: rotate_token_cases) auto
  have "p = t" if "is_authorized ct (cs Agent) p w' = (True, w1)" for p w1
    using is_authorized_True [OF law ct that] new by (auto simp: rotated_def)
  moreover have "is_authorized ct (cs Agent) t w' = (True, w1)"
    if "load (cs Agent) w' = (Ok s, w1)" for s w1
    using load_config_faultless [OF law that] new len ct
    by (auto simp: is_authorized_def token_def rotated_def ct_eq_law_def)
  ultimately show ?thesis using len old new unfolding rotated_def by blast
qed

theorem rotate_token_effect_witness:
  "\<exists>w'. rotate_token (ram_space Agent) (lit ''fedcba9876543210'') sample_ram = (Ok (), w') \<and>
     is_authorized (=) (ram_space Agent) (lit ''0123456789abcdef'') w' \<noteq> (True, w')"
proof -
  have u8: "utf8 (lit ''fedcba9876543210'')"
    by (auto simp: lit_def intro!: ascii_utf8)
  obtain w' where run: "rotate_token (ram_space Agent) (lit ''fedcba9876543210'') sample_ram = (Ok (), w')"
    using ram_rotate [of sample_ram sample_config, OF _ _ u8]
    by (cases "rotate_token (ram_space Agent) (lit ''fedcba9876543210'') sample_ram") simp
  have "ct_eq_law (=)" by (simp add: ct_eq_law_def)
  note effect = rotate_token_effect [OF ram_law this u8 run]
  have "lit ''0123456789abcdef'' \<noteq> lit ''fedcba9876543210''"
    by (simp add: lit_def)
  with effect run show ?thesis by blast
qed

text \<open>
  The length limits of rotation count bytes, although the endpoint reports them as
  "token must be 8-64 chars": a token of four two-byte characters is accepted.
\<close>

definition four_chars :: bytes where
  "four_chars = [0xC3, 0xA9, 0xC3, 0xA9, 0xC3, 0xA9, 0xC3, 0xA9]"

theorem rotate_counts_bytes_not_chars:
  "utf8 four_chars \<and> length (chars four_chars) = 4 \<and>
   fst (rotate_token (ram_space Agent) four_chars sample_ram) = Ok ()"
proof -
  have seg: "utf8_chars four_chars =
      Some [[0xC3, 0xA9], [0xC3, 0xA9], [0xC3, 0xA9], [0xC3, 0xA9]]"
    by code_simp
  then have "utf8 four_chars" by (simp add: utf8_def)
  with seg show ?thesis
    using ram_rotate [of sample_ram sample_config four_chars]
    by (simp add: chars_def) (simp add: four_chars_def)
qed

subsection \<open>Provisioning\<close>

lemma save_identity_stores:
  assumes law: "config_space_law cs stored" and ent: "entropy_law fill stored"
    and u8: "utf8 nid" "utf8 url" "utf8 presented"
    and run: "save_identity (cs Agent) nid url presented fill w = (r, w')"
  shows "m \<noteq> Agent \<Longrightarrow> stored m w' = stored m w"
    and "r = Ok () \<Longrightarrow> \<exists>c. agent_view (stored Agent w') = Some c \<and> cfg_node_id c = nid \<and>
      cfg_ctrl_url c = url \<and> cfg_token c \<noteq> []"
  using law ent u8 run
  by (cases rule: save_identity_cases, auto simp: saved_config_def)+

text \<open>
  C35: a save that reports success has stored the given name and URL, and a token: the presented
  one if any, else the one already there, else a freshly generated one. It never clears a token.
  A save that fails has stored all of that or nothing, and no save touches another space.
\<close>

theorem save_identity_effect:
  assumes law: "config_space_law cs stored" and ent: "entropy_law fill stored"
    and u8: "utf8 nid" "utf8 url" "utf8 presented"
    and run: "save_identity (cs Agent) nid url presented fill w = (r, w')"
  shows "(\<forall>m. m \<noteq> Agent \<longrightarrow> stored m w' = stored m w) \<and>
    (if r = Ok () then
       \<exists>c c'. agent_view (stored Agent w) = Some c \<and> agent_view (stored Agent w') = Some c' \<and>
         cfg_node_id c' = nid \<and> cfg_ctrl_url c' = url \<and>
         (if presented \<noteq> [] then cfg_token c' = presented
          else if cfg_token c \<noteq> [] then cfg_token c' = cfg_token c
          else length (cfg_token c') = 32 \<and> list_all is_lower_hex (cfg_token c'))
     else stored Agent w' = stored Agent w \<or>
       (\<exists>c'. agent_view (stored Agent w') = Some c' \<and> cfg_node_id c' = nid \<and>
             cfg_ctrl_url c' = url \<and> cfg_token c' \<noteq> []))"
  using law ent u8 run
proof (cases rule: save_identity_cases)
  case (unread e)
  then show ?thesis by simp
next
  case (written c fresh)
  from written(3) have "fresh \<noteq> []" by auto
  with written show ?thesis by (auto simp: saved_config_def)
qed

lemma ram_save_identity:
  assumes "faults w = []" and "cells w Agent = None" and "length nid \<le> 64" and "length url \<le> 192"
  obtains w' where "save_identity (ram_space Agent) nid url [] (\<lambda>w. (\<lambda>_. 171, w)) w = (Ok (), w')"
    "faults w' = []"
proof -
  let ?run = "save_identity (ram_space Agent) nid url [] (\<lambda>w. (\<lambda>_. 171, w)) w"
  have "fst ?run = Ok () \<and> faults (snd ?run) = []"
    using assms
    by (simp add: save_identity_def ram_load_config agent_config_default_def Let_def ram_commit
        agent_config_encode_eq agent_limits hex_string_properties generate_token_def)
  then show thesis using that by (cases ?run) auto
qed

theorem save_identity_effect_witness:
  "\<exists>w' c'. save_identity (ram_space Agent) (lit ''n'') [] [] (\<lambda>w. (\<lambda>_. 171, w)) ram_empty = (Ok (), w') \<and>
     agent_view (cells w' Agent) = Some c' \<and> cfg_node_id c' = lit ''n'' \<and>
     length (cfg_token c') = 32 \<and> cells w' Ota = None"
proof -
  let ?fill = "\<lambda>w :: ram. (\<lambda>_ :: nat. 171 :: u8, w)"
  let ?run = "save_identity (ram_space Agent) (lit ''n'') [] [] ?fill ram_empty"
  obtain w' where run: "?run = (Ok (), w')"
  proof -
    have "fst ?run = Ok ()"
      by (simp add: save_identity_def ram_load_config agent_config_default_def Let_def ram_commit
          agent_config_encode_eq agent_limits hex_string_properties generate_token_def)
    then show thesis by (cases ?run) (auto intro: that)
  qed
  have "utf8 (lit ''n'')" by (auto simp: lit_def intro!: ascii_utf8)
  moreover have "entropy_law ?fill (\<lambda>n w. cells w n)" by (simp add: entropy_law_def)
  ultimately have "cells w' Ota = cells ram_empty Ota \<and> (\<exists>c'. agent_view (cells w' Agent) = Some c' \<and>
      cfg_node_id c' = lit ''n'' \<and> length (cfg_token c') = 32)"
    using save_identity_effect [OF ram_law _ _ _ _ run]
    by (auto simp: agent_config_default_def)
  with run show ?thesis by auto
qed

text \<open>The operations that write the identity, as steps of a device.\<close>

datatype identity_op = Rotate bytes | SaveIdentity bytes bytes bytes

fun identity_step ::
  "'w config_space \<Rightarrow> ('w \<Rightarrow> (nat \<Rightarrow> u8) \<times> 'w) \<Rightarrow> identity_op \<Rightarrow> 'w \<Rightarrow> 'w" where
  "identity_step space fill (Rotate t) w = snd (rotate_token space t w)"
| "identity_step space fill (SaveIdentity nid url presented) w =
     snd (save_identity space nid url presented fill w)"

fun identity_op_strings :: "identity_op \<Rightarrow> bool" where
  "identity_op_strings (Rotate t) = utf8 t"
| "identity_op_strings (SaveIdentity nid url presented) = (utf8 nid \<and> utf8 url \<and> utf8 presented)"

lemma identity_step_provisioned:
  assumes law: "config_space_law cs stored" and ent: "entropy_law fill stored"
    and "identity_op_strings x" and prov: "provisioned_view (stored Agent w)"
  shows "provisioned_view (stored Agent (identity_step (cs Agent) fill x w))"
proof (cases x)
  case (Rotate t)
  obtain r w' where run: "rotate_token (cs Agent) t w = (r, w')" by force
  with Rotate assms(3) rotate_token_provisioned [OF law _ run prov] show ?thesis by simp
next
  case (SaveIdentity nid url presented)
  obtain r w' where run: "save_identity (cs Agent) nid url presented fill w = (r, w')" by force
  have u: "utf8 nid" "utf8 url" "utf8 presented" using assms(3) SaveIdentity by simp_all
  from law ent u run have "provisioned_view (stored Agent w')"
  proof (cases rule: save_identity_cases)
    case (written c fresh)
    then have "fresh \<noteq> []" by auto
    with written prov show ?thesis
      by (auto simp: provisioned_view_def saved_config_token)
  qed (use prov in simp_all)
  with SaveIdentity run show ?thesis by simp
qed

interpretation identity: step_invariant "identity_step (cs Agent) fill"
  "\<lambda>w. config_space_law cs stored \<and> entropy_law fill stored \<and> provisioned_view (stored Agent w)"
  identity_op_strings for cs fill stored
  by unfold_locales (simp add: identity_step_provisioned)

text \<open>
  C5: authentication is never switched off. Starting from a provisioned device, no sequence of
  rotations and identity saves, successful or failed at any storage operation, leaves it without
  a token.
\<close>

theorem authentication_never_disabled:
  assumes "config_space_law cs stored" and "entropy_law fill stored"
    and "list_all identity_op_strings ops" and "provisioned_view (stored Agent w)"
  shows "provisioned_view (stored Agent (run_steps (identity_step (cs Agent) fill) ops w))"
  using identity.run_keeps [of ops cs stored fill w] assms by blast

theorem authentication_never_disabled_witness:
  "provisioned_view (cells (run_steps (identity_step (ram_space Agent) (\<lambda>w. (\<lambda>_. 0, w)))
     [Rotate (lit ''short''), SaveIdentity (lit ''n'') [] [], Rotate []] sample_ram) Agent)"
proof (rule authentication_never_disabled [OF ram_law])
  show "entropy_law (\<lambda>w. (\<lambda>_. 0, w)) (\<lambda>n w. cells w n)" by (simp add: entropy_law_def)
  show "list_all identity_op_strings [Rotate (lit ''short''), SaveIdentity (lit ''n'') [] [], Rotate []]"
    by (auto simp: lit_def intro!: ascii_utf8)
  show "provisioned_view (cells sample_ram Agent)"
    by (simp add: provisioned_view_def) (simp add: sample_config_def)
qed

end
