(* ===== verification/Agent_Info.thy ===== *)
theory Agent_Info
  imports Ota_Facade App_Config Runtime_Apply Agent_Auth
begin

text \<open>
  The read side of \<open>src/agent.rs\<close>: the bodies of \<open>GET /info\<close> and \<open>GET /health\<close>, assembled from
  the configuration spaces, the OTA metadata, the boot entry and the device state. Serialisation
  is \<open>serde_json\<close>'s and stays a parameter of the HTTP layer.
\<close>

definition API_VERSIONS :: "bytes list" where
  "API_VERSIONS = [lit ''v1alpha1'']"

definition FW_NAME :: bytes where
  "FW_NAME = lit ''embewi-agent-esp''"

text \<open>\<open>env!("CARGO_PKG_VERSION")\<close>, the version in \<open>Cargo.toml\<close>.\<close>

definition FW_VERSION :: bytes where
  "FW_VERSION = lit ''0.1.0''"

record boot_snapshot =
  snap_slot :: bytes
  snap_seq :: u32
  snap_state :: bytes

text \<open>
  The platform facts \<open>info\<close> asks for: the boot info source, the static metadata, and the
  hardware id.
\<close>

record 'w info_source =
  src_active_slot :: "'w \<Rightarrow> bytes \<times> 'w"
  src_boot_info :: "'w \<Rightarrow> boot_snapshot \<times> 'w"
  src_chip_name :: bytes
  src_ram_size :: u32
  src_partition_layout :: bytes
  src_hardware_id :: bytes

record firmware =
  fw_name :: bytes
  fw_version :: bytes
  fw_digest :: bytes

record staged_info =
  si_state :: bytes
  si_slot :: bytes
  si_digest :: bytes
  si_deployment_id :: bytes

record info =
  info_node_id :: bytes
  info_api_versions :: "bytes list"
  info_chip :: bytes
  info_ram_size :: u32
  info_partition_layout :: bytes
  info_active_slot :: bytes
  info_boot :: boot_snapshot
  info_firmware :: firmware
  info_staged :: staged_info
  info_state :: bytes
  info_config_generation :: u64
  info_app_port :: u16

text \<open>
  The optional fields of \<open>StagedInfo\<close>: \<open>skip_serializing_if = "String::is_empty"\<close> drops an
  empty one.
\<close>

definition staged_fields :: "staged_info \<Rightarrow> (string \<times> bytes) list" where
  "staged_fields s = (''state'', si_state s) #
     filter (\<lambda>f. snd f \<noteq> [])
       [(''slot'', si_slot s), (''digest'', si_digest s), (''deployment_id'', si_deployment_id s)]"

definition agent_info ::
  "'w info_source \<Rightarrow> 'w ota_service \<Rightarrow> 'w config_space \<Rightarrow> 'w config_space \<Rightarrow> 'w runtime_config
   \<Rightarrow> 'w config_space \<Rightarrow> u8 \<Rightarrow> 'w \<Rightarrow> info \<times> 'w" where
  "agent_info src svc agent_cfg app_cfg rc ota_cfg state_byte w =
     (let (config_generation, w1) = runtime_generation rc w;
          (port, w2) = app_port app_cfg w1;
          (st, w3) = staged svc ota_cfg w2;
          (nid, w4) = node_id agent_cfg (src_hardware_id src) w3;
          (slot, w5) = src_active_slot src w4;
          (boot, w6) = src_boot_info src w5;
          (dig, w7) = active_digest svc ota_cfg w6
      in (\<lparr>info_node_id = nid, info_api_versions = API_VERSIONS, info_chip = src_chip_name src,
           info_ram_size = src_ram_size src, info_partition_layout = src_partition_layout src,
           info_active_slot = slot, info_boot = boot,
           info_firmware = \<lparr>fw_name = FW_NAME, fw_version = FW_VERSION, fw_digest = dig\<rparr>,
           info_staged = \<lparr>si_state = staged_stage st, si_slot = staged_slot st,
             si_digest = staged_digest st, si_deployment_id = staged_deployment_id st\<rparr>,
           info_state = state_as_str (state_from_byte state_byte),
           info_config_generation = config_generation, info_app_port = port\<rparr>, w7))"

record checks =
  chk_app :: bytes
  chk_sensors :: bytes
  chk_storage :: bytes

record health =
  health_status :: bytes
  health_state :: bytes
  health_checks :: checks

definition ok_str :: "bool \<Rightarrow> bytes" where
  "ok_str b = (if b then lit ''ok'' else lit ''fail'')"

definition agent_health :: "('w \<Rightarrow> bool) \<Rightarrow> u8 \<Rightarrow> 'w \<Rightarrow> health" where
  "agent_health is_healthy state_byte w =
     (let storage_ok = is_healthy w; app_ok = True; sensors_ok = True
      in \<lparr>health_status = ok_str (storage_ok \<and> app_ok \<and> sensors_ok),
          health_state = state_as_str (state_from_byte state_byte),
          health_checks = \<lparr>chk_app = ok_str app_ok, chk_sensors = ok_str sensors_ok,
            chk_storage = ok_str storage_ok\<rparr>\<rparr>)"

section \<open>Reading changes nothing\<close>

text \<open>
  The law of the readers outside the repository that \<open>info\<close> uses: they change no stored value.
\<close>

definition reads_only :: "(space_name \<Rightarrow> 'w \<Rightarrow> snapshot option) \<Rightarrow> ('w \<Rightarrow> 'a \<times> 'w) \<Rightarrow> bool" where
  "reads_only stored f \<longleftrightarrow> (\<forall>w m. stored m (snd (f w)) = stored m w)"

definition info_law ::
  "(space_name \<Rightarrow> 'w \<Rightarrow> snapshot option) \<Rightarrow> 'w info_source \<Rightarrow> 'w ota_service \<Rightarrow> 'w config_space \<Rightarrow> bool" where
  "info_law stored src svc ota_cfg \<longleftrightarrow>
     reads_only stored (src_active_slot src) \<and> reads_only stored (src_boot_info src) \<and>
     reads_only stored (svc_load_metadata svc ota_cfg)"

lemma reads_onlyD: "reads_only stored f \<Longrightarrow> f w = (a, w') \<Longrightarrow> stored m w' = stored m w"
  by (metis reads_only_def snd_conv)

lemma metadata_readers_keep:
  assumes "reads_only stored (svc_load_metadata svc space)"
  shows "staged svc space w = (a, w') \<Longrightarrow> stored m w' = stored m w"
    and "active_digest svc space w = (b, w') \<Longrightarrow> stored m w' = stored m w"
    and "active_deployment_id svc space w = (b, w') \<Longrightarrow> stored m w' = stored m w"
  using assms
  by (auto simp: staged_def active_digest_def active_deployment_id_def dest: reads_onlyD
      split: prod.splits result.splits)

lemma agent_info_keeps:
  assumes law: "config_space_law cs stored" and info: "info_law stored src svc (cs Ota)"
    and rc: "rc_space rc = cs Runtime"
    and run: "agent_info src svc (cs Agent) (cs App) rc (cs Ota) st w = (i, w')"
  shows "stored m w' = stored m w"
proof -
  have ro: "reads_only stored (src_active_slot src)" "reads_only stored (src_boot_info src)"
    "reads_only stored (svc_load_metadata svc (cs Ota))"
    using info by (simp_all add: info_law_def)
  obtain g w1 p w2 sr w3 n w4 sl w5 b w6 dg where steps:
    "runtime_generation rc w = (g, w1)" "app_port (cs App) w1 = (p, w2)"
    "staged svc (cs Ota) w2 = (sr, w3)" "node_id (cs Agent) (src_hardware_id src) w3 = (n, w4)"
    "src_active_slot src w4 = (sl, w5)" "src_boot_info src w5 = (b, w6)"
    "active_digest svc (cs Ota) w6 = (dg, w')"
    using run by (auto simp: agent_info_def split: prod.splits)
  show ?thesis
    using runtime_generation_keeps [OF law rc steps(1)] app_port_keeps [OF law steps(2)]
      metadata_readers_keep(1) [OF ro(3) steps(3)] node_id_keeps [OF law steps(4)]
      reads_onlyD [OF ro(1) steps(5)] reads_onlyD [OF ro(2) steps(6)]
      metadata_readers_keep(2) [OF ro(3) steps(7)]
    by simp
qed

end
