(* ===== verification/Workload.thy ===== *)
theory Workload
  imports Ota_Facade Runs
begin

text \<open>
  \<open>src/workload.rs\<close> and \<open>src/workload/native_runtime.rs\<close>: the runtime API the agent
  offers, the dual-OTA guard, boot reconciliation behind the crash-loop guard, the reserved RAM,
  and the support task that samples the Workload and forwards its log lines at a bounded rate.
  The engine (\<open>iobewi-esp-workload\<close>) is outside the repository: its entry points are
  parameters.
\<close>

section \<open>The runtime API and the dual-OTA guard\<close>

text \<open>\<open>RuntimeApi::new(major, minor)\<close>.\<close>

datatype runtime_api = RuntimeApi nat nat

definition RUNTIME_API :: "features \<Rightarrow> runtime_api" where
  "RUNTIME_API feat = (if test_runtime_api_0_9 feat then RuntimeApi 0 9 else RuntimeApi 1 0)"

text \<open>
  The Workload OTA service: what \<open>status().await.active\<close> requires, if a Workload is active,
  \<open>RuntimeApi::satisfies\<close>, whether \<open>storage()\<close> is available, and its recovery.
\<close>

record 'w workload_service =
  wl_active :: "'w \<Rightarrow> runtime_api option \<times> 'w"
  wl_satisfies :: "runtime_api \<Rightarrow> runtime_api \<Rightarrow> bool"
  wl_storage_ok :: bool
  wl_recover :: "'w \<Rightarrow> unit \<times> 'w"

definition agent_can_run_active_workload ::
  "features \<Rightarrow> 'w workload_service \<Rightarrow> 'w \<Rightarrow> bool \<times> 'w" where
  "agent_can_run_active_workload feat service w =
     (case wl_active service w of
        (Some requires, w') \<Rightarrow> (wl_satisfies service (RUNTIME_API feat) requires, w')
      | (None, w') \<Rightarrow> (True, w'))"

text \<open>What the HTTP routes call for activate, confirm and rollback.\<close>

datatype control = Native_Supervisor bool | Probe_Supervisor | No_Supervisor

definition workload_init ::
  "features \<Rightarrow> ('w \<Rightarrow> 'w workload_service \<times> 'w) \<Rightarrow> bool \<Rightarrow> ('w, 'w workload_service \<times> control) act" where
  "workload_init feat probe region_ok =
     act_bind (act_read probe) (\<lambda>service.
       act_seq (act_when (wl_storage_ok service) (act_read (wl_recover service)))
         (act_return (service,
            if test_probe_runtime feat then Probe_Supervisor
            else if workload_native feat then Native_Supervisor region_ok
            else No_Supervisor)))"

lemma workload_init_spec:
  "wp (workload_init feat probe region_ok)
     (\<lambda>(service, control) d'. calls d' = calls d \<and> STATE d' = STATE d) E d"
  by (simp add: workload_init_def wp_rules)

section \<open>Reserved RAM\<close>

definition RECLAIMED_TOTAL :: nat where "RECLAIMED_TOTAL = 64 * 1024"
definition AGENT_HEAP_PART :: nat where "AGENT_HEAP_PART = 32 * 1024"

text \<open>
  The heap region handed to the allocator (address, length) and whether the second half sits at
  \<open>REGION_DBUS\<close>, the address the Workload images are linked for (a constant of the engine).
\<close>

definition init_reclaimed_ram :: "nat \<Rightarrow> nat \<Rightarrow> (nat \<times> nat) \<times> bool" where
  "init_reclaimed_ram REGION_DBUS base =
     (let region = base + AGENT_HEAP_PART
      in ((base, AGENT_HEAP_PART), if region \<noteq> REGION_DBUS then False else True))"

section \<open>The crash-loop guard\<close>

text \<open>
  The guard's record and rules are the engine's; the four words it is sealed in survive every
  reset but a power cycle. \<open>with_guard\<close> is the read-modify-write around them.
\<close>

type_synonym guard_words = "u32 \<times> u32 \<times> u32 \<times> u32"

datatype boot_decision = Start nat | Suppressed nat

record 'g boot_guard =
  from_words :: "guard_words \<Rightarrow> 'g"
  to_words :: "'g \<Rightarrow> guard_words"
  guard_on_boot :: "'g \<Rightarrow> boot_decision \<times> 'g"
  guard_mark_clean_reboot :: "'g \<Rightarrow> 'g"
  guard_mark_proven_healthy :: "'g \<Rightarrow> 'g"

definition with_guard :: "'g boot_guard \<Rightarrow> ('g \<Rightarrow> 'r \<times> 'g) \<Rightarrow> guard_words \<Rightarrow> 'r \<times> guard_words" where
  "with_guard G f words = (case f (from_words G words) of (out, rec) \<Rightarrow> (out, to_words G rec))"

definition boot_decision_of :: "'g boot_guard \<Rightarrow> guard_words \<Rightarrow> boot_decision \<times> guard_words" where
  "boot_decision_of G words = with_guard G (guard_on_boot G) words"

definition mark_clean_reboot :: "'g boot_guard \<Rightarrow> guard_words \<Rightarrow> guard_words" where
  "mark_clean_reboot G words = snd (with_guard G (\<lambda>r. ((), guard_mark_clean_reboot G r)) words)"

text \<open>
  \<open>reconcile_task\<close>: the supervisor's \<open>reconcile_boot\<close>, unless the guard suppresses it (the
  guard exists only in the native build).
\<close>

definition reconcile_task ::
  "features \<Rightarrow> 'g boot_guard \<Rightarrow> ('w \<Rightarrow> 'w) \<Rightarrow> guard_words \<times> 'w \<Rightarrow> guard_words \<times> 'w" where
  "reconcile_task feat G reconcile_boot s =
     (if workload_native feat then
        (case boot_decision_of G (fst s) of
           (Start _, words) \<Rightarrow> (words, reconcile_boot (snd s))
         | (Suppressed _, words) \<Rightarrow> (words, snd s))
      else (fst s, reconcile_boot (snd s)))"

section \<open>The support task\<close>

text \<open>The log lines the agent emits about the Workload.\<close>

datatype log_level = L_Error | L_Warn | L_Info | L_Debug

datatype support_log =
    Stop_Timeout u32
  | Quarantined
  | Forwarded log_level bytes
  | Dropped u32
  | Proven_Healthy

text \<open>The task's local variables; \<open>'p\<close> is the engine's \<open>ProvenHealth\<close>.\<close>

record 'p support =
  forced_seen :: u32
  quarantined_seen :: u32
  dropped_total :: u32
  ticks :: u32
  proven :: 'p

text \<open>
  What one round reads from the runtime: its counters, the lines waiting in the ring, the lines
  the ring dropped since the last round, whether it is healthy, and the clock.
\<close>

record support_input =
  in_forced :: u32
  in_quarantined :: u32
  in_lines :: "(u8 \<times> bytes) list"
  in_dropped :: u32
  in_healthy :: bool
  in_now_ms :: u64

definition LINES_PER_TICK :: nat where "LINES_PER_TICK = 2"

definition level_of :: "u8 \<Rightarrow> log_level" where
  "level_of level =
     (if level = 1 then L_Error else if level = 2 then L_Warn
      else if level = 4 then L_Debug else L_Info)"

text \<open>
  One round of the loop. \<open>observe\<close> is \<open>ProvenHealth::observe\<close>; \<open>drain_logs\<close> hands at most
  \<open>LINES_PER_TICK\<close> lines to the closure. The result is the lines logged, in order, the new
  guard words and the new locals; \<open>ticks\<close> wraps, as in the release profile.
\<close>

definition support_tick ::
  "'g boot_guard \<Rightarrow> ('p \<Rightarrow> bool \<Rightarrow> u64 \<Rightarrow> bool \<times> 'p) \<Rightarrow> support_input
   \<Rightarrow> guard_words \<times> 'p support \<Rightarrow> support_log list \<times> guard_words \<times> 'p support" where
  "support_tick G observe inp s =
     (let words = fst s; l0 = snd s;
          (log1, l1) = (if in_forced inp \<noteq> forced_seen l0
             then ([Stop_Timeout (in_forced inp)], l0\<lparr>forced_seen := in_forced inp\<rparr>)
             else ([], l0));
          (log2, l2) = (if in_quarantined inp \<noteq> quarantined_seen l1
             then ([Quarantined], l1\<lparr>quarantined_seen := in_quarantined inp\<rparr>)
             else ([], l1));
          log3 = map (\<lambda>(level, text). Forwarded (level_of level)
                   (case from_utf8 text of Some t \<Rightarrow> t | None \<Rightarrow> lit ''<non-utf8>''))
                 (take LINES_PER_TICK (in_lines inp));
          l3 = l2\<lparr>dropped_total := u32_saturating_add (dropped_total l2) (in_dropped inp),
                  ticks := ticks l2 + 1\<rparr>
      in if ticks l3 mod 10 = 0 then
           (let (log4, l4) = (if dropped_total l3 > 0
                  then ([Dropped (dropped_total l3)], l3\<lparr>dropped_total := 0\<rparr>)
                  else ([], l3));
                (clear, p) = observe (proven l4) (in_healthy inp) (in_now_ms inp);
                l5 = l4\<lparr>proven := p\<rparr>
            in if clear
               then (log1 @ log2 @ log3 @ log4 @ [Proven_Healthy],
                     snd (with_guard G (\<lambda>r. ((), guard_mark_proven_healthy G r)) words), l5)
               else (log1 @ log2 @ log3 @ log4, words, l5))
         else (log1 @ log2 @ log3, words, l3))"

definition support_init :: "'p \<Rightarrow> 'p support" where
  "support_init p = \<lparr>forced_seen = 0, quarantined_seen = 0, dropped_total = 0, ticks = 0, proven = p\<rparr>"

text \<open>The task over a sequence of rounds: everything logged so far, the guard words, the locals.\<close>

definition support_step ::
  "'g boot_guard \<Rightarrow> ('p \<Rightarrow> bool \<Rightarrow> u64 \<Rightarrow> bool \<times> 'p) \<Rightarrow> support_input
   \<Rightarrow> support_log list \<times> guard_words \<times> 'p support
   \<Rightarrow> support_log list \<times> guard_words \<times> 'p support" where
  "support_step G observe inp s =
     (case support_tick G observe inp (snd s) of (logged, s') \<Rightarrow> (fst s @ logged, s'))"

subsection \<open>What a round logs\<close>

fun dropped_in :: "support_log \<Rightarrow> nat" where
  "dropped_in (Dropped n) = unat n"
| "dropped_in _ = 0"

definition reported :: "support_log list \<Rightarrow> nat" where
  "reported logged = sum_list (map dropped_in logged)"

definition forwarded :: "support_log list \<Rightarrow> nat" where
  "forwarded logged = length (filter (\<lambda>l. \<exists>v t. l = Forwarded v t) logged)"

lemma reported_simps [simp]:
  "reported [] = 0" "reported (x # xs) = dropped_in x + reported xs"
  "reported (xs @ ys) = reported xs + reported ys"
  by (simp_all add: reported_def)

lemma forwarded_append [simp]: "forwarded (xs @ ys) = forwarded xs + forwarded ys"
  and forwarded_Nil [simp]: "forwarded [] = 0"
  by (simp_all add: forwarded_def)

lemma reported_forward [simp]: "reported (map (\<lambda>(level, text). Forwarded (f level) (g text)) xs) = 0"
  by (induction xs) auto

definition drop_reports :: "support_log list \<Rightarrow> nat" where
  "drop_reports logged = length (filter (\<lambda>l. \<exists>n. l = Dropped n) logged)"

lemma drop_reports_simps [simp]:
  "drop_reports [] = 0" "drop_reports (xs @ ys) = drop_reports xs + drop_reports ys"
  "drop_reports (map (\<lambda>(level, text). Forwarded (f level) (g text)) ys') = 0"
  by (auto simp: drop_reports_def filter_empty_conv)

lemma saturating_zero: "u32_saturating_add a b = 0 \<longleftrightarrow> a = 0 \<and> b = 0"
proof -
  have "u32_saturating_add a b = 0 \<longleftrightarrow> unat (u32_saturating_add a b) = 0"
    by (simp add: unat_eq_0)
  also have "\<dots> \<longleftrightarrow> unat a = 0 \<and> unat b = 0"
    unfolding u32_saturating_add_unat by auto
  finally show ?thesis by (simp add: unat_eq_0)
qed

lemma support_tick_dropped:
  assumes "support_tick G observe inp (words, l) = (logged, words', l')"
    and "unat (dropped_total l) + unat (in_dropped inp) < 2 ^ 32"
  shows "reported logged + unat (dropped_total l') = unat (dropped_total l) + unat (in_dropped inp)"
  using assms
  by (auto simp: support_tick_def Let_def u32_saturating_add_unat word_gt_0 saturating_zero
      split: if_splits prod.splits)

lemma support_tick_forwarded:
  assumes "support_tick G observe inp (words, l) = (logged, words', l')"
  shows "forwarded logged \<le> LINES_PER_TICK"
  using assms
  by (auto simp: support_tick_def Let_def forwarded_def split: if_splits prod.splits)

lemma support_tick_ticks:
  assumes "support_tick G observe inp (words, l) = (logged, words', l')"
  shows "ticks l' = ticks l + 1"
    and "drop_reports logged \<le> (if (ticks l + 1) mod 10 = 0 then 1 else 0)"
  using assms
  by (auto simp: support_tick_def Let_def drop_reports_def split: if_splits prod.splits)

section \<open>Properties\<close>

definition support_run ::
  "'g boot_guard \<Rightarrow> ('p \<Rightarrow> bool \<Rightarrow> u64 \<Rightarrow> bool \<times> 'p) \<Rightarrow> guard_words \<Rightarrow> 'p \<Rightarrow> support_input list
   \<Rightarrow> support_log list \<times> guard_words \<times> 'p support" where
  "support_run G observe words p inps =
     run_steps (support_step G observe) inps ([], words, support_init p)"

lemma support_run_snoc:
  "support_run G observe words p (inps @ [inp]) =
     support_step G observe inp (support_run G observe words p inps)"
  by (simp add: support_run_def run_steps_append)

lemma div_10_Suc: "n div 10 + (if Suc n mod 10 = 0 then 1 else 0) = Suc n div (10::nat)"
  by presburger

lemma support_run_invariant:
  assumes "length inps < 2 ^ 32" and "(\<Sum>inp \<leftarrow> inps. unat (in_dropped inp)) < 2 ^ 32"
    and "support_run G observe words p inps = (logged, words', l')"
  shows "ticks l' = of_nat (length inps) \<and>
    reported logged + unat (dropped_total l') = (\<Sum>inp \<leftarrow> inps. unat (in_dropped inp)) \<and>
    forwarded logged \<le> 2 * length inps \<and> drop_reports logged \<le> length inps div 10"
  using assms
proof (induction inps arbitrary: logged words' l' rule: rev_induct)
  case Nil
  then show ?case by (auto simp: support_run_def support_init_def)
next
  case (snoc inp inps)
  obtain logged0 words0 l0 where r0: "support_run G observe words p inps = (logged0, words0, l0)"
    by (metis prod_cases3)
  have ih: "ticks l0 = of_nat (length inps)"
    "reported logged0 + unat (dropped_total l0) = (\<Sum>inp \<leftarrow> inps. unat (in_dropped inp))"
    "forwarded logged0 \<le> 2 * length inps" "drop_reports logged0 \<le> length inps div 10"
    using snoc.IH [OF _ _ r0] snoc.prems(1,2) by simp_all
  obtain new where t: "support_tick G observe inp (words0, l0) = (new, words', l')"
    and logged: "logged = logged0 @ new"
    using snoc.prems(3) by (auto simp: support_run_snoc r0 support_step_def split: prod.splits)
  have tick: "ticks l' = of_nat (Suc (length inps))"
    using support_tick_ticks(1) [OF t] ih(1) by simp
  have len: "Suc (length inps) < 2 ^ 32" using snoc.prems(1) by simp
  have "(of_nat (Suc (length inps)) :: u32) mod 10 = 0 \<longleftrightarrow> Suc (length inps) mod 10 = 0"
  proof -
    have "unat ((of_nat (Suc (length inps)) :: u32) mod 10) = Suc (length inps) mod 10"
      using len by (simp add: unat_mod unat_of_nat take_bit_eq_mod del: of_nat_Suc)
    then show ?thesis by (metis unat_eq_0)
  qed
  then have "drop_reports new \<le> (if Suc (length inps) mod 10 = 0 then 1 else 0)"
    using support_tick_ticks(2) [OF t] ih(1) by (simp add: add.commute)
  then have "drop_reports logged \<le> length inps div 10 + (if Suc (length inps) mod 10 = 0 then 1 else 0)"
    using ih(4) logged by simp
  then have drops: "drop_reports logged \<le> Suc (length inps) div 10"
    unfolding div_10_Suc .
  have "unat (dropped_total l0) + unat (in_dropped inp) < 2 ^ 32"
    using ih(2) snoc.prems(2) by simp
  from support_tick_dropped [OF t this] support_tick_forwarded [OF t] tick ih drops
  show ?case by (simp add: logged LINES_PER_TICK_def)
qed

text \<open>
  C40: forwarding the Workload's log cannot monopolise the agent, and losses are accounted for.
  Over any number of rounds, at most two lines are forwarded per round and at most one loss
  report is emitted per ten rounds; the losses reported plus the losses still pending are
  exactly the losses the ring announced.
\<close>

theorem support_task_rate_limited:
  assumes "length inps < 2 ^ 32" and "(\<Sum>inp \<leftarrow> inps. unat (in_dropped inp)) < 2 ^ 32"
    and "support_run G observe words p inps = (logged, words', l')"
  shows "forwarded logged \<le> 2 * length inps \<and> drop_reports logged \<le> length inps div 10 \<and>
    reported logged + unat (dropped_total l') = (\<Sum>inp \<leftarrow> inps. unat (in_dropped inp))"
  using support_run_invariant [OF assms] by blast

definition noisy_round :: support_input where
  "noisy_round = \<lparr>in_forced = 0, in_quarantined = 0,
     in_lines = [(1, lit ''a''), (2, lit ''b''), (3, lit ''c'')], in_dropped = 7,
     in_healthy = True, in_now_ms = 0\<rparr>"

definition word_guard :: "guard_words boot_guard" where
  "word_guard = \<lparr>from_words = id, to_words = id, guard_on_boot = (\<lambda>r. (Start 1, r)),
     guard_mark_clean_reboot = id, guard_mark_proven_healthy = id\<rparr>"

theorem support_task_rate_limited_witness:
  "\<exists>logged words' l'.
     support_run word_guard (\<lambda>p _ _. (False, p)) (0, 0, 0, 0) () (replicate 12 noisy_round) =
       (logged, words', l') \<and> reported logged + unat (dropped_total l') = 84"
proof -
  obtain logged words' l' where run:
    "support_run word_guard (\<lambda>p _ _. (False, p)) (0, 0, 0, 0) () (replicate 12 noisy_round) =
       (logged, words', l')"
    by (metis prod_cases3)
  have "(\<Sum>inp \<leftarrow> replicate 12 noisy_round. unat (in_dropped inp)) = 84"
    by (simp add: sum_list_replicate noisy_round_def)
  then have "reported logged + unat (dropped_total l') = 84"
    using support_task_rate_limited [OF _ _ run] by simp
  with run show ?thesis by blast
qed

text \<open>
  The reserved RAM. The agent's allocator always gets exactly the first half of the
  reclaimed area. Workloads are enabled only when the second half starts at the address their
  images are linked for, and then that half does not overlap the heap and ends with the area.
\<close>

theorem reclaimed_ram_partition:
  "fst (init_reclaimed_ram dbus base) = (base, 32768) \<and>
   (snd (init_reclaimed_ram dbus base) \<longleftrightarrow> dbus = base + 32768) \<and>
   (case init_reclaimed_ram dbus base of ((start, len), ok) \<Rightarrow>
      \<not> ok \<or> {start ..< start + len} \<inter> {dbus ..< dbus + AGENT_HEAP_PART} = {} \<and>
         {start ..< start + len} \<union> {dbus ..< dbus + AGENT_HEAP_PART} =
           {base ..< base + RECLAIMED_TOTAL})"
  by (auto simp: init_reclaimed_ram_def AGENT_HEAP_PART_def RECLAIMED_TOTAL_def Let_def)

theorem reclaimed_ram_partition_witness:
  "snd (init_reclaimed_ram 0x3FCE3700 0x3FCDB700)"
  using reclaimed_ram_partition [of "0x3FCE3700" "0x3FCDB700"] by simp

end
