(* ===== verification/Supervisor.thy ===== *)
theory Supervisor
  imports Workload
begin

text \<open>
  \<open>src/supervisor.rs\<close> and \<open>src/esp_reboot.rs\<close>: the services each image starts when the
  network is up, started once however often the link comes back, and the reboot that any route
  may request and that happens once. All three are instances of \<open>one_shot\<close>.
\<close>

section \<open>Spawning\<close>

text \<open>
  \<open>spawner.spawn(task(...).unwrap())\<close>: creating the task's token fails when its slot is
  busy, and then the \<open>unwrap\<close> panics before anything is spawned. Token creation is the
  executor's: the parameter \<open>spawn\<close>.
\<close>

type_synonym 'w spawner = "task \<Rightarrow> 'w \<Rightarrow> (unit, unit) result \<times> 'w"

definition act_spawn :: "'w spawner \<Rightarrow> task \<Rightarrow> ('w, unit) act" where
  "act_spawn spawn t =
     act_bind (act_read (spawn t)) (\<lambda>r. case r of
       Ok _ \<Rightarrow> act_call (Spawn t) (\<lambda>w. ((), w))
     | Err _ \<Rightarrow> act_exit Panicked)"

lemma wp_spawn [wp_rules]:
  "wp (act_spawn spawn t) Q E d \<longleftrightarrow>
   (case spawn t (world d) of
      (Ok _, w') \<Rightarrow> Q () (d\<lparr>world := w', calls := calls d @ [Spawn t]\<rparr>)
    | (Err _, w') \<Rightarrow> E Panicked (d\<lparr>world := w'\<rparr>))"
  by (simp add: act_spawn_def wp_rules split: prod.split result.split)

section \<open>The application supervisor\<close>

record supervisor =
  ip_services_started :: bool

definition supervisor_new :: supervisor where
  "supervisor_new = \<lparr>ip_services_started = False\<rparr>"

definition on_ip_ready :: "'w spawner \<Rightarrow> supervisor \<Rightarrow> ('w, supervisor) act" where
  "on_ip_ready spawn self =
     (if ip_services_started self then act_return self
      else
        let self' = self\<lparr>ip_services_started := True\<rparr>
        in act_seq (act_spawn spawn T_Http_Api)
          (act_seq (act_spawn spawn T_Time_Sync)
          (act_seq (act_spawn spawn T_Heartbeat)
          (act_seq (act_spawn spawn T_Log_Stream)
          (act_return self')))))"

text \<open>The provisioning image starts its HTTPS form and nothing else.\<close>

definition on_network_ready :: "'w spawner \<Rightarrow> supervisor \<Rightarrow> ('w, supervisor) act" where
  "on_network_ready spawn self =
     (if ip_services_started self then act_return self
      else
        let self' = self\<lparr>ip_services_started := True\<rparr>
        in act_seq (act_spawn spawn T_Http_Provisioning) (act_return self'))"

lemma on_ip_ready_spec:
  "wp (on_ip_ready spawn self)
     (\<lambda>self' d'. ip_services_started self' \<and> STATE d' = STATE d \<and>
        calls d' = calls d @ (if ip_services_started self then []
          else [Spawn T_Http_Api, Spawn T_Time_Sync, Spawn T_Heartbeat, Spawn T_Log_Stream]))
     (\<lambda>e d'. e = Panicked \<and> \<not> ip_services_started self \<and> STATE d' = STATE d \<and>
        (\<exists>k < 4. calls d' = calls d @
          take k [Spawn T_Http_Api, Spawn T_Time_Sync, Spawn T_Heartbeat, Spawn T_Log_Stream])) d"
proof -
  let ?l = "[Spawn T_Http_Api, Spawn T_Time_Sync, Spawn T_Heartbeat, Spawn T_Log_Stream]"
  have "\<exists>k < 4. [] = take k ?l" by (rule exI [of _ 0]) simp
  moreover have "\<exists>k < 4. [Spawn T_Http_Api] = take k ?l" by (rule exI [of _ 1]) simp
  moreover have "\<exists>k < 4. [Spawn T_Http_Api, Spawn T_Time_Sync] = take k ?l"
    by (rule exI [of _ 2]) simp
  moreover have "\<exists>k < 4. [Spawn T_Http_Api, Spawn T_Time_Sync, Spawn T_Heartbeat] = take k ?l"
    by (rule exI [of _ 3]) simp
  ultimately show ?thesis
    by (auto simp: on_ip_ready_def Let_def wp_rules split: prod.split result.split)
qed

lemma on_network_ready_spec:
  "wp (on_network_ready spawn self)
     (\<lambda>self' d'. ip_services_started self' \<and> STATE d' = STATE d \<and>
        calls d' = calls d @ (if ip_services_started self then [] else [Spawn T_Http_Provisioning]))
     (\<lambda>e d'. e = Panicked \<and> \<not> ip_services_started self \<and> STATE d' = STATE d \<and>
        calls d' = calls d) d"
  by (auto simp: on_network_ready_def Let_def wp_rules split: prod.split result.split)

text \<open>
  A network event on the supervisor and the device it runs on. After a panic the flag stays
  set, as \<open>self.ip_services_started = true\<close> comes first.
\<close>

definition ip_ready_step :: "'w spawner \<Rightarrow> unit \<Rightarrow> supervisor \<times> 'w device \<Rightarrow> supervisor \<times> 'w device" where
  "ip_ready_step spawn _ s =
     (case on_ip_ready spawn (fst s) (snd s) of
        (Returns self', d') \<Rightarrow> (self', d')
      | (Exits _, d') \<Rightarrow> ((fst s)\<lparr>ip_services_started := True\<rparr>, d'))"

definition network_ready_step :: "'w spawner \<Rightarrow> unit \<Rightarrow> supervisor \<times> 'w device \<Rightarrow> supervisor \<times> 'w device" where
  "network_ready_step spawn _ s =
     (case on_network_ready spawn (fst s) (snd s) of
        (Returns self', d') \<Rightarrow> (self', d')
      | (Exits _, d') \<Rightarrow> ((fst s)\<lparr>ip_services_started := True\<rparr>, d'))"

interpretation app_services: one_shot "ip_ready_step spawn" "\<lambda>s. \<not> ip_services_started (fst s)"
  for spawn
proof
  show "\<not> \<not> ip_services_started (fst (ip_ready_step spawn a s))" for a and s :: "supervisor \<times> 'a device"
    using on_ip_ready_spec [of spawn "fst s" "snd s"]
    by (auto simp: ip_ready_step_def wp_def split: prod.splits outcome.splits)
  show "\<not> \<not> ip_services_started (fst s) \<Longrightarrow> ip_ready_step spawn a s = s"
    for a and s :: "supervisor \<times> 'a device"
    by (simp add: ip_ready_step_def on_ip_ready_def act_return_def)
qed

interpretation provisioning_services: one_shot "network_ready_step spawn"
  "\<lambda>s. \<not> ip_services_started (fst s)" for spawn
proof
  show "\<not> \<not> ip_services_started (fst (network_ready_step spawn a s))"
    for a and s :: "supervisor \<times> 'a device"
    using on_network_ready_spec [of spawn "fst s" "snd s"]
    by (auto simp: network_ready_step_def wp_def split: prod.splits outcome.splits)
  show "\<not> \<not> ip_services_started (fst s) \<Longrightarrow> network_ready_step spawn a s = s"
    for a and s :: "supervisor \<times> 'a device"
    by (simp add: network_ready_step_def on_network_ready_def act_return_def)
qed

section \<open>The one-shot reboot\<close>

text \<open>
  The \<open>LPWR\<close> peripheral behind the lock (\<open>True\<close> while it is there), whether the reboot
  task's slot is free, and the reboot tasks spawned.
\<close>

record esp_reboot =
  lpwr :: bool
  slot_free :: bool
  reboots :: nat

definition esp_reboot_new :: esp_reboot where
  "esp_reboot_new = \<lparr>lpwr = True, slot_free = True, reboots = 0\<rparr>"

definition schedule_reboot :: "unit \<Rightarrow> esp_reboot \<Rightarrow> esp_reboot" where
  "schedule_reboot _ s =
     (if lpwr s then
        (let s' = s\<lparr>lpwr := False\<rparr>
         in if slot_free s' then s'\<lparr>slot_free := False, reboots := reboots s' + 1\<rparr> else s')
      else s)"

text \<open>
  The spawned task: after the delay it marks the guard clean (native build) and arms the reset.
  The result is the guard words the next boot reads.
\<close>

definition reboot_after_delay :: "features \<Rightarrow> 'g boot_guard \<Rightarrow> guard_words \<Rightarrow> guard_words" where
  "reboot_after_delay feat G words =
     (if workload_native feat then mark_clean_reboot G words else words)"

interpretation reboot: one_shot schedule_reboot lpwr
  by unfold_locales (auto simp: schedule_reboot_def Let_def)

section \<open>Properties\<close>

text \<open>
  The runtime services start once. However often the link comes up, the HTTPS API, the
  clock, the heartbeat and the log stream are each spawned at most once, in that order, by the
  first event, and later events change nothing.
\<close>

theorem ip_services_start_once:
  "run_steps (ip_ready_step spawn) (e # es) (supervisor_new, d) =
     ip_ready_step spawn e (supervisor_new, d) \<and>
   (\<exists>k \<le> 4. calls (snd (ip_ready_step spawn e (supervisor_new, d))) = calls d @
      take k [Spawn T_Http_Api, Spawn T_Time_Sync, Spawn T_Heartbeat, Spawn T_Log_Stream] \<and>
      (fst (on_ip_ready spawn supervisor_new d) \<noteq> Exits Panicked \<longrightarrow> k = 4))"
proof
  show "run_steps (ip_ready_step spawn) (e # es) (supervisor_new, d) =
      ip_ready_step spawn e (supervisor_new, d)"
    by (rule app_services.fires_once)
  let ?l = "[Spawn T_Http_Api, Spawn T_Time_Sync, Spawn T_Heartbeat, Spawn T_Log_Stream]"
  obtain r d' where run: "on_ip_ready spawn supervisor_new d = (r, d')" by force
  note spec = wp_run [OF on_ip_ready_spec run]
  show "\<exists>k \<le> 4. calls (snd (ip_ready_step spawn e (supervisor_new, d))) = calls d @ take k ?l \<and>
      (fst (on_ip_ready spawn supervisor_new d) \<noteq> Exits Panicked \<longrightarrow> k = 4)"
  proof (cases r)
    case (Returns self')
    then have "calls d' = calls d @ take 4 ?l"
      using spec by (simp add: supervisor_new_def)
    then show ?thesis
      using Returns by (auto simp: ip_ready_step_def run intro!: exI [of _ 4])
  next
    case (Exits x)
    then obtain k where "x = Panicked" "k < 4" "calls d' = calls d @ take k ?l"
      using spec by auto
    then show ?thesis
      using Exits by (auto simp: ip_ready_step_def run intro!: exI [of _ k])
  qed
qed

theorem ip_services_start_once_witness:
  "calls (snd (run_steps (ip_ready_step (\<lambda>_ w. (Ok (), w))) [(), (), ()]
     (supervisor_new, \<lparr>world = (), STATE = 2, calls = []\<rparr>))) =
   [Spawn T_Http_Api, Spawn T_Time_Sync, Spawn T_Heartbeat, Spawn T_Log_Stream]"
proof -
  let ?spawn = "\<lambda>(_ :: task) (w :: unit). (Ok () :: (unit, unit) result, w)"
  let ?d = "\<lparr>world = (), STATE = 2, calls = []\<rparr> :: unit device"
  have "fst (on_ip_ready ?spawn supervisor_new ?d) \<noteq> Exits Panicked"
    by (simp add: on_ip_ready_def supervisor_new_def Let_def act_seq_def act_bind_def act_spawn_def
        act_read_def act_call_def act_return_def)
  with ip_services_start_once [of ?spawn "()" "[(), ()]" ?d] show ?thesis by auto
qed

text \<open>
  One reboot. Of any number of reboot requests, from any routes in any order, the first
  spawns the reboot task and the others do nothing; so a device that was asked to reboot does
  reboot, once.
\<close>

theorem reboot_happens_once:
  "reboots (run_steps schedule_reboot reqs esp_reboot_new) = (if reqs = [] then 0 else 1)"
proof (cases reqs)
  case Nil
  then show ?thesis by (simp add: esp_reboot_new_def)
next
  case (Cons r rs)
  then have "run_steps schedule_reboot reqs esp_reboot_new = schedule_reboot r esp_reboot_new"
    by (simp only: reboot.fires_once)
  then show ?thesis using Cons by (simp add: schedule_reboot_def esp_reboot_new_def Let_def)
qed

end
