(* ===== verification/Http_Api.thy ===== *)
theory Http_Api
  imports Agent_Info Supervisor
begin

text \<open>
  \<open>src/http/api.rs\<close> and the response helpers of \<open>src/http/mod.rs\<close>: the routes of \<open>/v1alpha1\<close>
  the agent answers itself, each behind the Bearer check. The OTA, Workload and TLS routes are
  mounted from other crates; what the agent supplies to them is in \<open>Composition\<close>. JSON is
  \<open>serde_json\<close>'s: (de)serialisers are parameters.
\<close>

section \<open>Responses\<close>

datatype status_code = OK | BAD_REQUEST | UNAUTHORIZED | LOCKED | INTERNAL_SERVER_ERROR

record response =
  status :: status_code
  body :: bytes

definition json_ok :: "bytes \<Rightarrow> response" where
  "json_ok b = \<lparr>status = OK, body = b\<rparr>"

definition json_error :: "status_code \<Rightarrow> bytes \<Rightarrow> response" where
  "json_error code b = \<lparr>status = code, body = b\<rparr>"

definition unauthorized :: response where
  "unauthorized = json_error UNAUTHORIZED (lit ''{\"error\":\"unauthorized\"}'')"

section \<open>The server\<close>

text \<open>What the handlers capture: configuration spaces, services, and the JSON functions.\<close>

record 'w api =
  ap_ct_eq :: "bytes \<Rightarrow> bytes \<Rightarrow> bool"
  ap_agent :: "'w config_space"
  ap_app :: "'w config_space"
  ap_ota :: "'w config_space"
  ap_runtime :: "'w runtime_config"
  ap_ota_service :: "'w ota_service"
  ap_source :: "'w info_source"
  ap_healthy :: "'w \<Rightarrow> bool"
  ap_info_json :: "info \<Rightarrow> bytes option"
  ap_health_json :: "health \<Rightarrow> bytes option"
  ap_view_json :: "config_view \<Rightarrow> bytes option"
  ap_push_of_json :: "bytes \<Rightarrow> config_push option"
  ap_token_of_json :: "bytes \<Rightarrow> bytes option"
  ap_port_of_json :: "bytes \<Rightarrow> u32 option"

text \<open>What they act on: the stored values, the device state, and the one-shot reboot.\<close>

record 'w server =
  srv_world :: 'w
  srv_STATE :: u8
  srv_reboot :: esp_reboot

definition unwrap_or_default :: "bytes option \<Rightarrow> bytes" where
  "unwrap_or_default x = (case x of None \<Rightarrow> [] | Some b \<Rightarrow> b)"

text \<open>The check every handler starts with: \<open>token.as_deref().unwrap_or("")\<close> must be authorized.\<close>

definition guarded ::
  "'w api \<Rightarrow> bytes option \<Rightarrow> ('w server \<Rightarrow> response \<times> 'w server) \<Rightarrow> 'w server \<Rightarrow> response \<times> 'w server" where
  "guarded ap tok handler s =
     (case is_authorized (ap_ct_eq ap) (ap_agent ap) (unwrap_or_default tok) (srv_world s) of
        (False, w) \<Rightarrow> (unauthorized, s\<lparr>srv_world := w\<rparr>)
      | (True, w) \<Rightarrow> handler (s\<lparr>srv_world := w\<rparr>))"

definition info_handler :: "'w api \<Rightarrow> 'w server \<Rightarrow> response \<times> 'w server" where
  "info_handler ap s =
    (case agent_info (ap_source ap) (ap_ota_service ap) (ap_agent ap) (ap_app ap) (ap_runtime ap)
            (ap_ota ap) (srv_STATE s) (srv_world s) of
       (i, w) \<Rightarrow> (json_ok (unwrap_or_default (ap_info_json ap i)), s\<lparr>srv_world := w\<rparr>))"

definition get_info :: "'w api \<Rightarrow> bytes option \<Rightarrow> 'w server \<Rightarrow> response \<times> 'w server" where
  "get_info ap tok = guarded ap tok (info_handler ap)"

definition health_handler :: "'w api \<Rightarrow> 'w server \<Rightarrow> response \<times> 'w server" where
  "health_handler ap s =
    ((json_ok (unwrap_or_default
        (ap_health_json ap (agent_health (ap_healthy ap) (srv_STATE s) (srv_world s)))), s))"

definition get_health :: "'w api \<Rightarrow> bytes option \<Rightarrow> 'w server \<Rightarrow> response \<times> 'w server" where
  "get_health ap tok = guarded ap tok (health_handler ap)"

definition view_handler :: "'w api \<Rightarrow> 'w server \<Rightarrow> response \<times> 'w server" where
  "view_handler ap s =
    (case runtime_view (ap_runtime ap) (srv_world s) of
       (Ok view, w) \<Rightarrow> (json_ok (unwrap_or_default (ap_view_json ap view)), s\<lparr>srv_world := w\<rparr>)
     | (Err _, w) \<Rightarrow>
         (json_error INTERNAL_SERVER_ERROR (lit ''{\"error\":\"nvs_read_failed\"}''), s\<lparr>srv_world := w\<rparr>))"

definition get_config :: "'w api \<Rightarrow> bytes option \<Rightarrow> 'w server \<Rightarrow> response \<times> 'w server" where
  "get_config ap tok = guarded ap tok (view_handler ap)"

definition config_handler :: "'w api \<Rightarrow> bytes \<Rightarrow> 'w server \<Rightarrow> response \<times> 'w server" where
  "config_handler ap req_body s =
    (case ap_push_of_json ap req_body of
       None \<Rightarrow> (json_error BAD_REQUEST (lit ''{\"error\":\"missing_data_field\"}''), s)
     | Some push \<Rightarrow>
         (case runtime_apply (ap_runtime ap) push (srv_world s) of
            (Err _, w) \<Rightarrow>
              (json_error INTERNAL_SERVER_ERROR (lit ''{\"error\":\"nvs_write_failed\"}''), s\<lparr>srv_world := w\<rparr>)
          | (Ok g, w) \<Rightarrow>
              (json_ok (lit ''{\"status\":\"saved\",\"generation\":'' @ fmt_dec (unat g) @
                 lit '',\"note\":\"effective_after_reboot\"}''), s\<lparr>srv_world := w\<rparr>)))"

definition post_config :: "'w api \<Rightarrow> bytes option \<Rightarrow> bytes \<Rightarrow> 'w server \<Rightarrow> response \<times> 'w server" where
  "post_config ap tok req_body = guarded ap tok (config_handler ap req_body)"

definition token_handler :: "'w api \<Rightarrow> bytes \<Rightarrow> 'w server \<Rightarrow> response \<times> 'w server" where
  "token_handler ap req_body s =
    (case ap_token_of_json ap req_body of
       None \<Rightarrow> (json_error BAD_REQUEST (lit ''{\"error\":\"missing_token\"}''), s)
     | Some t \<Rightarrow>
         (case rotate_token (ap_agent ap) t (srv_world s) of
            (Ok _, w) \<Rightarrow> (json_ok (lit ''{\"status\":\"rotated\"}''), s\<lparr>srv_world := w\<rparr>)
          | (Err InvalidLength, w) \<Rightarrow>
              (json_error BAD_REQUEST (lit ''{\"error\":\"token must be 8-64 chars\"}''), s\<lparr>srv_world := w\<rparr>)
          | (Err WriteFailed, w) \<Rightarrow>
              (json_error INTERNAL_SERVER_ERROR (lit ''{\"error\":\"nvs_write_failed\"}''),
               s\<lparr>srv_world := w\<rparr>)))"

definition post_token :: "'w api \<Rightarrow> bytes option \<Rightarrow> bytes \<Rightarrow> 'w server \<Rightarrow> response \<times> 'w server" where
  "post_token ap tok req_body = guarded ap tok (token_handler ap req_body)"

definition reboot_handler :: "'w api \<Rightarrow> 'w server \<Rightarrow> response \<times> 'w server" where
  "reboot_handler ap s =
    ((json_ok (lit ''{\"status\":\"rebooting\"}''),
      s\<lparr>srv_reboot := schedule_reboot () (srv_reboot s)\<rparr>))"

definition post_reboot :: "'w api \<Rightarrow> bytes option \<Rightarrow> 'w server \<Rightarrow> response \<times> 'w server" where
  "post_reboot ap tok = guarded ap tok (reboot_handler ap)"

definition app_port_handler :: "'w api \<Rightarrow> bytes \<Rightarrow> 'w server \<Rightarrow> response \<times> 'w server" where
  "app_port_handler ap req_body s =
    (case ap_port_of_json ap req_body of
       None \<Rightarrow> (json_error BAD_REQUEST (lit ''{\"error\":\"missing_port\"}''), s)
     | Some port \<Rightarrow>
         if \<not> (1024 \<le> port \<and> port \<le> 65535) then
           (json_error BAD_REQUEST (lit ''{\"error\":\"port must be 1024-65535\"}''), s)
         else case save_port (ap_app ap) (ucast port) (srv_world s) of
           (Err _, w) \<Rightarrow>
             (json_error INTERNAL_SERVER_ERROR (lit ''{\"error\":\"nvs_write_failed\"}''), s\<lparr>srv_world := w\<rparr>)
         | (Ok _, w) \<Rightarrow>
             (json_ok (lit ''{\"status\":\"saved\",\"port\":'' @ fmt_dec (unat port) @ lit ''}''),
              s\<lparr>srv_world := w\<rparr>))"

definition post_app_port :: "'w api \<Rightarrow> bytes option \<Rightarrow> bytes \<Rightarrow> 'w server \<Rightarrow> response \<times> 'w server" where
  "post_app_port ap tok req_body = guarded ap tok (app_port_handler ap req_body)"

text \<open>The router's own routes, with the Bearer token presented and the body.\<close>

datatype route =
    Get_Info | Get_Health | Get_Config | Post_Config bytes | Post_Token bytes
  | Post_Reboot | Post_App_Port bytes

record request =
  bearer :: "bytes option"
  target :: route

definition serve_request :: "'w api \<Rightarrow> request \<Rightarrow> 'w server \<Rightarrow> response \<times> 'w server" where
  "serve_request ap req =
     (case target req of
        Get_Info \<Rightarrow> get_info ap (bearer req)
      | Get_Health \<Rightarrow> get_health ap (bearer req)
      | Get_Config \<Rightarrow> get_config ap (bearer req)
      | Post_Config b \<Rightarrow> post_config ap (bearer req) b
      | Post_Token b \<Rightarrow> post_token ap (bearer req) b
      | Post_Reboot \<Rightarrow> post_reboot ap (bearer req)
      | Post_App_Port b \<Rightarrow> post_app_port ap (bearer req) b)"

section \<open>What the server relies on\<close>

definition api_law ::
  "(space_name \<Rightarrow> 'w config_space) \<Rightarrow> (space_name \<Rightarrow> 'w \<Rightarrow> snapshot option) \<Rightarrow> 'w api \<Rightarrow> bool" where
  "api_law cs stored ap \<longleftrightarrow>
     config_space_law cs stored \<and> ct_eq_law (ap_ct_eq ap) \<and>
     ap_agent ap = cs Agent \<and> ap_app ap = cs App \<and> ap_ota ap = cs Ota \<and>
     rc_space (ap_runtime ap) = cs Runtime \<and>
     info_law stored (ap_source ap) (ap_ota_service ap) (cs Ota) \<and>
     (\<forall>b push. ap_push_of_json ap b = Some push \<longrightarrow> push_ok push) \<and>
     (\<forall>b t. ap_token_of_json ap b = Some t \<longrightarrow> utf8 t)"

text \<open>A token the stored configuration accepts.\<close>

definition token_accepted :: "snapshot option \<Rightarrow> bytes \<Rightarrow> bool" where
  "token_accepted s p \<longleftrightarrow> (\<exists>c. agent_view s = Some c \<and> cfg_token c = p \<and> p \<noteq> [])"

definition presented :: "request \<Rightarrow> bytes" where
  "presented req = unwrap_or_default (bearer req)"

text \<open>Same stored values, device state and pending reboot.\<close>

definition untouched ::
  "(space_name \<Rightarrow> 'w \<Rightarrow> snapshot option) \<Rightarrow> 'w server \<Rightarrow> 'w server \<Rightarrow> bool" where
  "untouched stored s s' \<longleftrightarrow>
     (\<forall>m. stored m (srv_world s') = stored m (srv_world s)) \<and> srv_STATE s' = srv_STATE s \<and>
     srv_reboot s' = srv_reboot s"

lemma serve_request_guarded:
  "\<exists>handler. serve_request ap req = guarded ap (bearer req) handler"
  by (cases "target req")
     (auto simp: serve_request_def get_info_def get_health_def get_config_def post_config_def
       post_token_def post_reboot_def post_app_port_def)

lemma guarded_refuses:
  assumes law: "api_law cs stored ap"
    and no: "\<not> token_accepted (stored Agent (srv_world s)) (unwrap_or_default tok)"
  shows "\<exists>s'. guarded ap tok handler s = (unauthorized, s') \<and> untouched stored s s'"
proof -
  have cs: "config_space_law cs stored" "ct_eq_law (ap_ct_eq ap)" "ap_agent ap = cs Agent"
    using law by (simp_all add: api_law_def)
  obtain b w where auth: "is_authorized (ap_ct_eq ap) (cs Agent) (unwrap_or_default tok) (srv_world s) = (b, w)"
    by force
  have "\<not> b"
  proof
    assume b
    with auth have "is_authorized (ap_ct_eq ap) (cs Agent) (unwrap_or_default tok) (srv_world s) = (True, w)"
      by simp
    from is_authorized_True [OF cs(1,2) this] no show False by (simp add: token_accepted_def)
  qed
  then show ?thesis
    using auth cs(3) is_authorized_keeps [OF cs(1) auth]
    by (simp add: guarded_def untouched_def)
qed

lemma serve_refuses:
  assumes "api_law cs stored ap" and "\<not> token_accepted (stored Agent (srv_world s)) (presented req)"
  shows "\<exists>s'. serve_request ap req s = (unauthorized, s') \<and> untouched stored s s'"
  using serve_request_guarded [of ap req] guarded_refuses [OF assms(1)] assms(2)
  unfolding presented_def by metis

lemma guarded_passes:
  assumes law: "api_law cs stored ap" and run: "guarded ap tok handler s = (r, s')"
    and r: "status r \<noteq> UNAUTHORIZED"
  obtains w where "token_accepted (stored Agent (srv_world s)) (unwrap_or_default tok)"
    "\<forall>m. stored m w = stored m (srv_world s)" "handler (s\<lparr>srv_world := w\<rparr>) = (r, s')"
proof -
  have cs: "config_space_law cs stored" "ct_eq_law (ap_ct_eq ap)" "ap_agent ap = cs Agent"
    using law by (simp_all add: api_law_def)
  obtain b w where auth: "is_authorized (ap_ct_eq ap) (cs Agent) (unwrap_or_default tok) (srv_world s) = (b, w)"
    by force
  have b
    using run r auth cs(3) by (cases b) (auto simp: guarded_def unauthorized_def json_error_def)
  with auth have yes: "is_authorized (ap_ct_eq ap) (cs Agent) (unwrap_or_default tok) (srv_world s) = (True, w)"
    by simp
  show thesis
  proof (rule that)
    show "token_accepted (stored Agent (srv_world s)) (unwrap_or_default tok)"
      using is_authorized_True [OF cs(1,2) yes] by (simp add: token_accepted_def)
    show "\<forall>m. stored m w = stored m (srv_world s)"
      by (simp add: is_authorized_keeps [OF cs(1) auth])
    show "handler (s\<lparr>srv_world := w\<rparr>) = (r, s')"
      using run yes cs(3) by (simp add: guarded_def)
  qed
qed

section \<open>Properties\<close>

subsection \<open>Without the token\<close>

text \<open>
  A request that does not present the stored token is answered \<open>401\<close>, on every route, and
  changes no stored value, schedules no reboot and leaves the device state alone. In particular
  a request without a token is refused, and a device without a token refuses everything.
\<close>

theorem unauthorized_request_refused:
  assumes "api_law cs stored ap"
    and "\<not> (\<exists>c. agent_view (stored Agent (srv_world s)) = Some c \<and>
           cfg_token c = presented req \<and> presented req \<noteq> [])"
  shows "fst (serve_request ap req s) = unauthorized \<and>
    untouched stored s (snd (serve_request ap req s))"
  using serve_refuses [OF assms(1), of s req] assms(2) by (auto simp: token_accepted_def)

text \<open>A server on the in-memory provider, with JSON functions that read and write raw bytes.\<close>

definition demo_api :: "ram api" where
  "demo_api = \<lparr>ap_ct_eq = (=), ap_agent = ram_space Agent, ap_app = ram_space App,
     ap_ota = ram_space Ota, ap_runtime = boot_rc, ap_ota_service = \<lparr>
       svc_bootstrap_state = (\<lambda>_ w. (Ok Production, w)), svc_begin_provisioning = (\<lambda>_ w. (Ok (), w)),
       svc_ready_for_agent = (\<lambda>_ w. (Ok (), w)), svc_production = (\<lambda>_ w. (Ok (), w)),
       svc_load_metadata = (\<lambda>_ w. (Err (), w)), svc_clear_staged = (\<lambda>_ w. (Ok (), w)),
       svc_staged_default = \<lparr>staged_stage = lit ''none'', staged_slot = [], staged_digest = [],
         staged_deployment_id = []\<rparr>,
       svc_pending_check = (\<lambda>_ w. (PC_Confirm, w)), svc_confirm_pending = (\<lambda>_ w. (Conf_Valid, w)),
       svc_reject_pending = (\<lambda>w. ((), w)),
       svc_on_boot = (\<lambda>_ w. (\<lparr>br_status = BS_Stable, br_storage_healthy = None\<rparr>, w))\<rparr>,
     ap_source = \<lparr>src_active_slot = (\<lambda>w. (lit ''ota_0'', w)),
       src_boot_info = (\<lambda>w. (\<lparr>snap_slot = lit ''ota_0'', snap_seq = 1, snap_state = lit ''valid''\<rparr>, w)),
       src_chip_name = lit ''esp32s3'', src_ram_size = 524288, src_partition_layout = lit ''dual'',
       src_hardware_id = lit ''a1''\<rparr>,
     ap_healthy = (\<lambda>_. True), ap_info_json = (\<lambda>i. Some (info_node_id i)),
     ap_health_json = (\<lambda>h. Some (health_status h)), ap_view_json = (\<lambda>_. Some []),
     ap_push_of_json = (\<lambda>b. if b = [] then None else Some sample_push),
     ap_token_of_json = from_utf8, ap_port_of_json = (\<lambda>b. if b = [] then None else Some (of_nat (length b)))\<rparr>"

lemma demo_api_law: "api_law ram_space (\<lambda>n w. cells w n) demo_api"
  using sample_push_ok ram_law
  by (auto simp: api_law_def demo_api_def ct_eq_law_def info_law_def reads_only_def split: if_splits)

definition demo_server :: "ram server" where
  "demo_server = \<lparr>srv_world = sample_ram, srv_STATE = 2, srv_reboot = esp_reboot_new\<rparr>"

theorem unauthorized_request_refused_witness:
  "fst (serve_request demo_api \<lparr>bearer = None, target = Post_Reboot\<rparr> demo_server) = unauthorized \<and>
   reboots (srv_reboot (snd (serve_request demo_api \<lparr>bearer = None, target = Post_Reboot\<rparr> demo_server))) = 0"
  using unauthorized_request_refused [OF demo_api_law, of demo_server
      "\<lparr>bearer = None, target = Post_Reboot\<rparr>"]
  by (simp add: presented_def unwrap_or_default_def untouched_def)
     (simp add: demo_server_def esp_reboot_new_def)

definition serve_step :: "'w api \<Rightarrow> request \<Rightarrow> 'w server \<Rightarrow> 'w server" where
  "serve_step ap req s = snd (serve_request ap req s)"

lemma untouched_refl [simp]: "untouched stored s s"
  by (simp add: untouched_def)

lemma untouched_trans: "untouched stored s s' \<Longrightarrow> untouched stored s' s'' \<Longrightarrow> untouched stored s s''"
  by (simp add: untouched_def)

interpretation strangers: step_invariant "serve_step ap"
  "\<lambda>s. api_law cs stored ap \<and> untouched stored s0 s"
  "\<lambda>req. \<not> token_accepted (stored Agent (srv_world s0)) (presented req)" for ap cs stored s0
proof (unfold_locales, elim conjE, intro conjI)
  fix req s
  assume req: "\<not> token_accepted (stored Agent (srv_world s0)) (presented req)"
    and law: "api_law cs stored ap" and s: "untouched stored s0 s"
  show "api_law cs stored ap" by (rule law)
  have "\<not> token_accepted (stored Agent (srv_world s)) (presented req)"
    using req s by (simp add: untouched_def)
  then obtain s' where "serve_request ap req s = (unauthorized, s')" and "untouched stored s s'"
    using serve_refuses [OF law] by blast
  then show "untouched stored s0 (serve_step ap req s)"
    using untouched_trans [OF s] by (simp add: serve_step_def)
qed

text \<open>
  Without the token the API cannot be used to change anything. After any sequence of requests
  none of which presents the token stored at the start, every stored value, the device state and
  the reboot are as they were.
\<close>

theorem strangers_change_nothing:
  assumes "api_law cs stored ap"
    and "list_all (\<lambda>req. \<not> token_accepted (stored Agent (srv_world s)) (presented req)) reqs"
  shows "untouched stored s (run_steps (serve_step ap) reqs s)"
  using strangers.run_keeps [of stored s reqs cs ap s] assms by simp

theorem strangers_change_nothing_witness:
  "untouched (\<lambda>n w. cells w n) demo_server (run_steps (serve_step demo_api)
     [\<lparr>bearer = None, target = Post_Token (lit ''0000000000'')\<rparr>,
      \<lparr>bearer = Some (lit ''guess''), target = Post_Config []\<rparr>] demo_server)"
proof (rule strangers_change_nothing [OF demo_api_law])
  have "cfg_token sample_config \<noteq> lit ''guess''"
    by (simp add: sample_config_def lit_def)
  then show "list_all (\<lambda>req. \<not> token_accepted (cells (srv_world demo_server) Agent) (presented req))
      [\<lparr>bearer = None, target = Post_Token (lit ''0000000000'')\<rparr>,
       \<lparr>bearer = Some (lit ''guess''), target = Post_Config []\<rparr>]"
    by (simp add: token_accepted_def presented_def unwrap_or_default_def demo_server_def)
qed

subsection \<open>With the token\<close>

lemma token_handler_OK:
  assumes run: "token_handler ap b s = (r, s')" and ok: "status r = OK"
  shows "\<exists>t. ap_token_of_json ap b = Some t \<and>
    rotate_token (ap_agent ap) t (srv_world s) = (Ok (), srv_world s')"
proof (cases "ap_token_of_json ap b")
  case None
  with run ok show ?thesis by (auto simp: token_handler_def json_error_def)
next
  case (Some t)
  obtain q w where rot: "rotate_token (ap_agent ap) t (srv_world s) = (q, w)" by force
  show ?thesis
  proof (cases q)
    case (Ok u)
    then show ?thesis using Some rot run by (auto simp: token_handler_def)
  next
    case (Err e)
    then show ?thesis
      using Some rot run ok by (cases e) (auto simp: token_handler_def json_error_def)
  qed
qed

text \<open>A \<open>POST /token\<close> answered \<open>200\<close>, in terms of what is stored.\<close>

lemma post_token_OK:
  assumes law: "api_law cs stored ap"
    and run: "serve_request ap \<lparr>bearer = tok, target = Post_Token b\<rparr> s = (r, s')"
    and ok: "status r = OK"
  obtains t c where "ap_token_of_json ap b = Some t" "8 \<le> length t" "length t \<le> 64"
    "token_accepted (stored Agent (srv_world s)) (unwrap_or_default tok)"
    "agent_view (stored Agent (srv_world s')) = Some c" "cfg_token c = t"
proof -
  have cs: "config_space_law cs stored" "ap_agent ap = cs Agent"
    and u8: "\<And>b t. ap_token_of_json ap b = Some t \<Longrightarrow> utf8 t"
    using law by (simp_all add: api_law_def)
  have g: "guarded ap tok (token_handler ap b) s = (r, s')"
    using run by (simp add: serve_request_def post_token_def)
  from ok have "status r \<noteq> UNAUTHORIZED" by simp
  then obtain w where acc: "token_accepted (stored Agent (srv_world s)) (unwrap_or_default tok)"
    and post: "token_handler ap b (s\<lparr>srv_world := w\<rparr>) = (r, s')"
    by (rule guarded_passes [OF law g])
  obtain t where t: "ap_token_of_json ap b = Some t"
    and rot: "rotate_token (cs Agent) t w = (Ok (), srv_world s')"
    using token_handler_OK [OF post ok] cs(2) by auto
  obtain c where len: "8 \<le> length t" "length t \<le> 64"
    and new: "agent_view (stored Agent (srv_world s')) = Some (rotated c t)"
    using rotate_token_cases [OF cs(1) u8 [OF t] rot] by auto
  show thesis
    by (rule that [OF t len acc new]) (simp add: rotated_def)
qed

text \<open>
  A rotation over HTTP. If \<open>POST /token\<close> answers \<open>200\<close>, the request presented the token
  stored before, the body held a token of 8 to 64 bytes, and from then on exactly that one is
  accepted: every request on any route that presents another one is answered \<open>401\<close>.
\<close>

theorem token_rotation_over_http:
  assumes law: "api_law cs stored ap"
    and run: "serve_request ap \<lparr>bearer = tok, target = Post_Token b\<rparr> s = (r, s')"
    and ok: "status r = OK"
  shows "\<exists>t. ap_token_of_json ap b = Some t \<and> 8 \<le> length t \<and> length t \<le> 64 \<and>
    token_accepted (stored Agent (srv_world s)) (unwrap_or_default tok) \<and>
    (\<forall>p. token_accepted (stored Agent (srv_world s')) p \<longleftrightarrow> p = t) \<and>
    (\<forall>req. presented req \<noteq> t \<longrightarrow> fst (serve_request ap req s') = unauthorized)"
proof -
  obtain t c where t: "ap_token_of_json ap b = Some t" "8 \<le> length t" "length t \<le> 64"
    and acc: "token_accepted (stored Agent (srv_world s)) (unwrap_or_default tok)"
    and new: "agent_view (stored Agent (srv_world s')) = Some c" "cfg_token c = t"
    by (rule post_token_OK [OF assms])
  have iff: "token_accepted (stored Agent (srv_world s')) p \<longleftrightarrow> p = t" for p
    using new t(2) by (auto simp: token_accepted_def)
  have no: "fst (serve_request ap req s') = unauthorized" if "presented req \<noteq> t" for req
    using serve_refuses [OF law, of s' req] iff that by force
  show ?thesis using t acc iff no by blast
qed

theorem token_rotation_over_http_witness:
  "\<exists>s'. serve_request demo_api \<lparr>bearer = Some (lit ''0123456789abcdef''),
       target = Post_Token (lit ''fedcba9876543210'')\<rparr> demo_server =
       (json_ok (lit ''{\"status\":\"rotated\"}''), s') \<and>
     fst (serve_request demo_api \<lparr>bearer = Some (lit ''0123456789abcdef''), target = Get_Info\<rparr> s') =
       unauthorized"
proof -
  let ?new = "lit ''fedcba9876543210''"
  let ?req = "\<lparr>bearer = Some (lit ''0123456789abcdef''), target = Post_Token ?new\<rparr>"
  have u8: "utf8 ?new" by (auto simp: lit_def intro!: ascii_utf8)
  have auth: "is_authorized (=) (ram_space Agent) (lit ''0123456789abcdef'') sample_ram = (True, sample_ram)"
    by (simp add: is_authorized_def token_def ram_load_config) (simp add: sample_config_def lit_def)
  obtain w' where rot: "rotate_token (ram_space Agent) ?new sample_ram = (Ok (), w')"
    using ram_rotate [of sample_ram sample_config, OF _ _ u8]
    by (cases "rotate_token (ram_space Agent) ?new sample_ram") simp
  let ?s' = "demo_server\<lparr>srv_world := w'\<rparr>"
  have run: "serve_request demo_api ?req demo_server = (json_ok (lit ''{\"status\":\"rotated\"}''), ?s')"
    using auth rot u8
    by (simp add: serve_request_def post_token_def token_handler_def guarded_def demo_api_def demo_server_def
        unwrap_or_default_def)
  have "presented \<lparr>bearer = Some (lit ''0123456789abcdef''), target = Get_Info\<rparr> \<noteq> ?new"
    by (simp add: presented_def unwrap_or_default_def lit_def)
  with token_rotation_over_http [OF demo_api_law run] run show ?thesis
    using u8 by (auto simp: json_ok_def demo_api_def)
qed
subsection \<open>What a route can change\<close>

text \<open>The configuration space a route writes, if any.\<close>

definition route_space :: "route \<Rightarrow> space_name option" where
  "route_space t = (case t of
     Post_Config _ \<Rightarrow> Some Runtime
   | Post_Token _ \<Rightarrow> Some Agent
   | Post_App_Port _ \<Rightarrow> Some App
   | _ \<Rightarrow> None)"

definition confined ::
  "(space_name \<Rightarrow> 'w \<Rightarrow> snapshot option) \<Rightarrow> space_name option \<Rightarrow> 'w server \<Rightarrow> 'w server \<Rightarrow> bool" where
  "confined stored n s s' \<longleftrightarrow>
     (\<forall>m. Some m \<noteq> n \<longrightarrow> stored m (srv_world s') = stored m (srv_world s)) \<and> srv_STATE s' = srv_STATE s"

lemma guarded_confined:
  assumes law: "api_law cs stored ap"
    and h: "\<And>t. confined stored n t (snd (handler t))"
  shows "confined stored n s (snd (guarded ap tok handler s))"
proof -
  have cs: "config_space_law cs stored" "ap_agent ap = cs Agent"
    using law by (simp_all add: api_law_def)
  obtain b w where auth: "is_authorized (ap_ct_eq ap) (cs Agent) (unwrap_or_default tok) (srv_world s) = (b, w)"
    by force
  note keep = is_authorized_keeps [OF cs(1) auth]
  show ?thesis
    using h [of "s\<lparr>srv_world := w\<rparr>"] keep auth cs(2)
    by (cases b) (simp_all add: guarded_def confined_def)
qed

lemma config_handler_confined:
  assumes law: "api_law cs stored ap"
  shows "confined stored (Some Runtime) s (snd (config_handler ap b s))"
proof (cases "ap_push_of_json ap b")
  case None
  then show ?thesis by (simp add: config_handler_def confined_def)
next
  case (Some push)
  have cs: "config_space_law cs stored" "rc_space (ap_runtime ap) = cs Runtime" "push_ok push"
    using law Some by (simp_all add: api_law_def)
  obtain q w where run: "runtime_apply (ap_runtime ap) push (srv_world s) = (q, w)" by force
  have "stored m w = stored m (srv_world s)" if "m \<noteq> Runtime" for m
    using cs(1-3) run by (cases rule: runtime_apply_cases) (use that in auto)
  then show ?thesis
    using Some run by (cases q) (simp_all add: config_handler_def confined_def)
qed

lemma token_handler_confined:
  assumes law: "api_law cs stored ap"
  shows "confined stored (Some Agent) s (snd (token_handler ap b s))"
proof (cases "ap_token_of_json ap b")
  case None
  then show ?thesis by (simp add: token_handler_def confined_def)
next
  case (Some t)
  have cs: "config_space_law cs stored" "ap_agent ap = cs Agent" "utf8 t"
    using law Some by (simp_all add: api_law_def)
  obtain q w where run: "rotate_token (cs Agent) t (srv_world s) = (q, w)" by force
  have "stored m w = stored m (srv_world s)" if "m \<noteq> Agent" for m
    using rotate_token_other [OF cs(1,3) run that] .
  then show ?thesis
    using Some run cs(2)
    by (cases q) (simp_all add: token_handler_def confined_def split: rotate_token_error.splits)
qed

lemma app_port_handler_confined:
  assumes law: "api_law cs stored ap"
  shows "confined stored (Some App) s (snd (app_port_handler ap b s))"
proof (cases "ap_port_of_json ap b")
  case None
  then show ?thesis by (simp add: app_port_handler_def confined_def)
next
  case (Some p)
  have cs: "config_space_law cs stored" "ap_app ap = cs App"
    using law by (simp_all add: api_law_def)
  obtain q w where run: "save_port (cs App) (ucast p) (srv_world s) = (q, w)" by force
  have "stored m w = stored m (srv_world s)" if "m \<noteq> App" for m
    using save_port_other [OF cs(1) run that] .
  then show ?thesis
    using Some run cs(2) by (cases q) (simp_all add: app_port_handler_def confined_def)
qed

lemma info_handler_confined:
  assumes law: "api_law cs stored ap"
  shows "confined stored n s (snd (info_handler ap s))"
proof -
  have cs: "config_space_law cs stored" "rc_space (ap_runtime ap) = cs Runtime"
    "info_law stored (ap_source ap) (ap_ota_service ap) (cs Ota)"
    and sp: "ap_agent ap = cs Agent" "ap_app ap = cs App" "ap_ota ap = cs Ota"
    using law by (simp_all add: api_law_def)
  obtain i w where run: "agent_info (ap_source ap) (ap_ota_service ap) (cs Agent) (cs App)
      (ap_runtime ap) (cs Ota) (srv_STATE s) (srv_world s) = (i, w)" by force
  show ?thesis
    using agent_info_keeps [OF cs(1,3,2) run] run sp by (simp add: info_handler_def confined_def)
qed

lemma view_handler_confined:
  assumes law: "api_law cs stored ap"
  shows "confined stored n s (snd (view_handler ap s))"
proof -
  have cs: "config_space_law cs stored" "rc_space (ap_runtime ap) = cs Runtime"
    using law by (simp_all add: api_law_def)
  obtain r w where run: "runtime_view (ap_runtime ap) (srv_world s) = (r, w)" by force
  show ?thesis
    using runtime_view_keeps [OF cs run] run
    by (cases r) (simp_all add: view_handler_def confined_def)
qed

lemma health_handler_confined: "confined stored n s (snd (health_handler ap s))"
  by (simp add: health_handler_def confined_def)

lemma reboot_handler_confined: "confined stored n s (snd (reboot_handler ap s))"
  by (simp add: reboot_handler_def confined_def)

lemma serve_confined:
  assumes law: "api_law cs stored ap"
  shows "confined stored (route_space (target req)) s (snd (serve_request ap req s))"
  unfolding serve_request_def
proof (cases "target req", simp_all only: route.case route_space_def get_info_def get_health_def
    get_config_def post_config_def post_token_def post_reboot_def post_app_port_def)
qed (rule guarded_confined [OF law], simp only: config_handler_confined [OF law]
      token_handler_confined [OF law] app_port_handler_confined [OF law] info_handler_confined [OF law]
      view_handler_confined [OF law] health_handler_confined reboot_handler_confined)+

text \<open>What the API keeps of a configured device.\<close>

definition configured ::
  "(space_name \<Rightarrow> 'w \<Rightarrow> snapshot option) \<Rightarrow> 'w server \<Rightarrow> bool" where
  "configured stored s \<longleftrightarrow>
     provisioned_view (stored Agent (srv_world s)) \<and> stored_map_inv (stored Runtime (srv_world s))"

lemma configured_confined:
  "confined stored (Some n) s s' \<Longrightarrow> n \<noteq> Agent \<Longrightarrow> n \<noteq> Runtime \<Longrightarrow> configured stored s \<Longrightarrow> configured stored s'"
  "confined stored None s s' \<Longrightarrow> configured stored s \<Longrightarrow> configured stored s'"
  by (auto simp: confined_def configured_def)

lemma guarded_configured:
  assumes law: "api_law cs stored ap" and s: "configured stored s"
    and h: "\<And>t. configured stored t \<Longrightarrow> configured stored (snd (handler t))"
  shows "configured stored (snd (guarded ap tok handler s))"
proof -
  have cs: "config_space_law cs stored" "ap_agent ap = cs Agent"
    using law by (simp_all add: api_law_def)
  obtain b w where auth: "is_authorized (ap_ct_eq ap) (cs Agent) (unwrap_or_default tok) (srv_world s) = (b, w)"
    by force
  have "configured stored (s\<lparr>srv_world := w\<rparr>)"
    using s is_authorized_keeps [OF cs(1) auth] by (simp add: configured_def)
  with h [OF this] show ?thesis
    using auth cs(2) by (cases b) (simp_all add: guarded_def)
qed

lemma config_handler_configured:
  assumes law: "api_law cs stored ap" and s: "configured stored s"
  shows "configured stored (snd (config_handler ap b s))"
proof (cases "ap_push_of_json ap b")
  case None
  with s show ?thesis by (simp add: config_handler_def)
next
  case (Some push)
  have cs: "config_space_law cs stored" "rc_space (ap_runtime ap) = cs Runtime" "push_ok push"
    using law Some by (simp_all add: api_law_def)
  have "stored_map_inv (stored Runtime (apply_step (ap_runtime ap) push (srv_world s)))"
    using s by (intro apply_step_inv [OF cs]) (simp add: configured_def)
  then have "stored_map_inv (stored Runtime (srv_world (snd (config_handler ap b s))))"
    using Some by (auto simp: config_handler_def apply_step_def split: prod.splits result.splits)
  with s config_handler_confined [OF law, of s b] show ?thesis
    by (simp add: configured_def confined_def)
qed

lemma token_handler_configured:
  assumes law: "api_law cs stored ap" and s: "configured stored s"
  shows "configured stored (snd (token_handler ap b s))"
proof (cases "ap_token_of_json ap b")
  case None
  with s show ?thesis by (simp add: token_handler_def)
next
  case (Some t)
  have cs: "config_space_law cs stored" "ap_agent ap = cs Agent" "utf8 t"
    using law Some by (simp_all add: api_law_def)
  obtain q w where run: "rotate_token (cs Agent) t (srv_world s) = (q, w)" by force
  have "provisioned_view (stored Agent w)"
    using s by (intro rotate_token_provisioned [OF cs(1,3) run]) (simp add: configured_def)
  then have "provisioned_view (stored Agent (srv_world (snd (token_handler ap b s))))"
    using Some run cs(2)
    by (cases q) (simp_all add: token_handler_def split: rotate_token_error.splits)
  with s token_handler_confined [OF law, of s b] show ?thesis
    by (simp add: configured_def confined_def)
qed

lemma serve_configured:
  assumes law: "api_law cs stored ap" and s: "configured stored s"
  shows "configured stored (serve_step ap req s)"
proof (cases "route_space (target req)")
  case None
  then show ?thesis
    using configured_confined(2) [OF _ s] serve_confined [OF law, of req s] by (simp add: serve_step_def)
next
  case (Some n)
  then consider (config) b where "target req = Post_Config b" | (token) b where "target req = Post_Token b"
    | (port) "n = App"
    by (auto simp: route_space_def split: route.splits)
  then show ?thesis
  proof cases
    case (config b)
    then show ?thesis
      by (auto simp: serve_step_def serve_request_def post_config_def
          intro!: guarded_configured [OF law s] config_handler_configured [OF law])
  next
    case (token b)
    then show ?thesis
      by (auto simp: serve_step_def serve_request_def post_token_def
          intro!: guarded_configured [OF law s] token_handler_configured [OF law])
  next
    case port
    then show ?thesis
      using configured_confined(1) [OF _ _ _ s] serve_confined [OF law, of req s] Some
      by (simp add: serve_step_def)
  qed
qed

definition foreign :: "space_name \<Rightarrow> bool" where
  "foreign m \<longleftrightarrow> m \<noteq> Agent \<and> m \<noteq> Runtime \<and> m \<noteq> App"

lemma serve_foreign:
  "api_law cs stored ap \<Longrightarrow> foreign m \<Longrightarrow>
   stored m (srv_world (serve_step ap req s)) = stored m (srv_world s)"
  using serve_confined [of cs stored ap req s]
  by (auto simp: serve_step_def confined_def foreign_def route_space_def split: route.splits)

lemma serve_STATE: "api_law cs stored ap \<Longrightarrow> srv_STATE (serve_step ap req s) = srv_STATE s"
  using serve_confined [of cs stored ap req s] by (simp add: serve_step_def confined_def)

interpretation requests: step_invariant "serve_step ap"
  "\<lambda>s. api_law cs stored ap \<and> configured stored s \<and> srv_STATE s = srv_STATE s0 \<and>
     (\<forall>m. foreign m \<longrightarrow> stored m (srv_world s) = stored m (srv_world s0))"
  "\<lambda>_. True" for ap cs stored s0
  by unfold_locales (elim conjE, intro conjI allI impI;
    simp add: serve_configured [of cs] serve_foreign [of cs] serve_STATE [of cs])


lemma demo_runtime_inv: "stored_map_inv (cells (srv_world demo_server) Runtime)"
proof -
  have "runtime_view_of (cells sample_ram Runtime) = Some (0, [])"
    by (simp add: sample_ram_def ram_defs runtime_view_of_def)
  then show ?thesis by (simp add: demo_server_def stored_map_inv_def bt_wf_def)
qed

subsection \<open>What a successful write stores\<close>

text \<open>The answer to an accepted push.\<close>

definition saved_answer :: "u64 \<Rightarrow> response" where
  "saved_answer g = json_ok (lit ''{\"status\":\"saved\",\"generation\":'' @ fmt_dec (unat g) @
     lit '',\"note\":\"effective_after_reboot\"}'')"

lemma config_handler_OK:
  assumes run: "config_handler ap b s = (r, s')" and ok: "status r = OK"
  shows "\<exists>push g. ap_push_of_json ap b = Some push \<and> r = saved_answer g \<and>
    runtime_apply (ap_runtime ap) push (srv_world s) = (Ok g, srv_world s')"
proof (cases "ap_push_of_json ap b")
  case None
  with run ok show ?thesis by (auto simp: config_handler_def json_error_def)
next
  case (Some push)
  obtain q w where app: "runtime_apply (ap_runtime ap) push (srv_world s) = (q, w)" by force
  show ?thesis
  proof (cases q)
    case (Ok g)
    then show ?thesis using Some app run by (auto simp: config_handler_def saved_answer_def)
  next
    case (Err e)
    then show ?thesis using Some app run ok by (auto simp: config_handler_def json_error_def)
  qed
qed

text \<open>
  A push over HTTP. If \<open>POST /config\<close> answers \<open>200\<close>, the request was authorized, its body was
  a push, and the stored map is the old map with the push merged in, at the generation the answer
  names.
\<close>

lemma post_config_OK:
  assumes law: "api_law cs stored ap"
    and run: "serve_request ap \<lparr>bearer = tok, target = Post_Config b\<rparr> s = (r, s')"
    and ok: "status r = OK"
  shows "\<exists>push g0 old g new. ap_push_of_json ap b = Some push \<and>
    token_accepted (stored Agent (srv_world s)) (unwrap_or_default tok) \<and>
    runtime_view_of (stored Runtime (srv_world s)) = Some (g0, old) \<and>
    runtime_view_of (stored Runtime (srv_world s')) = Some (g, new) \<and>
    (\<forall>k. bt_get new k = merge_spec (bt_get old) (bt_get (push_data push)) k) \<and>
    r = saved_answer g"
proof -
  have cs: "config_space_law cs stored" "rc_space (ap_runtime ap) = cs Runtime"
    and push: "\<And>b push. ap_push_of_json ap b = Some push \<Longrightarrow> push_ok push"
    using law by (simp_all add: api_law_def)
  have g: "guarded ap tok (config_handler ap b) s = (r, s')"
    using run by (simp add: serve_request_def post_config_def)
  from ok have "status r \<noteq> UNAUTHORIZED" by simp
  then obtain w where acc: "token_accepted (stored Agent (srv_world s)) (unwrap_or_default tok)"
    and w: "\<forall>m. stored m w = stored m (srv_world s)"
    and post: "config_handler ap b (s\<lparr>srv_world := w\<rparr>) = (r, s')"
    by (rule guarded_passes [OF law g])
  obtain p gen where p: "ap_push_of_json ap b = Some p" and r: "r = saved_answer gen"
    and app: "runtime_apply (ap_runtime ap) p w = (Ok gen, srv_world s')"
    using config_handler_OK [OF post ok] by auto
  from runtime_apply_merges [OF cs push [OF p] app] w acc p r show ?thesis by metis
qed

lemma demo_guarded:
  "guarded demo_api (Some (lit ''0123456789abcdef'')) h demo_server = h demo_server"
proof -
  have "is_authorized (=) (ram_space Agent) (lit ''0123456789abcdef'') sample_ram = (True, sample_ram)"
    by (simp add: is_authorized_def token_def ram_load_config) (simp add: sample_config_def lit_def)
  then show ?thesis
    by (simp add: guarded_def demo_api_def unwrap_or_default_def) (simp add: demo_server_def)
qed

lemma app_port_handler_OK:
  assumes run: "app_port_handler ap b s = (r, s')" and ok: "status r = OK"
  shows "\<exists>p. ap_port_of_json ap b = Some p \<and> 1024 \<le> p \<and> p \<le> 65535 \<and>
    save_port (ap_app ap) (ucast p) (srv_world s) = (Ok (), srv_world s')"
proof (cases "ap_port_of_json ap b")
  case None
  with run ok show ?thesis by (auto simp: app_port_handler_def json_error_def)
next
  case (Some p)
  have range: "1024 \<le> p \<and> p \<le> 65535"
    using run ok Some by (auto simp: app_port_handler_def json_error_def split: if_splits)
  obtain q w where app: "save_port (ap_app ap) (ucast p) (srv_world s) = (q, w)" by force
  show ?thesis
  proof (cases q)
    case (Ok u)
    then show ?thesis using Some app run range by (auto simp: app_port_handler_def)
  next
    case (Err e)
    then show ?thesis using Some app run ok range by (auto simp: app_port_handler_def json_error_def)
  qed
qed

text \<open>
  The service port over HTTP. If \<open>POST /app/port\<close> answers \<open>200\<close>, the port asked for was
  between 1024 and 65535, it is stored as it was asked for, nothing lost in the narrowing to 16
  bits, and every later read that reaches storage returns it.
\<close>

theorem service_port_over_http:
  assumes law: "api_law cs stored ap"
    and run: "serve_request ap \<lparr>bearer = tok, target = Post_App_Port b\<rparr> s = (r, s')"
    and ok: "status r = OK"
    and ld: "load (cs App) (srv_world s') = (Ok sn, w)"
  shows "\<exists>p. ap_port_of_json ap b = Some p \<and> 1024 \<le> p \<and> p \<le> 65535 \<and>
    app_port (cs App) (srv_world s') = (ucast p, w) \<and> unat (ucast p :: u16) = unat p"
proof -
  have cs: "config_space_law cs stored" "ap_app ap = cs App"
    using law by (simp_all add: api_law_def)
  have g: "guarded ap tok (app_port_handler ap b) s = (r, s')"
    using run by (simp add: serve_request_def post_app_port_def)
  from ok have "status r \<noteq> UNAUTHORIZED" by simp
  then obtain w1 where post: "app_port_handler ap b (s\<lparr>srv_world := w1\<rparr>) = (r, s')"
    by (rule guarded_passes [OF law g])
  obtain p where p: "ap_port_of_json ap b = Some p" "1024 \<le> p" "p \<le> 65535"
    and save: "save_port (cs App) (ucast p) w1 = (Ok (), srv_world s')"
    using app_port_handler_OK [OF post ok] cs(2) by auto
  have "unat p \<le> 65535" using p(3) by (simp add: word_le_nat_alt)
  then have "unat (ucast p :: u16) = unat p"
    by (simp add: unsigned_ucast_eq take_bit_eq_mod)
  with p save_then_app_port [OF cs(1) save ld] show ?thesis by blast
qed

theorem service_port_over_http_witness:
  "\<exists>s'. serve_request demo_api \<lparr>bearer = Some (lit ''0123456789abcdef''),
       target = Post_App_Port (replicate 2000 0)\<rparr> demo_server =
       (json_ok (lit ''{\"status\":\"saved\",\"port\":'' @ fmt_dec 2000 @ lit ''}''), s') \<and>
     fst (app_port (ram_space App) (srv_world s')) = 2000"
proof -
  let ?req = "\<lparr>bearer = Some (lit ''0123456789abcdef''), target = Post_App_Port (replicate 2000 0)\<rparr>"
  let ?w = "ram_put App (app_encode 2000) sample_ram"
  have port: "ap_port_of_json demo_api (replicate 2000 0) = Some 2000"
    by (simp add: demo_api_def)
  have save: "save_port (ap_app demo_api) 2000 (srv_world demo_server) = (Ok (), ?w)"
    by (simp add: demo_api_def demo_server_def save_port_def ram_commit)
  have run: "serve_request demo_api ?req demo_server =
      (json_ok (lit ''{\"status\":\"saved\",\"port\":'' @ fmt_dec 2000 @ lit ''}''),
       demo_server\<lparr>srv_world := ?w\<rparr>)"
    using save
    by (simp add: serve_request_def post_app_port_def demo_guarded app_port_handler_def port)
  have "load (ram_space App) ?w = (Ok (cells ?w App), ?w)"
    by (rule ram_load) simp
  with service_port_over_http [OF demo_api_law run] run port show ?thesis
    by (auto simp: json_ok_def)
qed

end
