(* ===== verification/Composition.thy ===== *)
theory Composition
  imports Ota_Facade Agent_Info
begin

text \<open>
  The composition adapters of \<open>src/composition\<close>: what the agent supplies to the OTA, Workload and
  TLS routes that other crates serve (authorization, and the translation of the engine's
  outcomes), and \<open>EspFactoryOta\<close>, through which the provisioning form stages and activates the
  preloaded agent image. The engine and the flash readers are outside the repository.
\<close>

section \<open>Authorization of the mounted routes\<close>

definition ota_authorize :: "(bytes \<Rightarrow> bytes \<Rightarrow> bool) \<Rightarrow> 'w config_space \<Rightarrow> bytes \<Rightarrow> 'w \<Rightarrow> bool \<times> 'w" where
  "ota_authorize ct_eq agent_config tok = is_authorized ct_eq agent_config tok"

definition tls_authorize :: "(bytes \<Rightarrow> bytes \<Rightarrow> bool) \<Rightarrow> 'w config_space \<Rightarrow> bytes \<Rightarrow> 'w \<Rightarrow> bool \<times> 'w" where
  "tls_authorize ct_eq agent_config tok = is_authorized ct_eq agent_config tok"

definition workload_authorize :: "(bytes \<Rightarrow> bytes \<Rightarrow> bool) \<Rightarrow> 'w config_space \<Rightarrow> bytes \<Rightarrow> 'w \<Rightarrow> bool \<times> 'w" where
  "workload_authorize ct_eq agent_config tok = is_authorized ct_eq agent_config tok"

section \<open>The OTA backend\<close>

text \<open>\<open>PrepareRequest\<close> as far as it is used, and the two constructors of \<open>PrepareResponse\<close>.\<close>

record prepare_request =
  req_chip :: bytes
  req_partition_layout :: bytes
  req_size :: u32

datatype ('t, 'r) prepare_response = Accept 't | Refuse 'r

text \<open>
  \<open>prepare\<close>: the engine compares the requested chip and layout with the device's and looks at
  the 64-bit size.
\<close>

definition ota_prepare ::
  "(bytes \<Rightarrow> bytes \<Rightarrow> bytes \<Rightarrow> bytes \<Rightarrow> u64 \<Rightarrow> 'w \<Rightarrow> ('t, 'r) result \<times> 'w)
   \<Rightarrow> bytes \<Rightarrow> bytes \<Rightarrow> prepare_request \<Rightarrow> 'w \<Rightarrow> ('t, 'r) prepare_response \<times> 'w" where
  "ota_prepare prepare chip_name partition_layout req w =
     (case prepare (req_chip req) (req_partition_layout req) chip_name partition_layout
             (ucast (req_size req)) w of
        (Ok target, w') \<Rightarrow> (Accept target, w')
      | (Err reason, w') \<Rightarrow> (Refuse reason, w'))"

datatype activate_error = AE_NotStaged | AE_DeploymentMismatch | AE_Storage

datatype activate_failure = AF_NotStaged | AF_DeploymentMismatch | AF_Storage

primrec activate_failure_of :: "activate_error \<Rightarrow> activate_failure" where
  "activate_failure_of AE_NotStaged = AF_NotStaged"
| "activate_failure_of AE_DeploymentMismatch = AF_DeploymentMismatch"
| "activate_failure_of AE_Storage = AF_Storage"

definition ota_activate ::
  "(bytes \<Rightarrow> 'w \<Rightarrow> (bytes, activate_error) result \<times> 'w) \<Rightarrow> bytes \<Rightarrow> 'w
   \<Rightarrow> (bytes, activate_failure) result \<times> 'w" where
  "ota_activate activate_staged deployment_id w =
     (case activate_staged deployment_id w of
        (Ok slot, w') \<Rightarrow> (Ok slot, w')
      | (Err e, w') \<Rightarrow> (Err (activate_failure_of e), w'))"

datatype start_error = SE_TooLarge | SE_Busy | SE_Conflict | SE_Storage

datatype begin_error = BE_TooLarge | BE_Busy | BE_Conflict | BE_Storage

primrec begin_error_of :: "start_error \<Rightarrow> begin_error" where
  "begin_error_of SE_TooLarge = BE_TooLarge"
| "begin_error_of SE_Busy = BE_Busy"
| "begin_error_of SE_Conflict = BE_Conflict"
| "begin_error_of SE_Storage = BE_Storage"

record write_target =
  target_slot :: bytes
  target_size :: u32

text \<open>
  \<open>begin\<close>: choose the inactive slot, then open the session on it; a session parameter is opaque
  here.
\<close>

definition ota_begin ::
  "('w \<Rightarrow> (write_target, unit) result \<times> 'w)
   \<Rightarrow> ('p \<Rightarrow> u64 \<Rightarrow> write_target \<Rightarrow> 'w \<Rightarrow> (unit, start_error) result \<times> 'w)
   \<Rightarrow> 'p \<Rightarrow> 'w \<Rightarrow> (unit, begin_error) result \<times> 'w" where
  "ota_begin write_target_of upload_begin params w =
     (case write_target_of w of
        (Err _, w1) \<Rightarrow> (Err BE_Busy, w1)
      | (Ok target, w1) \<Rightarrow>
          (case upload_begin params (ucast (target_size target)) target w1 of
             (Ok _, w2) \<Rightarrow> (Ok (), w2)
           | (Err e, w2) \<Rightarrow> (Err (begin_error_of e), w2)))"

datatype finish_error =
    FE_NotWriting | FE_DigestMismatch bytes | FE_Incomplete u32 | FE_Backend | FE_Storage

datatype write_finish_error = WFE_NotWriting | WFE_DigestMismatch | WFE_Incomplete | WFE_Storage

primrec write_finish_error_of :: "finish_error \<Rightarrow> write_finish_error" where
  "write_finish_error_of FE_NotWriting = WFE_NotWriting"
| "write_finish_error_of (FE_DigestMismatch computed) = WFE_DigestMismatch"
| "write_finish_error_of (FE_Incomplete durable) = WFE_Incomplete"
| "write_finish_error_of FE_Backend = WFE_Incomplete"
| "write_finish_error_of FE_Storage = WFE_Storage"

record finish_result =
  fin_written :: u32
  fin_digest :: bytes

definition ota_finish ::
  "('w \<Rightarrow> (finish_result, finish_error) result \<times> 'w) \<Rightarrow> 'w
   \<Rightarrow> (finish_result, write_finish_error) result \<times> 'w" where
  "ota_finish upload_finish w =
     (case upload_finish w of
        (Ok r, w') \<Rightarrow> (Ok \<lparr>fin_written = fin_written r, fin_digest = fin_digest r\<rparr>, w')
      | (Err e, w') \<Rightarrow> (Err (write_finish_error_of e), w'))"

text \<open>A chunk goes to the upload session as it came; so do certificates to the TLS service.\<close>

definition ota_chunk :: "(bytes \<Rightarrow> 'w \<Rightarrow> bool \<times> 'w) \<Rightarrow> bytes \<Rightarrow> 'w \<Rightarrow> bool \<times> 'w" where
  "ota_chunk upload_chunk bs w = upload_chunk bs w"

text \<open>The counters of the session, and whether it is the one a request continues.\<close>

definition ota_in_progress :: "('w \<Rightarrow> bool \<times> 'w) \<Rightarrow> 'w \<Rightarrow> bool \<times> 'w" where
  "ota_in_progress upload_in_progress w = upload_in_progress w"

definition ota_received :: "('w \<Rightarrow> u32 \<times> 'w) \<Rightarrow> 'w \<Rightarrow> u32 \<times> 'w" where
  "ota_received upload_received w = upload_received w"

definition ota_written :: "('w \<Rightarrow> u32 \<times> 'w) \<Rightarrow> 'w \<Rightarrow> u32 \<times> 'w" where
  "ota_written upload_written w = upload_written w"

definition ota_params_match :: "('p \<Rightarrow> 'w \<Rightarrow> bool \<times> 'w) \<Rightarrow> 'p \<Rightarrow> 'w \<Rightarrow> bool \<times> 'w" where
  "ota_params_match upload_params_match params w = upload_params_match params w"

definition tls_save_cert ::
  "('w config_space \<Rightarrow> bytes \<Rightarrow> bytes \<Rightarrow> 'w \<Rightarrow> (unit, 'e) result \<times> 'w) \<Rightarrow> 'w config_space
   \<Rightarrow> bytes \<Rightarrow> bytes \<Rightarrow> 'w \<Rightarrow> (unit, 'e) result \<times> 'w" where
  "tls_save_cert save_cert tls_space cert_pem key_pem w = save_cert tls_space cert_pem key_pem w"

definition tls_save_ca ::
  "('w config_space \<Rightarrow> bytes \<Rightarrow> 'w \<Rightarrow> (unit, 'e) result \<times> 'w) \<Rightarrow> 'w config_space
   \<Rightarrow> bytes \<Rightarrow> 'w \<Rightarrow> (unit, 'e) result \<times> 'w" where
  "tls_save_ca save_ca tls_space ca_pem w = save_ca tls_space ca_pem w"

section \<open>The boot information\<close>

text \<open>\<open>otadata::BootEntry\<close>, and its conversion to the snapshot \<open>/info\<close> reports.\<close>

record boot_entry =
  be_slot :: bytes
  be_seq :: u32
  be_state :: bytes

definition boot_active_slot :: "('w \<Rightarrow> bytes \<times> 'w) \<Rightarrow> 'w \<Rightarrow> bytes \<times> 'w" where
  "boot_active_slot flash_active_slot w = flash_active_slot w"

definition boot_info :: "('w \<Rightarrow> boot_entry \<times> 'w) \<Rightarrow> 'w \<Rightarrow> boot_snapshot \<times> 'w" where
  "boot_info flash_boot_info w =
     (case flash_boot_info w of (boot, w') \<Rightarrow>
        (\<lparr>snap_slot = be_slot boot, snap_seq = be_seq boot, snap_state = be_state boot\<rparr>, w'))"

section \<open>The preloaded agent image\<close>

record preloaded_agent =
  pa_size :: u32
  pa_digest :: bytes
  pa_deployment_id :: bytes

text \<open>
  What \<open>EspFactoryOta\<close> calls: \<open>metadata::parse_digest\<close>, \<open>shared_flash::hash_preloaded\<close> (the
  inactive slot's name and the SHA-256 of its first bytes), \<open>service::publish\<close> and
  \<open>service::activate_staged\<close>.
\<close>

record 'w factory_ota =
  fo_parse_digest :: "bytes \<Rightarrow> bytes option"
  fo_hash_preloaded :: "u32 \<Rightarrow> 'w \<Rightarrow> (bytes \<times> bytes, unit) result \<times> 'w"
  fo_publish :: "bytes \<Rightarrow> u64 \<Rightarrow> bytes \<Rightarrow> bytes \<Rightarrow> 'w \<Rightarrow> (unit, unit) result \<times> 'w"
  fo_activate_staged :: "bytes \<Rightarrow> 'w \<Rightarrow> (bytes, activate_error) result \<times> 'w"

definition stage_preloaded :: "'w factory_ota \<Rightarrow> preloaded_agent \<Rightarrow> ('w, (unit, unit) result) act" where
  "stage_preloaded fo img =
     (case fo_parse_digest fo (pa_digest img) of
        None \<Rightarrow> act_return (Err ())
      | Some expected \<Rightarrow>
          act_bind (act_read (fo_hash_preloaded fo (pa_size img))) (\<lambda>r. case r of
            Err _ \<Rightarrow> act_return (Err ())
          | Ok (slot, computed) \<Rightarrow>
              if computed \<noteq> expected then act_return (Err ())
              else act_call (Publish (pa_deployment_id img) (pa_size img) expected slot)
                (fo_publish fo (pa_deployment_id img) (ucast (pa_size img)) expected slot)))"

definition factory_activate :: "'w factory_ota \<Rightarrow> bytes \<Rightarrow> ('w, (unit, unit) result) act" where
  "factory_activate fo deployment_id =
     act_bind (act_call (Activate_Staged deployment_id) (fo_activate_staged fo deployment_id)) (\<lambda>r.
       case r of Ok _ \<Rightarrow> act_return (Ok ()) | Err _ \<Rightarrow> act_return (Err ()))"

text \<open>
  The law of the factory calls, over a reading \<open>slot_hash\<close> of the flash (the SHA-256 of the
  first bytes of a slot): hashing changes nothing and tells the truth; publishing and activating
  write the OTA space only.
\<close>

definition writes_only :: "(space_name \<Rightarrow> 'w \<Rightarrow> snapshot option) \<Rightarrow> space_name set \<Rightarrow> ('w \<Rightarrow> 'a \<times> 'w) \<Rightarrow> bool" where
  "writes_only stored F f \<longleftrightarrow> (\<forall>w m. m \<notin> F \<longrightarrow> stored m (snd (f w)) = stored m w)"

definition factory_law ::
  "(space_name \<Rightarrow> 'w \<Rightarrow> snapshot option) \<Rightarrow> (bytes \<Rightarrow> u32 \<Rightarrow> 'w \<Rightarrow> bytes) \<Rightarrow> 'w factory_ota \<Rightarrow> bool" where
  "factory_law stored slot_hash fo \<longleftrightarrow>
     (\<forall>n. writes_only stored {} (fo_hash_preloaded fo n)) \<and>
     (\<forall>n w slot h. fst (fo_hash_preloaded fo n w) = Ok (slot, h) \<longrightarrow> h = slot_hash slot n w) \<and>
     (\<forall>d n h slot. writes_only stored {Ota} (fo_publish fo d n h slot)) \<and>
     (\<forall>d. writes_only stored {Ota} (fo_activate_staged fo d))"

lemma stage_preloaded_spec:
  assumes law: "factory_law stored slot_hash fo"
  shows "wp (stage_preloaded fo img)
     (\<lambda>r d'. (\<forall>m. m \<noteq> Ota \<longrightarrow> stored m (world d') = stored m (world d)) \<and> STATE d' = STATE d \<and>
        (calls d' = calls d \<and> r = Err () \<or>
         (\<exists>slot h. fo_parse_digest fo (pa_digest img) = Some h \<and>
            slot_hash slot (pa_size img) (world d) = h \<and>
            calls d' = calls d @ [Publish (pa_deployment_id img) (pa_size img) h slot])))
     (\<lambda>e d'. False) d"
  using law
  by (auto simp: stage_preloaded_def wp_rules factory_law_def writes_only_def
      split: option.split result.split)

lemma factory_activate_spec:
  assumes law: "factory_law stored slot_hash fo"
  shows "wp (factory_activate fo dep)
     (\<lambda>r d'. (\<forall>m. m \<noteq> Ota \<longrightarrow> stored m (world d') = stored m (world d)) \<and> STATE d' = STATE d \<and>
        calls d' = calls d @ [Activate_Staged dep])
     (\<lambda>e d'. False) d"
  using law
  by (auto simp: factory_activate_def wp_rules factory_law_def writes_only_def split: result.split)

text \<open>
  C25: only a verified image is published. Staging the preloaded agent never leaves; it publishes at
  most once, and then the image in the slot it names hashes to exactly the digest the build
  recorded; when it reports success it has published; and it touches no space but the OTA one.
\<close>

theorem stage_preloaded_verified:
  assumes "factory_law stored slot_hash fo" and "stage_preloaded fo img d = (out, d')"
  shows "\<exists>r. out = Returns r \<and> (\<forall>m. m \<noteq> Ota \<longrightarrow> stored m (world d') = stored m (world d)) \<and>
    (r = Err () \<and> calls d' = calls d \<or>
     (\<exists>slot h. fo_parse_digest fo (pa_digest img) = Some h \<and>
        slot_hash slot (pa_size img) (world d) = h \<and>
        calls d' = calls d @ [Publish (pa_deployment_id img) (pa_size img) h slot]))"
  using stage_preloaded_spec [OF assms(1), of img d] assms(2)
  by (cases out) (auto simp: wp_def)

text \<open>A factory whose slot holds one image, of digest \<open>[7]\<close>.\<close>

definition demo_factory :: "ram factory_ota" where
  "demo_factory = \<lparr>fo_parse_digest = Some,
     fo_hash_preloaded = (\<lambda>n w. (Ok (lit ''ota_0'', [7]), w)),
     fo_publish = (\<lambda>d n h slot w. (Ok (), ram_put Ota (d @ h) w)),
     fo_activate_staged = (\<lambda>d w. (Ok (lit ''ota_0''), w))\<rparr>"

lemma demo_factory_law: "factory_law (\<lambda>n w. cells w n) (\<lambda>_ _ _. [7]) demo_factory"
  by (simp add: factory_law_def demo_factory_def writes_only_def)

theorem stage_preloaded_verified_witness:
  "\<exists>d'. stage_preloaded demo_factory \<lparr>pa_size = 4096, pa_digest = [8], pa_deployment_id = lit ''f''\<rparr>
      \<lparr>world = ram_empty, STATE = 0, calls = []\<rparr> = (Returns (Err ()), d') \<and> calls d' = []"
proof -
  let ?d = "\<lparr>world = ram_empty, STATE = 0, calls = []\<rparr> :: ram device"
  let ?img = "\<lparr>pa_size = 4096, pa_digest = [8], pa_deployment_id = lit ''f''\<rparr>"
  obtain out d' where run: "stage_preloaded demo_factory ?img ?d = (out, d')" by force
  from stage_preloaded_verified [OF demo_factory_law run] run show ?thesis
    by (auto simp: demo_factory_def)
qed

end
