(* ===== verification/Hardware_Config.thy ===== *)
theory Hardware_Config
  imports Config_Space
begin

text \<open>
  \<open>src/hardware.rs\<close>: the status-LED pin in the \<open>hardware\<close> space, five bytes
  \<open>HWC1\<close> and the pin, with \<open>0xff\<close> for no LED.
\<close>

definition hardware_MAGIC :: bytes where
  "hardware_MAGIC = lit ''HWC1''"

definition hardware_NONE :: u8 where
  "hardware_NONE = 0xff"

definition hardware_CONFIG_BUDGET :: nat where
  "hardware_CONFIG_BUDGET = 8"

text \<open>The schema test both readers make, and the pin in a buffer that passed it.\<close>

definition hardware_schema_ok :: "bytes \<Rightarrow> bool" where
  "hardware_schema_ok raw \<longleftrightarrow> length raw = 5 \<and> take 4 raw = hardware_MAGIC"

definition hardware_decode :: "bytes \<Rightarrow> u8 option option" where
  "hardware_decode raw =
     (if hardware_schema_ok raw
      then Some (if raw ! 4 \<noteq> hardware_NONE then Some (raw ! 4) else None)
      else None)"

definition hardware_encode :: "u8 option \<Rightarrow> bytes" where
  "hardware_encode gpio =
     hardware_MAGIC @ [case gpio of None \<Rightarrow> hardware_NONE | Some g \<Rightarrow> g]"

definition is_configured :: "'w config_space \<Rightarrow> 'w \<Rightarrow> bool \<times> 'w" where
  "is_configured space w =
     (case load space w of
        (Ok (Some snapshot), w') \<Rightarrow> (hardware_schema_ok (data snapshot), w')
      | (_, w') \<Rightarrow> (False, w'))"

definition led_gpio :: "'w config_space \<Rightarrow> 'w \<Rightarrow> u8 option \<times> 'w" where
  "led_gpio space w =
     (case load space w of
        (Ok (Some snapshot), w') \<Rightarrow>
          (case hardware_decode (data snapshot) of
             None \<Rightarrow> (None, w')
           | Some gpio \<Rightarrow> (gpio, w'))
      | (_, w') \<Rightarrow> (None, w'))"

definition save_led_gpio ::
  "'w config_space \<Rightarrow> u8 option \<Rightarrow> 'w \<Rightarrow> (unit, unit) result \<times> 'w" where
  "save_led_gpio space gpio w =
     (case commit space (hardware_encode gpio) w of
        (Ok _, w') \<Rightarrow> (Ok (), w')
      | (Err _, w') \<Rightarrow> (Err (), w'))"

subsection \<open>The schema\<close>

text \<open>Every pin but the sentinel can be stored.\<close>

definition hardware_valid :: "u8 option \<Rightarrow> bool" where
  "hardware_valid gpio \<longleftrightarrow> gpio \<noteq> Some hardware_NONE"

lemma hardware_encode_ok: "hardware_schema_ok (hardware_encode gpio)"
  by (simp add: hardware_schema_ok_def hardware_encode_def hardware_MAGIC_def)

lemma hardware_decode_encode:
  "hardware_decode (hardware_encode gpio) =
     Some (if gpio = Some hardware_NONE then None else gpio)"
  by (auto simp: hardware_decode_def hardware_encode_ok)
     (auto simp: hardware_encode_def hardware_MAGIC_def nth_append split: option.splits)

interpretation hw: schema "\<lambda>gpio. Some (hardware_encode gpio)" hardware_decode hardware_valid
  hardware_CONFIG_BUDGET
proof
  show "hardware_valid x \<Longrightarrow> Some (hardware_encode x) = Some bs \<Longrightarrow> hardware_decode bs = Some x"
    for x bs by (auto simp: hardware_decode_encode hardware_valid_def)
  show "Some (hardware_encode x) = Some bs \<Longrightarrow> length bs \<le> hardware_CONFIG_BUDGET" for x bs
    by (auto simp: hardware_encode_def hardware_MAGIC_def hardware_CONFIG_BUDGET_def)
  show "hardware_decode bs = Some x \<Longrightarrow> hardware_valid x" for bs x
    by (auto simp: hardware_decode_def hardware_valid_def split: if_splits)
qed

lemma led_gpio_stored:
  assumes "config_space_law cs stored" and "led_gpio (cs n) w = (r, w')" and "r \<noteq> None"
  shows "\<exists>sn. stored n w = Some sn \<and> hardware_decode (data sn) = Some r"
  using assms law_load_Ok [OF assms(1), of n w]
  by (auto simp: led_gpio_def split: prod.splits result.splits option.splits)

lemma led_gpio_keeps:
  "config_space_law cs stored \<Longrightarrow> led_gpio (cs n) w = (r, w') \<Longrightarrow> stored m w' = stored m w"
  by (auto simp: led_gpio_def dest: law_load_stored split: prod.splits result.splits option.splits)

lemma save_led_gpio_other:
  "config_space_law cs stored \<Longrightarrow> save_led_gpio (cs n) gpio w = (r, w') \<Longrightarrow> m \<noteq> n \<Longrightarrow>
   stored m w' = stored m w"
  by (auto simp: save_led_gpio_def dest: law_commit_other split: prod.splits result.splits)

lemma save_led_gpio_Ok:
  "config_space_law cs stored \<Longrightarrow> save_led_gpio (cs n) gpio w = (Ok (), w') \<Longrightarrow>
   \<exists>g. stored n w' = Some \<lparr>data = hardware_encode gpio, generation = g\<rparr>"
  by (auto simp: save_led_gpio_def dest: law_commit_Ok split: prod.splits result.splits)

lemma is_configured_iff:
  assumes "config_space_law cs stored" and "is_configured (cs n) w = (True, w')"
  shows "\<exists>sn. stored n w = Some sn \<and> hardware_schema_ok (data sn)"
  using assms law_load_Ok [OF assms(1), of n w]
  by (auto simp: is_configured_def split: prod.splits result.splits option.splits)

lemma is_configured_keeps:
  "config_space_law cs stored \<Longrightarrow> is_configured (cs n) w = (r, w') \<Longrightarrow> stored m w' = stored m w"
  by (auto simp: is_configured_def dest: law_load_stored
      split: prod.splits result.splits option.splits)

subsection \<open>Properties\<close>

text \<open>
  Saving an LED choice and reading it back returns it, for every pin but the sentinel
  \<open>0xff\<close> (which the form uses for "no LED" and reads back as no LED), whatever was
  stored before; and the hardware then counts as configured, an explicit "no LED" included.
\<close>

theorem save_then_led_gpio:
  assumes "config_space_law cs stored"
    and "save_led_gpio (cs Hardware) gpio w = (Ok (), w1)"
    and "load (cs Hardware) w1 = (Ok s, w2)"
  shows "led_gpio (cs Hardware) w1 = (if gpio = Some 0xff then None else gpio, w2) \<and>
    is_configured (cs Hardware) w1 = (True, w2)"
  using save_led_gpio_Ok [OF assms(1,2)] law_load_Ok [OF assms(1,3)] assms(3)
  by (auto simp: led_gpio_def is_configured_def hardware_decode_encode hardware_encode_ok
      hardware_NONE_def)

theorem save_then_led_gpio_witness:
  "\<exists>w1. save_led_gpio (ram_space Hardware) (Some 48) ram_empty = (Ok (), w1) \<and>
     led_gpio (ram_space Hardware) w1 = (Some 48, w1)"
proof -
  define w1 where "w1 = snd (save_led_gpio (ram_space Hardware) (Some 48) ram_empty)"
  have "save_led_gpio (ram_space Hardware) (Some 48) ram_empty = (Ok (), w1)"
    and "load (ram_space Hardware) w1 = (Ok (cells w1 Hardware), w1)"
    by (simp_all add: w1_def save_led_gpio_def ram_defs Let_def)
  with save_then_led_gpio [OF ram_law this] show ?thesis by simp
qed

end
