(* ===== verification/Boot_Agent.thy ===== *)
theory Boot_Agent
  imports Supervisor Hardware_Config App_Config Runtime_Apply Agent_Auth
begin

text \<open>
  \<open>src/bin/main.rs\<close>: the boot of the agent image, from the watchdog to the Wi-Fi
  maintenance loop. The claims come first, then the status LED, the boot decision of the OTA
  service, the local prerequisites, the dual-OTA guard, the lifecycle, and only then anything
  that serves the network. Hardware initialisation that carries no decision (clocks, timers,
  logger, heap) has no counterpart here.
\<close>

section \<open>The platform\<close>

text \<open>
  The calls \<open>main\<close> makes outside the repository: the NVS backend, the config manager's
  \<open>claim\<close>, task tokens, the Workload probe, the Wi-Fi and TLS predicates, the OTA service, and
  the Wi-Fi manager's maintenance loop, which reports link events and ends only when the
  credentials are unusable. \<open>foreign_budget\<close> is the capacity of the spaces whose schema lives
  in those crates.
\<close>

datatype link_event = Link_Down | Link_Ready

record 'w platform =
  nvs_new :: "'w \<Rightarrow> (unit, unit) result \<times> 'w"
  claim :: "space_name \<Rightarrow> nat \<Rightarrow> 'w \<Rightarrow> ('w config_space, unit) result \<times> 'w"
  foreign_budget :: "space_name \<Rightarrow> nat"
  spawn_token :: "'w spawner"
  workload_probe :: "'w \<Rightarrow> 'w workload_service \<times> 'w"
  region_dbus :: nat
  reclaimed_base :: nat
  wifi_is_provisioned :: "'w config_space \<Rightarrow> 'w \<Rightarrow> bool \<times> 'w"
  server_identity_valid :: "'w config_space \<Rightarrow> 'w \<Rightarrow> bool \<times> 'w"
  ota :: "'w ota_service"
  selfcheck_deadline :: nat
  tls_init :: "'w \<Rightarrow> unit \<times> 'w"
  wifi_construct :: "'w config_space \<Rightarrow> 'w \<Rightarrow> unit \<times> 'w"
  wifi_maintain :: "'w config_space \<Rightarrow> 'w \<Rightarrow> link_event list \<times> 'w"

section \<open>The phases of main\<close>

definition claim_space :: "'w platform \<Rightarrow> space_name \<Rightarrow> nat \<Rightarrow> ('w, 'w config_space) act" where
  "claim_space P n budget = act_expect (act_call (Claim n) (claim P n budget))"

record 'w spaces =
  hardware_config :: "'w config_space"
  app_config :: "'w config_space"
  agent_config_space :: "'w config_space"
  lifecycle_config :: "'w config_space"
  ota_config :: "'w config_space"
  runtime_cfg :: "'w runtime_config"
  tls_config :: "'w config_space"
  wifi_config :: "'w config_space"

definition claim_spaces :: "'w platform \<Rightarrow> ('w, 'w spaces) act" where
  "claim_spaces P =
     act_bind (claim_space P Hardware hardware_CONFIG_BUDGET) (\<lambda>hw.
     act_bind (claim_space P App app_CONFIG_BUDGET) (\<lambda>app.
     act_bind (claim_space P Agent agent_CONFIG_BUDGET) (\<lambda>ag.
     act_bind (claim_space P Lifecycle (foreign_budget P Lifecycle)) (\<lambda>lc.
     act_bind (claim_space P Ota (foreign_budget P Ota)) (\<lambda>ot.
     act_bind (claim_space P Runtime runtime_CONFIG_BUDGET) (\<lambda>rs.
     act_bind (act_expect (act_read (runtime_config_new rs))) (\<lambda>rc.
     act_bind (claim_space P Tls (foreign_budget P Tls)) (\<lambda>tl.
     act_bind (claim_space P Wifi (foreign_budget P Wifi)) (\<lambda>wi.
     act_return \<lparr>hardware_config = hw, app_config = app, agent_config_space = ag,
       lifecycle_config = lc, ota_config = ot, runtime_cfg = rc, tls_config = tl,
       wifi_config = wi\<rparr>)))))))))"

text \<open>The pins the chip has: the arms of the \<open>match\<close> over the saved LED pin.\<close>

definition led_pin_exists :: "u8 \<Rightarrow> bool" where
  "led_pin_exists gpio \<longleftrightarrow> gpio \<le> 21 \<or> 38 \<le> gpio \<and> gpio \<le> 48"

definition start_led :: "'w platform \<Rightarrow> 'w spaces \<Rightarrow> ('w, unit) act" where
  "start_led P sp =
     act_bind (act_read (led_gpio (hardware_config sp))) (\<lambda>gpio. case gpio of
       None \<Rightarrow> act_return ()
     | Some pin \<Rightarrow>
         if led_pin_exists pin then act_spawn (spawn_token P) (T_Led pin)
         else act_exit Panicked)"

text \<open>The prerequisites, read in this order and no further than the first that fails.\<close>

definition prerequisites_ok :: "'w platform \<Rightarrow> 'w spaces \<Rightarrow> ('w, bool) act" where
  "prerequisites_ok P sp =
     act_bind (act_read (wifi_is_provisioned P (wifi_config sp))) (\<lambda>a.
     if \<not> a then act_return False
     else act_bind (act_read (server_identity_valid P (tls_config sp))) (\<lambda>b.
     if \<not> b then act_return False
     else act_bind (act_read (is_configured (hardware_config sp))) (\<lambda>c.
     if \<not> c then act_return False
     else act_read (is_provisioned (agent_config_space sp)))))"

definition lifecycle_gate ::
  "features \<Rightarrow> 'w platform \<Rightarrow> 'w spaces \<Rightarrow> boot_disposition \<Rightarrow> bootstrap_state \<Rightarrow> ('w, unit) act" where
  "lifecycle_gate feat P sp boot lifecycle =
     (let confirm = act_when (boot = PendingVerify)
            (confirm_pending feat (ota P) (selfcheck_deadline P) (ota_config sp))
      in case lifecycle of
           ReadyForAgent \<Rightarrow>
             act_seq confirm (act_expect (production (ota P) (lifecycle_config sp)))
         | Production \<Rightarrow> confirm
         | _ \<Rightarrow>
             act_seq (act_set_state St_Failed)
               (act_seq (act_when (boot = PendingVerify) (reject_pending (ota P)))
                  (act_exit Panicked)))"

text \<open>
  The two tests before the lifecycle: the prerequisites, and the dual-OTA guard, which an image
  that is not pending skips.
\<close>

definition check_prerequisites :: "'w platform \<Rightarrow> 'w spaces \<Rightarrow> boot_disposition \<Rightarrow> ('w, unit) act" where
  "check_prerequisites P sp boot =
     act_bind (prerequisites_ok P sp) (\<lambda>ok.
     act_when (\<not> ok)
       (act_seq (act_set_state St_Failed)
          (act_seq (act_when (boot = PendingVerify) (reject_pending (ota P)))
             (act_exit Panicked))))"

definition workload_guard ::
  "features \<Rightarrow> 'w platform \<Rightarrow> 'w workload_service \<Rightarrow> boot_disposition \<Rightarrow> ('w, unit) act" where
  "workload_guard feat P workload boot =
     (if boot = PendingVerify then
        act_bind (act_read (agent_can_run_active_workload feat workload)) (\<lambda>runs.
        act_when (\<not> runs) (act_seq (act_set_state St_Failed) (reject_pending (ota P))))
      else act_return ())"

text \<open>From the boot decision to the point where the image stays.\<close>

definition admission ::
  "features \<Rightarrow> 'w platform \<Rightarrow> 'w spaces \<Rightarrow> 'w workload_service \<Rightarrow> ('w, unit) act" where
  "admission feat P sp workload =
     act_bind (on_boot (ota P) (ota_config sp)) (\<lambda>boot.
     act_bind (act_expect (bootstrap_state_of (ota P) (lifecycle_config sp))) (\<lambda>lifecycle.
     act_seq (check_prerequisites P sp boot)
     (act_seq (workload_guard feat P workload boot)
        (lifecycle_gate feat P sp boot lifecycle))))"

definition indicate :: "status \<Rightarrow> ('w, unit) act" where
  "indicate next = act_call (Indicate next) (\<lambda>w. ((), w))"

text \<open>What the Wi-Fi manager's events do: the supervisor on each \<open>ready\<close>, the status LED.\<close>

fun link_events :: "'w platform \<Rightarrow> link_event list \<Rightarrow> supervisor \<Rightarrow> ('w, supervisor) act" where
  "link_events P [] self = act_return self"
| "link_events P (Link_Down # es) self =
     act_seq (indicate S_Connecting) (link_events P es self)"
| "link_events P (Link_Ready # es) self =
     act_bind (on_ip_ready (spawn_token P) self) (\<lambda>self'.
       act_seq (indicate S_Online) (link_events P es self'))"

definition serve_agent ::
  "features \<Rightarrow> 'w platform \<Rightarrow> 'w spaces \<Rightarrow> 'w workload_service \<Rightarrow> ('w, unit) act" where
  "serve_agent feat P sp workload =
     act_seq (act_when (test_probe_runtime feat \<or> workload_native feat)
        (act_spawn (spawn_token P) T_Reconcile))
     (act_seq (act_when (workload_native feat) (act_spawn (spawn_token P) T_Support))
     (act_seq (act_call Tls_Init (tls_init P))
     (act_seq (act_when (workload_selftest feat \<and> wl_storage_ok workload)
        (act_spawn (spawn_token P) T_Selftest))
     (act_seq (act_call Wifi_Construct (wifi_construct P (wifi_config sp)))
     (act_seq (indicate S_Connecting)
     (act_bind (act_call Wifi_Maintain (wifi_maintain P (wifi_config sp))) (\<lambda>events.
     act_bind (link_events P events supervisor_new) (\<lambda>_.
     act_seq (indicate S_Failed) (act_exit Idles)))))))))"

definition agent_main :: "features \<Rightarrow> 'w platform \<Rightarrow> ('w, unit) act" where
  "agent_main feat P =
     (let region_ok = snd (init_reclaimed_ram (region_dbus P) (reclaimed_base P)) in
     act_seq (act_call (Arm_Watchdog BOOT_WATCHDOG_DEADLINE_MS) (\<lambda>w. ((), w)))
     (act_bind (act_expect (act_read (nvs_new P))) (\<lambda>_.
     act_bind (workload_init feat (workload_probe P) region_ok) (\<lambda>(workload, control).
     act_bind (claim_spaces P) (\<lambda>sp.
     act_seq (start_led P sp)
     (act_seq (admission feat P sp workload)
        (serve_agent feat P sp workload)))))))"

end
