(* ===== verification/Boot_Policy.thy ===== *)
theory Boot_Policy
  imports Boot_Agent
begin

text \<open>
  What \<open>agent_main\<close> promises: an image is confirmed only when the device is fit for it and it
  can run the active Workload, an image that is rejected rolls back and serves nothing, and
  nothing serves the network before the image was admitted.
\<close>

section \<open>What main relies on\<close>

text \<open>
  A reading of the device outside the repository: the provider of the config spaces and their
  values, the API the active Workload requires, the tests the Wi-Fi and TLS crates make on
  their spaces, the lifecycle stored in its space, and \<open>RuntimeApi::satisfies\<close>.
\<close>

record 'w reading =
  rd_space :: "space_name \<Rightarrow> 'w config_space"
  rd_stored :: "space_name \<Rightarrow> 'w \<Rightarrow> snapshot option"
  rd_active :: "'w \<Rightarrow> runtime_api option"
  rd_wifi_ok :: "snapshot option \<Rightarrow> bool"
  rd_tls_ok :: "snapshot option \<Rightarrow> bool"
  rd_life :: "snapshot option \<Rightarrow> bootstrap_state option"
  rd_satisfies :: "runtime_api \<Rightarrow> runtime_api \<Rightarrow> bool"

text \<open>The values of the spaces outside \<open>F\<close> and the active Workload are the same.\<close>

definition kept :: "'w reading \<Rightarrow> space_name set \<Rightarrow> 'w \<Rightarrow> 'w \<Rightarrow> bool" where
  "kept M F w w' \<longleftrightarrow>
     (\<forall>m. m \<notin> F \<longrightarrow> rd_stored M m w' = rd_stored M m w) \<and> rd_active M w' = rd_active M w"

definition op_keeps :: "'w reading \<Rightarrow> space_name set \<Rightarrow> ('w \<Rightarrow> 'a \<times> 'w) \<Rightarrow> bool" where
  "op_keeps M F f \<longleftrightarrow> (\<forall>w. kept M F w (snd (f w)))"

text \<open>
  The law of the platform: claims return the space they name; readers and task tokens change
  nothing stored; the OTA service writes its own space only, reads the lifecycle that is stored
  and stores \<open>Production\<close> when it says so; the Wi-Fi and TLS predicates hold only of stored
  values that pass their test.
\<close>

definition ota_law :: "'w reading \<Rightarrow> 'w ota_service \<Rightarrow> nat \<Rightarrow> bool" where
  "ota_law M svc deadline \<longleftrightarrow>
     op_keeps M {Ota} (svc_on_boot svc (rd_space M Ota)) \<and>
     op_keeps M {Ota} (svc_pending_check svc deadline) \<and>
     op_keeps M {Ota} (svc_confirm_pending svc (rd_space M Ota)) \<and>
     op_keeps M {} (svc_bootstrap_state svc (rd_space M Lifecycle)) \<and>
     op_keeps M {Lifecycle} (svc_production svc (rd_space M Lifecycle)) \<and>
     (\<forall>w s. fst (svc_bootstrap_state svc (rd_space M Lifecycle) w) = Ok s \<longrightarrow>
        rd_life M (rd_stored M Lifecycle w) = Some s) \<and>
     (\<forall>w. fst (svc_production svc (rd_space M Lifecycle) w) = Ok () \<longrightarrow>
        rd_life M (rd_stored M Lifecycle (snd (svc_production svc (rd_space M Lifecycle) w))) =
          Some Production)"

definition workload_law :: "'w reading \<Rightarrow> 'w workload_service \<Rightarrow> bool" where
  "workload_law M svc \<longleftrightarrow>
     op_keeps M {} (wl_recover svc) \<and> op_keeps M {} (wl_active svc) \<and>
     (\<forall>w. fst (wl_active svc w) = rd_active M w) \<and> wl_satisfies svc = rd_satisfies M"

definition platform_law :: "'w reading \<Rightarrow> 'w platform \<Rightarrow> bool" where
  "platform_law M P \<longleftrightarrow>
     config_space_law (rd_space M) (rd_stored M) \<and>
     (\<forall>n. op_keeps M {} (load (rd_space M n))) \<and>
     op_keeps M {} (nvs_new P) \<and>
     (\<forall>n b. op_keeps M {} (claim P n b)) \<and>
     (\<forall>n b w s. fst (claim P n b w) = Ok s \<longrightarrow> s = rd_space M n) \<and>
     (\<forall>t. op_keeps M {} (spawn_token P t)) \<and>
     op_keeps M {} (workload_probe P) \<and>
     (\<forall>w. workload_law M (fst (workload_probe P w))) \<and>
     op_keeps M {} (wifi_is_provisioned P (rd_space M Wifi)) \<and>
     op_keeps M {} (server_identity_valid P (rd_space M Tls)) \<and>
     (\<forall>w. fst (wifi_is_provisioned P (rd_space M Wifi) w) \<longrightarrow> rd_wifi_ok M (rd_stored M Wifi w)) \<and>
     (\<forall>w. fst (server_identity_valid P (rd_space M Tls) w) \<longrightarrow> rd_tls_ok M (rd_stored M Tls w)) \<and>
     ota_law M (ota P) (selfcheck_deadline P)"

text \<open>The local prerequisites, and what the dual-OTA guard protects.\<close>

definition fit :: "'w reading \<Rightarrow> 'w \<Rightarrow> bool" where
  "fit M w \<longleftrightarrow>
     rd_wifi_ok M (rd_stored M Wifi w) \<and> rd_tls_ok M (rd_stored M Tls w) \<and>
     (\<exists>sn. rd_stored M Hardware w = Some sn \<and> hardware_schema_ok (data sn)) \<and>
     provisioned_view (rd_stored M Agent w)"

definition runs_workload :: "features \<Rightarrow> 'w reading \<Rightarrow> 'w \<Rightarrow> bool" where
  "runs_workload feat M w \<longleftrightarrow>
     (case rd_active M w of None \<Rightarrow> True | Some req \<Rightarrow> rd_satisfies M (RUNTIME_API feat) req)"

lemma kept_refl [simp]: "kept M F w w"
  by (simp add: kept_def)

lemma kept_trans: "kept M F u v \<Longrightarrow> kept M G v w \<Longrightarrow> F \<union> G \<subseteq> H \<Longrightarrow> kept M H u w"
  by (simp add: kept_def) (metis subsetD)

lemma kept_op: "op_keeps M F f \<Longrightarrow> kept M F w (snd (f w))"
  by (simp add: op_keeps_def)

lemma fit_kept: "kept M {Ota, Lifecycle} w w' \<Longrightarrow> fit M w' \<longleftrightarrow> fit M w"
  by (simp add: kept_def fit_def)

lemma runs_kept: "kept M F w w' \<Longrightarrow> runs_workload feat M w' \<longleftrightarrow> runs_workload feat M w"
  by (simp add: kept_def runs_workload_def)

section \<open>Readers of the config spaces\<close>

lemma load_derived_keeps:
  assumes "\<And>n. op_keeps M {} (load (rd_space M n))"
  shows "op_keeps M {} (led_gpio (rd_space M n))" "op_keeps M {} (is_configured (rd_space M n))"
    "op_keeps M {} (is_provisioned (rd_space M n))"
    "op_keeps M {} (runtime_config_new (rd_space M n))"
  using assms [of n] unfolding op_keeps_def
  by (auto simp: led_gpio_def is_configured_def is_provisioned_def load_config_def
      runtime_config_new_def split: prod.splits result.splits option.splits) (metis snd_conv)+

section \<open>The phases before the decision\<close>

fun early :: "call \<Rightarrow> bool" where
  "early (Arm_Watchdog _) = True"
| "early (Claim _) = True"
| "early (Spawn (T_Led _)) = True"
| "early _ = False"

definition early_run :: "'w reading \<Rightarrow> 'w device \<Rightarrow> 'w device \<Rightarrow> bool" where
  "early_run M d d' \<longleftrightarrow>
     kept M {} (world d) (world d') \<and> STATE d' = STATE d \<and>
     (\<exists>cs. calls d' = calls d @ cs \<and> list_all early cs)"

lemma early_run_trans: "early_run M d d' \<Longrightarrow> early_run M d' d'' \<Longrightarrow> early_run M d d''"
  unfolding early_run_def using kept_trans [of M "{}" "world d" "world d'" "{}" "world d''" "{}"]
  by (metis append.assoc list_all_append empty_subsetI sup_bot.right_neutral)

lemma early_run_world: "kept M {} (world d) w \<Longrightarrow> early_run M d (d\<lparr>world := w\<rparr>)"
  by (auto simp: early_run_def)

lemma early_run_call:
  "kept M {} (world d) w \<Longrightarrow> early c \<Longrightarrow> early_run M d (d\<lparr>world := w, calls := calls d @ [c]\<rparr>)"
  by (auto simp: early_run_def)

lemma early_run_preorder: "preorder_on_devices (early_run M)"
  unfolding preorder_on_devices_def
proof (intro conjI allI impI)
  show "early_run M d d" for d by (auto simp: early_run_def)
qed (rule early_run_trans)

text \<open>An early phase returns a value with \<open>P\<close> or panics, and is an early run either way.\<close>

abbreviation early_phase :: "'w reading \<Rightarrow> ('a \<Rightarrow> bool) \<Rightarrow> ('w, 'a) act \<Rightarrow> bool" where
  "early_phase M P m \<equiv> phase (early_run M) (\<lambda>e. e = Panicked) P m"

lemmas early_phase_bind = phase_bind [OF early_run_preorder]
lemmas early_phase_seq = phase_seq [OF early_run_preorder]
lemmas early_phase_return = phase_return [OF early_run_preorder]
lemmas early_phase_panic =
  phase_exit [OF early_run_preorder, of "\<lambda>e. e = Panicked" Panicked, OF refl]
lemmas early_phase_expect =
  phase_expect [OF early_run_preorder, of "\<lambda>e. e = Panicked", OF refl]

lemma early_phase_read: "op_keeps M {} f \<Longrightarrow> (\<And>w. P (fst (f w))) \<Longrightarrow> early_phase M P (act_read f)"
  by (simp add: phase_def wp_rules early_run_world kept_op)

lemma early_phase_call:
  "op_keeps M {} f \<Longrightarrow> early c \<Longrightarrow> (\<And>w. P (fst (f w))) \<Longrightarrow> early_phase M P (act_call c f)"
  by (simp add: phase_def wp_rules early_run_call kept_op)

lemma early_phase_spawn:
  "op_keeps M {} (spawn (T_Led pin)) \<Longrightarrow> early_phase M (\<lambda>_. True) (act_spawn spawn (T_Led pin))"
  unfolding act_spawn_def
  by (rule early_phase_bind [OF early_phase_read [where P = "\<lambda>_. True"]])
     (auto intro!: early_phase_call early_phase_panic simp: op_keeps_def split: result.split)

definition spaces_ok :: "'w reading \<Rightarrow> 'w spaces \<Rightarrow> bool" where
  "spaces_ok M sp \<longleftrightarrow>
     hardware_config sp = rd_space M Hardware \<and> app_config sp = rd_space M App \<and>
     agent_config_space sp = rd_space M Agent \<and> lifecycle_config sp = rd_space M Lifecycle \<and>
     ota_config sp = rd_space M Ota \<and> rc_space (runtime_cfg sp) = rd_space M Runtime \<and>
     tls_config sp = rd_space M Tls \<and> wifi_config sp = rd_space M Wifi"

lemma runtime_config_new_space: "fst (runtime_config_new space w) = Ok rc \<Longrightarrow> rc_space rc = space"
  by (auto simp: runtime_config_new_def split: prod.splits result.splits option.splits)

lemma platform_lawD:
  assumes "platform_law M P"
  shows "config_space_law (rd_space M) (rd_stored M)" "op_keeps M {} (load (rd_space M n))"
    "op_keeps M {} (nvs_new P)" "op_keeps M {} (claim P n b)"
    "fst (claim P n b w) = Ok s \<Longrightarrow> s = rd_space M n" "op_keeps M {} (spawn_token P t)"
    "op_keeps M {} (workload_probe P)" "workload_law M (fst (workload_probe P w))"
    "op_keeps M {} (wifi_is_provisioned P (rd_space M Wifi))"
    "op_keeps M {} (server_identity_valid P (rd_space M Tls))"
    "fst (wifi_is_provisioned P (rd_space M Wifi) w) \<Longrightarrow> rd_wifi_ok M (rd_stored M Wifi w)"
    "fst (server_identity_valid P (rd_space M Tls) w) \<Longrightarrow> rd_tls_ok M (rd_stored M Tls w)"
    "ota_law M (ota P) (selfcheck_deadline P)"
  using assms by (simp_all add: platform_law_def)

lemma ota_lawD:
  assumes "ota_law M svc deadline"
  shows "op_keeps M {Ota} (svc_on_boot svc (rd_space M Ota))"
    "op_keeps M {Ota} (svc_pending_check svc deadline)"
    "op_keeps M {Ota} (svc_confirm_pending svc (rd_space M Ota))"
    "op_keeps M {} (svc_bootstrap_state svc (rd_space M Lifecycle))"
    "op_keeps M {Lifecycle} (svc_production svc (rd_space M Lifecycle))"
    "fst (svc_bootstrap_state svc (rd_space M Lifecycle) w) = Ok s \<Longrightarrow>
       rd_life M (rd_stored M Lifecycle w) = Some s"
    "fst (svc_production svc (rd_space M Lifecycle) w) = Ok () \<Longrightarrow>
       rd_life M (rd_stored M Lifecycle (snd (svc_production svc (rd_space M Lifecycle) w))) =
         Some Production"
  using assms by (simp_all add: ota_law_def)

lemma claim_space_early:
  "platform_law M P \<Longrightarrow> early_phase M (\<lambda>s. s = rd_space M n) (claim_space P n b)"
  unfolding claim_space_def
  by (intro early_phase_expect early_phase_call) (auto dest: platform_lawD)

lemma claim_spaces_early:
  assumes "platform_law M P"
  shows "early_phase M (spaces_ok M) (claim_spaces P)"
proof -
  have rc: "early_phase M (\<lambda>rc. rc_space rc = rd_space M Runtime)
      (act_expect (act_read (runtime_config_new (rd_space M Runtime))))"
    using load_derived_keeps(4) [of M Runtime] platform_lawD(2) [OF assms]
    by (intro early_phase_expect early_phase_read) (simp_all add: runtime_config_new_space)
  show ?thesis
    unfolding claim_spaces_def
    by (rule early_phase_bind [OF claim_space_early [OF assms]], simp only:)+
       (rule early_phase_bind [OF rc],
        (rule early_phase_bind [OF claim_space_early [OF assms]], simp only:)+,
        rule early_phase_return, simp add: spaces_ok_def)
qed

lemma start_led_early:
  assumes "platform_law M P" and "spaces_ok M sp"
  shows "early_phase M (\<lambda>_. True) (start_led P sp)"
  unfolding start_led_def
  using assms load_derived_keeps(1) [of M Hardware] platform_lawD(2,6) [OF assms(1)]
  by (auto simp: spaces_ok_def
      intro!: early_phase_bind [OF early_phase_read [where P = "\<lambda>_. True"]]
        early_phase_return early_phase_panic early_phase_spawn split: option.split)

lemma workload_init_early:
  assumes "platform_law M P"
  shows "early_phase M (\<lambda>(svc, control). workload_law M svc) (workload_init feat (workload_probe P) ok)"
  unfolding workload_init_def act_when_def
  using platform_lawD(7,8) [OF assms]
  by (intro early_phase_bind [OF early_phase_read [where P = "workload_law M"]]
        early_phase_seq [where P = "\<lambda>_. True"] early_phase_return)
     (auto intro!: early_phase_read early_phase_return simp: workload_law_def)

section \<open>The decision\<close>

lemma on_boot_law:
  assumes "ota_law M svc deadline"
  shows "wp (on_boot svc (rd_space M Ota))
     (\<lambda>b d'. kept M {Ota} (world d) (world d') \<and> calls d' = calls d @ [Read_Boot_Status] \<and>
        (b = Stable \<longrightarrow> device_state d' \<in> {St_Running, St_Degraded}))
     (\<lambda>e d'. e = Rollback_Reset \<and> calls d' = calls d @ [Read_Boot_Status]) d"
  unfolding on_boot_def
  by (cases "br_status (fst (svc_on_boot svc (rd_space M Ota) (world d)))")
     (simp_all add: wp_rules kept_op [OF ota_lawD(1) [OF assms]])

lemma confirm_pending_law:
  assumes "ota_law M svc deadline"
  shows "wp (confirm_pending feat svc deadline (rd_space M Ota))
     (\<lambda>_ d'. kept M {Ota} (world d) (world d') \<and> device_state d' \<in> {St_Running, St_Degraded} \<and>
        calls d' = calls d @ [Pending_Check deadline, Confirm_Image])
     (\<lambda>e d'. e \<noteq> Idles \<and> calls d' \<in> (\<lambda>cs. calls d @ cs) ` {[], [Pending_Check deadline],
          [Pending_Check deadline, Confirm_Image], [Pending_Check deadline, Reject_Image]} \<and>
        (Reject_Image \<in> set (drop (length (calls d)) (calls d')) \<longrightarrow> e = Rollback_Reset)) d"
proof -
  let ?w1 = "snd (svc_pending_check svc deadline (world d))"
  have k1: "kept M {Ota} (world d) ?w1"
    by (rule kept_op [OF ota_lawD(2) [OF assms]])
  have "kept M {Ota} (world d) (snd (svc_confirm_pending svc (rd_space M Ota) ?w1))"
    by (rule kept_trans [OF k1 kept_op [OF ota_lawD(3) [OF assms]]]) simp
  then show ?thesis
    unfolding confirm_pending_def
    by (cases "fst (svc_pending_check svc deadline (world d))")
       (auto simp: wp_rules split: confirmation.split)
qed

lemma prerequisites_law:
  assumes law: "platform_law M P" and sp: "spaces_ok M sp"
  shows "wp (prerequisites_ok P sp)
     (\<lambda>b d'. kept M {} (world d) (world d') \<and> calls d' = calls d \<and> STATE d' = STATE d \<and>
        (b \<longrightarrow> fit M (world d))) E d"
proof -
  note cs = platform_lawD(1) [OF law]
  note ld = load_derived_keeps [OF platform_lawD(2) [OF law]]
  define w1 where "w1 = snd (wifi_is_provisioned P (rd_space M Wifi) (world d))"
  define w2 where "w2 = snd (server_identity_valid P (rd_space M Tls) w1)"
  define w3 where "w3 = snd (is_configured (rd_space M Hardware) w2)"
  define w4 where "w4 = snd (is_provisioned (rd_space M Agent) w3)"
  note defs = w1_def [symmetric] w2_def [symmetric] w3_def [symmetric] w4_def [symmetric]
  have k1: "kept M {} (world d) w1"
    unfolding w1_def by (rule kept_op [OF platform_lawD(9) [OF law]])
  have k2: "kept M {} (world d) w2"
    unfolding w2_def by (rule kept_trans [OF k1 kept_op [OF platform_lawD(10) [OF law]]]) simp
  have k3: "kept M {} (world d) w3"
    unfolding w3_def by (rule kept_trans [OF k2 kept_op [OF ld(2)]]) simp
  have k4: "kept M {} (world d) w4"
    unfolding w4_def by (rule kept_trans [OF k3 kept_op [OF ld(3)]]) simp
  have "fit M (world d)"
    if "fst (wifi_is_provisioned P (rd_space M Wifi) (world d))"
      "fst (server_identity_valid P (rd_space M Tls) w1)"
      "fst (is_configured (rd_space M Hardware) w2)"
      "fst (is_provisioned (rd_space M Agent) w3)"
    unfolding fit_def
  proof (intro conjI)
    show "rd_wifi_ok M (rd_stored M Wifi (world d))"
      using that(1) by (rule platform_lawD(11) [OF law])
    show "rd_tls_ok M (rd_stored M Tls (world d))"
      using platform_lawD(12) [OF law that(2)] k1 by (simp add: kept_def)
    show "\<exists>sn. rd_stored M Hardware (world d) = Some sn \<and> hardware_schema_ok (data sn)"
      using is_configured_iff [OF cs, of Hardware w2 w3] that(3) k2 w3_def
      by (simp add: kept_def prod_eq_iff)
    show "provisioned_view (rd_stored M Agent (world d))"
      using is_provisioned_True [OF cs, of Agent w3 w4] that(4) k3 w4_def
      by (simp add: kept_def prod_eq_iff)
  qed
  with k1 k2 k3 k4 show ?thesis
    using sp by (auto simp: prerequisites_ok_def wp_rules spaces_ok_def defs)
qed

text \<open>The calls of the decision, and what may have been made of them when it leaves.\<close>

fun decision :: "call \<Rightarrow> bool" where
  "decision Read_Boot_Status = True"
| "decision (Pending_Check _) = True"
| "decision Confirm_Image = True"
| "decision Reject_Image = True"
| "decision Enter_Production = True"
| "decision _ = False"

definition new_calls :: "'w device \<Rightarrow> 'w device \<Rightarrow> call list" where
  "new_calls d d' = drop (length (calls d)) (calls d')"

definition extends :: "'w device \<Rightarrow> 'w device \<Rightarrow> bool" where
  "extends d d' \<longleftrightarrow> calls d' = calls d @ new_calls d d'"

lemma extends_refl [simp]: "extends d d"
  by (simp add: extends_def new_calls_def)

lemma new_calls_append [simp]:
  "calls d' = calls d @ cs \<Longrightarrow> new_calls d d' = cs" "calls d' = calls d @ cs \<Longrightarrow> extends d d'"
  by (simp_all add: extends_def new_calls_def)

lemma extends_trans:
  "extends d d' \<Longrightarrow> extends d' d'' \<Longrightarrow> extends d d'' \<and> new_calls d d'' = new_calls d d' @ new_calls d' d''"
  unfolding extends_def by (metis append.assoc append_eq_conv_conj new_calls_def)

definition gate_exit :: "bool \<Rightarrow> call list \<Rightarrow> exit_kind \<Rightarrow> bool" where
  "gate_exit confirmable cs e \<longleftrightarrow>
     list_all decision cs \<and> e \<noteq> Idles \<and> (Confirm_Image \<in> set cs \<longrightarrow> confirmable) \<and>
     (Reject_Image \<in> set cs \<longrightarrow> e = Rollback_Reset \<and> Confirm_Image \<notin> set cs)"

lemma lifecycle_gate_law:
  assumes law: "ota_law M (ota P) (selfcheck_deadline P)" and sp: "spaces_ok M sp"
    and life: "rd_life M (rd_stored M Lifecycle (world d)) = Some lc"
  shows "wp (lifecycle_gate feat P sp boot lc)
     (\<lambda>_ d'. kept M {Ota, Lifecycle} (world d) (world d') \<and> extends d d' \<and>
        list_all decision (new_calls d d') \<and> Reject_Image \<notin> set (new_calls d d') \<and>
        (Confirm_Image \<in> set (new_calls d d') \<longleftrightarrow> boot = PendingVerify) \<and>
        rd_life M (rd_stored M Lifecycle (world d')) = Some Production \<and>
        lc \<in> {ReadyForAgent, Production} \<and>
        (if boot = PendingVerify then device_state d' \<in> {St_Running, St_Degraded}
         else device_state d' = device_state d))
     (\<lambda>e d'. extends d d' \<and>
        gate_exit (boot = PendingVerify \<and> lc \<in> {ReadyForAgent, Production}) (new_calls d d') e) d"
    (is "wp _ ?Q ?E d")
proof -
  let ?confirm = "act_when (boot = PendingVerify)
      (confirm_pending feat (ota P) (selfcheck_deadline P) (ota_config sp))"
  have confirm: "wp ?confirm
      (\<lambda>_ d'. kept M {Ota} (world d) (world d') \<and>
         (if boot = PendingVerify
          then calls d' = calls d @ [Pending_Check (selfcheck_deadline P), Confirm_Image] \<and>
            device_state d' \<in> {St_Running, St_Degraded}
          else d' = d))
      (\<lambda>e d'. extends d d' \<and> gate_exit (boot = PendingVerify) (new_calls d d') e) d"
    unfolding wp_when using sp confirm_pending_law [OF law, of feat d]
    by (auto simp: spaces_ok_def gate_exit_def elim!: wp_mono)
  show ?thesis
  proof (cases lc)
    case ReadyForAgent
    have after: "wp (act_expect (production (ota P) (lifecycle_config sp))) ?Q ?E d1"
      if "kept M {Ota} (world d) (world d1) \<and>
         (if boot = PendingVerify
          then calls d1 = calls d @ [Pending_Check (selfcheck_deadline P), Confirm_Image] \<and>
            device_state d1 \<in> {St_Running, St_Degraded}
          else d1 = d)" for d1
    proof -
      let ?w = "snd (svc_production (ota P) (rd_space M Lifecycle) (world d1))"
      have "kept M {Ota, Lifecycle} (world d) ?w"
        using that by (intro kept_trans [OF _ kept_op [OF ota_lawD(5) [OF law]]]) auto
      then show ?thesis
        using that sp ota_lawD(7) [OF law, of "world d1"] ReadyForAgent
        by (auto simp: production_def wp_rules spaces_ok_def gate_exit_def split: result.split)
    qed
    have "wp ?confirm (\<lambda>_. wp (act_expect (production (ota P) (lifecycle_config sp))) ?Q ?E) ?E d"
      using confirm by (rule wp_mono) (use after in blast, simp add: ReadyForAgent gate_exit_def)
    then show ?thesis
      by (simp only: lifecycle_gate_def Let_def ReadyForAgent bootstrap_state.case wp_seq)
  next
    case Production
    from confirm show ?thesis
      unfolding lifecycle_gate_def Let_def Production bootstrap_state.case
      using life Production by (elim wp_mono) (auto simp: kept_def gate_exit_def split: if_splits)
  qed (auto simp: lifecycle_gate_def Let_def reject_pending_def wp_rules gate_exit_def)
qed

lemma gate_exit_prefix: "decision c \<Longrightarrow> c \<noteq> Confirm_Image \<Longrightarrow> c \<noteq> Reject_Image \<Longrightarrow>
   gate_exit ok cs e \<Longrightarrow> gate_exit ok (c # cs) e"
  by (auto simp: gate_exit_def)

lemma gate_exit_mono: "gate_exit ok cs e \<Longrightarrow> (ok \<Longrightarrow> ok') \<Longrightarrow> gate_exit ok' cs e"
  by (auto simp: gate_exit_def)

lemma check_prerequisites_law:
  assumes "platform_law M P" and "spaces_ok M sp"
  shows "wp (check_prerequisites P sp boot)
     (\<lambda>_ d'. kept M {} (world d) (world d') \<and> calls d' = calls d \<and> STATE d' = STATE d \<and>
        fit M (world d))
     (\<lambda>e d'. extends d d' \<and> gate_exit False (new_calls d d') e) d"
  unfolding check_prerequisites_def wp_bind
  using prerequisites_law [OF assms]
  by (rule wp_mono) (auto simp: wp_rules reject_pending_def gate_exit_def)

lemma workload_guard_law:
  assumes "workload_law M workload"
  shows "wp (workload_guard feat P workload boot)
     (\<lambda>_ d'. kept M {} (world d) (world d') \<and> calls d' = calls d \<and> STATE d' = STATE d \<and>
        (boot = PendingVerify \<longrightarrow> runs_workload feat M (world d)))
     (\<lambda>e d'. extends d d' \<and> gate_exit False (new_calls d d') e) d"
proof -
  obtain w' where act: "wl_active workload (world d) = (rd_active M (world d), w')"
    using assms by (cases "wl_active workload (world d)") (metis workload_law_def fst_conv)
  have "kept M {} (world d) w'"
    using assms act kept_op [of M "{}" "wl_active workload" "world d"] by (simp add: workload_law_def)
  moreover have "wl_satisfies workload = rd_satisfies M"
    using assms by (simp add: workload_law_def)
  ultimately show ?thesis
    by (auto simp: workload_guard_def wp_rules reject_pending_def gate_exit_def act
        agent_can_run_active_workload_def runs_workload_def split: option.split)
qed

lemma leave_after_boot:
  assumes "calls d1 = calls d @ [Read_Boot_Status]" and "extends d1 d'"
    and "gate_exit ok (new_calls d1 d') e" and "ok \<Longrightarrow> ok'"
  shows "extends d d' \<and> gate_exit ok' (new_calls d d') e"
proof -
  have "extends d d1" "new_calls d d1 = [Read_Boot_Status]"
    using assms(1) by simp_all
  with extends_trans [OF this(1) assms(2)] show ?thesis
    using gate_exit_mono [OF gate_exit_prefix [OF _ _ _ assms(3)] assms(4)] by simp
qed

lemma admission_law:
  assumes law: "platform_law M P" and sp: "spaces_ok M sp" and wl: "workload_law M workload"
  shows "wp (admission feat P sp workload)
     (\<lambda>_ d'. kept M {Ota, Lifecycle} (world d) (world d') \<and> extends d d' \<and>
        list_all decision (new_calls d d') \<and> Reject_Image \<notin> set (new_calls d d') \<and>
        fit M (world d) \<and> rd_life M (rd_stored M Lifecycle (world d')) = Some Production \<and>
        rd_life M (rd_stored M Lifecycle (world d)) \<in> {Some ReadyForAgent, Some Production} \<and>
        device_state d' \<in> {St_Running, St_Degraded} \<and>
        (Confirm_Image \<in> set (new_calls d d') \<longrightarrow> runs_workload feat M (world d)))
     (\<lambda>e d'. extends d d' \<and>
        gate_exit (fit M (world d) \<and> runs_workload feat M (world d) \<and>
          rd_life M (rd_stored M Lifecycle (world d)) \<in> {Some ReadyForAgent, Some Production})
          (new_calls d d') e) d"
    (is "wp _ ?Q ?E d")
proof -
  note ol = platform_lawD(13) [OF law]
  let ?life = "\<lambda>w. rd_life M (rd_stored M Lifecycle w)"
  have gate: "wp (lifecycle_gate feat P sp b lc) ?Q ?E d4"
    if "kept M {Ota} (world d) (world d4)" "calls d4 = calls d @ [Read_Boot_Status]"
      "b = Stable \<longrightarrow> device_state d4 \<in> {St_Running, St_Degraded}"
      "?life (world d) = Some lc" "fit M (world d)"
      "b = PendingVerify \<longrightarrow> runs_workload feat M (world d)" for b lc d4
  proof -
    have "?life (world d4) = Some lc" using that(1,4) by (simp add: kept_def)
    note gate = lifecycle_gate_law [OF ol sp this, of feat b]
    have ext: "extends d d4" "new_calls d d4 = [Read_Boot_Status]"
      using that(2) by simp_all
    show ?thesis
      using gate
    proof (rule wp_mono)
      fix d'
      assume *: "kept M {Ota, Lifecycle} (world d4) (world d') \<and> extends d4 d' \<and>
        list_all decision (new_calls d4 d') \<and> Reject_Image \<notin> set (new_calls d4 d') \<and>
        (Confirm_Image \<in> set (new_calls d4 d') \<longleftrightarrow> b = PendingVerify) \<and>
        ?life (world d') = Some Production \<and> lc \<in> {ReadyForAgent, Production} \<and>
        (if b = PendingVerify then device_state d' \<in> {St_Running, St_Degraded}
         else device_state d' = device_state d4)"
      then have "extends d d'" "new_calls d d' = Read_Boot_Status # new_calls d4 d'"
        using extends_trans [OF ext(1)] ext(2) by auto
      moreover have "kept M {Ota, Lifecycle} (world d) (world d')"
        using * that(1) by (blast intro: kept_trans)
      ultimately show "?Q () d'"
        using * that(3-6) by (cases b) auto
    next
      fix e d'
      assume *: "extends d4 d' \<and>
        gate_exit (b = PendingVerify \<and> lc \<in> {ReadyForAgent, Production}) (new_calls d4 d') e"
      show "?E e d'"
        by (rule leave_after_boot [OF that(2), of d'
              "b = PendingVerify \<and> lc \<in> {ReadyForAgent, Production}"])
           (use * that(4-6) in auto)
    qed
  qed
  have guard: "wp (act_seq (workload_guard feat P workload b) (lifecycle_gate feat P sp b lc)) ?Q ?E d3"
    if "kept M {Ota} (world d) (world d3)" "calls d3 = calls d @ [Read_Boot_Status]"
      "b = Stable \<longrightarrow> device_state d3 \<in> {St_Running, St_Degraded}"
      "?life (world d) = Some lc" "fit M (world d)" for b lc d3
    unfolding wp_seq using workload_guard_law [OF wl, of feat P b d3]
  proof (rule wp_mono)
    fix d4 :: "'a device"
    assume *: "kept M {} (world d3) (world d4) \<and> calls d4 = calls d3 \<and> STATE d4 = STATE d3 \<and>
      (b = PendingVerify \<longrightarrow> runs_workload feat M (world d3))"
    then have "kept M {Ota} (world d) (world d4)"
      using that(1) by (blast intro: kept_trans)
    then show "wp (lifecycle_gate feat P sp b lc) ?Q ?E d4"
      using * that runs_kept [OF that(1), of feat] by (intro gate) (simp_all add: device_state_def)
  next
    fix e d'
    assume "extends d3 d' \<and> gate_exit False (new_calls d3 d') e"
    then show "?E e d'" by (intro leave_after_boot [OF that(2), of d' False]) auto
  qed
  have check: "wp (act_seq (check_prerequisites P sp b) (act_seq (workload_guard feat P workload b)
      (lifecycle_gate feat P sp b lc))) ?Q ?E d2"
    if "kept M {Ota} (world d) (world d2)" "calls d2 = calls d @ [Read_Boot_Status]"
      "b = Stable \<longrightarrow> device_state d2 \<in> {St_Running, St_Degraded}"
      "?life (world d) = Some lc" for b lc d2
    unfolding wp_seq [of "check_prerequisites P sp b"]
    using check_prerequisites_law [OF law sp, of b d2]
  proof (rule wp_mono)
    fix d3 :: "'a device"
    assume *: "kept M {} (world d2) (world d3) \<and> calls d3 = calls d2 \<and> STATE d3 = STATE d2 \<and>
      fit M (world d2)"
    then have "kept M {Ota} (world d) (world d3)"
      using that(1) by (blast intro: kept_trans)
    moreover have "fit M (world d)"
      using * that(1) by (simp add: fit_def kept_def)
    ultimately show "wp (act_seq (workload_guard feat P workload b) (lifecycle_gate feat P sp b lc)) ?Q ?E d3"
      using * that by (intro guard) (simp_all add: device_state_def)
  next
    fix e d'
    assume "extends d2 d' \<and> gate_exit False (new_calls d2 d') e"
    then show "?E e d'" by (intro leave_after_boot [OF that(2), of d' False]) auto
  qed
  have boot: "wp (on_boot (ota P) (ota_config sp))
     (\<lambda>b d'. kept M {Ota} (world d) (world d') \<and> calls d' = calls d @ [Read_Boot_Status] \<and>
        (b = Stable \<longrightarrow> device_state d' \<in> {St_Running, St_Degraded}))
     (\<lambda>e d'. e = Rollback_Reset \<and> calls d' = calls d @ [Read_Boot_Status]) d"
    using on_boot_law [OF ol, of d] sp by (simp add: spaces_ok_def)
  show ?thesis
    unfolding admission_def wp_bind [of "on_boot _ _"] using boot
  proof (rule wp_mono)
    fix b and d1 :: "'a device"
    assume d1: "kept M {Ota} (world d) (world d1) \<and> calls d1 = calls d @ [Read_Boot_Status] \<and>
      (b = Stable \<longrightarrow> device_state d1 \<in> {St_Running, St_Degraded})"
    let ?w = "snd (svc_bootstrap_state (ota P) (rd_space M Lifecycle) (world d1))"
    have k: "kept M {Ota} (world d) ?w"
      using d1 kept_op [OF ota_lawD(4) [OF ol]] by (blast intro: kept_trans)
    show "wp (act_bind (act_expect (bootstrap_state_of (ota P) (lifecycle_config sp))) (\<lambda>lc.
        act_seq (check_prerequisites P sp b) (act_seq (workload_guard feat P workload b)
          (lifecycle_gate feat P sp b lc)))) ?Q ?E d1"
      unfolding wp_bind [of "act_expect _"] wp_expect wp_bootstrap_state_of
    proof (cases "fst (svc_bootstrap_state (ota P) (lifecycle_config sp) (world d1))")
      case (Ok lc)
      then have "?life (world d) = Some lc"
        using ota_lawD(6) [OF ol, of "world d1" lc] d1 sp by (simp add: kept_def spaces_ok_def)
      then have "wp (act_seq (check_prerequisites P sp b) (act_seq (workload_guard feat P workload b)
          (lifecycle_gate feat P sp b lc))) ?Q ?E (d1\<lparr>world := ?w\<rparr>)"
        using k d1 by (intro check) simp_all
      then show "case fst (svc_bootstrap_state (ota P) (lifecycle_config sp) (world d1)) of
          Ok lc \<Rightarrow> wp (act_seq (check_prerequisites P sp b) (act_seq (workload_guard feat P workload b)
            (lifecycle_gate feat P sp b lc))) ?Q ?E
              (d1\<lparr>world := snd (svc_bootstrap_state (ota P) (lifecycle_config sp) (world d1))\<rparr>)
        | Err _ \<Rightarrow> ?E Panicked (d1\<lparr>world := snd (svc_bootstrap_state (ota P) (lifecycle_config sp) (world d1))\<rparr>)"
        using sp unfolding Ok result.case by (simp only: spaces_ok_def)
    qed (use d1 in \<open>auto simp: gate_exit_def\<close>)
  qed (auto simp: gate_exit_def)
qed

section \<open>Serving\<close>

fun service :: "call \<Rightarrow> bool" where
  "service (Spawn (T_Led _)) = False"
| "service (Spawn _) = True"
| "service Tls_Init = True"
| "service Wifi_Construct = True"
| "service Wifi_Maintain = True"
| "service (Indicate _) = True"
| "service _ = False"

definition service_run :: "'w device \<Rightarrow> 'w device \<Rightarrow> bool" where
  "service_run d d' \<longleftrightarrow>
     extends d d' \<and> list_all service (new_calls d d') \<and> STATE d' = STATE d"

text \<open>Serving ends only in the final loop, or in a panic on a busy task slot.\<close>

definition serving_exit :: "exit_kind \<Rightarrow> bool" where
  "serving_exit e \<longleftrightarrow> e = Idles \<or> e = Panicked"

lemma serving_exits [simp]: "serving_exit Idles" "serving_exit Panicked"
  by (simp_all add: serving_exit_def)

abbreviation service_phase :: "('w, 'a) act \<Rightarrow> bool" where
  "service_phase m \<equiv> phase service_run serving_exit (\<lambda>_. True) m"

lemma service_run_preorder: "preorder_on_devices service_run"
  unfolding preorder_on_devices_def
proof (intro conjI allI impI)
  show "service_run d d" for d :: "'w device"
    by (simp add: service_run_def new_calls_def)
  show "service_run d d''" if "service_run d d'" "service_run d' d''" for d d' d'' :: "'w device"
    using that extends_trans [of d d' d''] by (auto simp: service_run_def)
qed

lemmas service_phase_bind = phase_bind [OF service_run_preorder, where P = "\<lambda>_. True"]
lemmas service_phase_seq = phase_seq [OF service_run_preorder, where P = "\<lambda>_. True"]

lemma service_phase_call: "service c \<Longrightarrow> service_phase (act_call c f)"
  by (simp add: phase_def wp_call service_run_def)

lemma service_phase_read: "service_phase (act_read f)"
  by (simp add: phase_def wp_read service_run_def extends_def new_calls_def)

lemma service_phase_spawn: "service (Spawn t) \<Longrightarrow> service_phase (act_spawn spawn t)"
  unfolding act_spawn_def
  by (rule service_phase_bind [OF service_phase_read])
     (auto intro: service_phase_call phase_exit [OF service_run_preorder] split: result.split)

lemma service_phase_on_ip_ready: "service_phase (on_ip_ready spawn self)"
  unfolding on_ip_ready_def Let_def
  by (auto intro!: service_phase_seq service_phase_spawn phase_return [OF service_run_preorder])

lemma service_phase_link_events: "service_phase (link_events P es self)"
proof (induction P es self rule: link_events.induct)
  case (3 P es self)
  then show ?case
    by (auto simp: indicate_def intro!: service_phase_bind service_phase_seq
        service_phase_on_ip_ready service_phase_call)
qed (auto simp: indicate_def intro!: service_phase_seq service_phase_call
      phase_return [OF service_run_preorder])

lemma serve_agent_law:
  "wp (serve_agent feat P sp workload) Q
     (\<lambda>e d'. serving_exit e \<and> service_run d d') d"
proof -
  have "phase service_run serving_exit (\<lambda>_. False) (serve_agent feat P sp workload)"
    unfolding serve_agent_def
    by (intro service_phase_seq service_phase_bind service_phase_link_events
        phase_when [OF service_run_preorder] service_phase_spawn service_phase_call
        phase_exit [OF service_run_preorder])
       (simp_all add: indicate_def service_phase_call)
  from phase_run [OF this] show ?thesis by (rule wp_mono) auto
qed

section \<open>The whole boot\<close>

text \<open>What a boot leaves behind, from the calls it made.\<close>

definition boot_post :: "features \<Rightarrow> 'w reading \<Rightarrow> 'w device \<Rightarrow> exit_kind \<Rightarrow> 'w device \<Rightarrow> bool" where
  "boot_post feat M d e d' \<longleftrightarrow> (\<exists>pre dec srv.
     calls d' = calls d @ pre @ dec @ srv \<and> list_all early pre \<and> list_all decision dec \<and>
     list_all service srv \<and>
     (Confirm_Image \<in> set dec \<longrightarrow> fit M (world d) \<and> runs_workload feat M (world d) \<and>
        rd_life M (rd_stored M Lifecycle (world d)) \<in> {Some ReadyForAgent, Some Production}) \<and>
     (Reject_Image \<in> set dec \<longrightarrow> e = Rollback_Reset \<and> Confirm_Image \<notin> set dec \<and> srv = []) \<and>
     (srv \<noteq> [] \<or> e = Idles \<longrightarrow> fit M (world d) \<and> device_state d' \<in> {St_Running, St_Degraded} \<and>
        rd_life M (rd_stored M Lifecycle (world d)) \<in> {Some ReadyForAgent, Some Production}))"

lemma early_run_refl [simp]: "early_run M d d"
  using early_run_preorder [of M] by (simp add: preorder_on_devices_def)

lemma fit_early: "early_run M d d1 \<Longrightarrow> fit M (world d1) \<longleftrightarrow> fit M (world d)"
  by (simp add: early_run_def fit_def kept_def)

lemma boot_post_early: "early_run M d d' \<Longrightarrow> boot_post feat M d Panicked d'"
  unfolding boot_post_def early_run_def
  by (elim conjE exE, rule_tac x = cs in exI, rule exI [of _ "[]"], rule exI [of _ "[]"]) simp

lemma boot_postI:
  assumes "calls d' = calls d @ pre @ dec @ srv" and "list_all early pre" and "list_all decision dec"
    and "list_all service srv"
    and "Confirm_Image \<in> set dec \<Longrightarrow> fit M (world d) \<and> runs_workload feat M (world d) \<and>
        rd_life M (rd_stored M Lifecycle (world d)) \<in> {Some ReadyForAgent, Some Production}"
    and "Reject_Image \<in> set dec \<Longrightarrow> e = Rollback_Reset \<and> Confirm_Image \<notin> set dec \<and> srv = []"
    and "srv \<noteq> [] \<or> e = Idles \<Longrightarrow> fit M (world d) \<and> device_state d' \<in> {St_Running, St_Degraded} \<and>
        rd_life M (rd_stored M Lifecycle (world d)) \<in> {Some ReadyForAgent, Some Production}"
  shows "boot_post feat M d e d'"
  unfolding boot_post_def
  by (rule exI [of _ pre], rule exI [of _ dec], rule exI [of _ srv])
     (rule assms conjI impI | assumption)+

lemma early_then:
  assumes m: "early_phase M P m" and d1: "early_run M d d1"
    and f: "\<And>a d2. P a \<Longrightarrow> early_run M d d2 \<Longrightarrow> wp (f a) Q (boot_post feat M d) d2"
  shows "wp (act_bind m f) Q (boot_post feat M d) d1"
  unfolding wp_bind using phase_run [OF m, of d1]
proof (rule wp_mono)
  fix a d'
  assume "P a \<and> early_run M d1 d'"
  then show "wp (f a) Q (boot_post feat M d) d'" using early_run_trans [OF d1] f by blast
next
  fix e d'
  assume "e = Panicked \<and> early_run M d1 d'"
  then show "boot_post feat M d e d'" using boot_post_early [OF early_run_trans [OF d1]] by blast
qed

lemma admitted_tail:
  assumes law: "platform_law M P" and sp: "spaces_ok M sp" and wl: "workload_law M workload"
    and d1: "early_run M d d1"
  shows "wp (act_seq (admission feat P sp workload) (serve_agent feat P sp workload)) Q
     (boot_post feat M d) d1"
proof -
  obtain pre where pre: "calls d1 = calls d @ pre" "list_all early pre"
    using d1 by (auto simp: early_run_def)
  have k: "kept M {} (world d) (world d1)" using d1 by (simp add: early_run_def)
  note same = fit_early [OF d1] runs_kept [OF k, of feat]
  have life: "rd_stored M Lifecycle (world d1) = rd_stored M Lifecycle (world d)"
    using k by (simp add: kept_def)
  show ?thesis
    unfolding wp_seq using admission_law [OF law sp wl, of feat d1]
  proof (rule wp_mono)
    fix d2 :: "'a device"
    assume adm: "kept M {Ota, Lifecycle} (world d1) (world d2) \<and> extends d1 d2 \<and>
      list_all decision (new_calls d1 d2) \<and> Reject_Image \<notin> set (new_calls d1 d2) \<and>
      fit M (world d1) \<and> rd_life M (rd_stored M Lifecycle (world d2)) = Some Production \<and>
      rd_life M (rd_stored M Lifecycle (world d1)) \<in> {Some ReadyForAgent, Some Production} \<and>
      device_state d2 \<in> {St_Running, St_Degraded} \<and>
      (Confirm_Image \<in> set (new_calls d1 d2) \<longrightarrow> runs_workload feat M (world d1))"
    show "wp (serve_agent feat P sp workload) Q (boot_post feat M d) d2"
      using serve_agent_law [of feat P sp workload Q d2]
    proof (rule wp_mono)
      fix e d3
      assume srv: "serving_exit e \<and> service_run d2 d3"
      then have c3: "calls d3 = calls d @ pre @ new_calls d1 d2 @ new_calls d2 d3"
        using adm pre(1) unfolding service_run_def extends_def by (metis append.assoc)
      have "device_state d3 = device_state d2"
        using srv by (simp add: service_run_def device_state_def)
      show "boot_post feat M d e d3"
      proof (rule boot_postI [OF c3 pre(2)])
        show "list_all decision (new_calls d1 d2)" using adm by blast
        show "list_all service (new_calls d2 d3)" using srv by (simp add: service_run_def)
        have now: "fit M (world d)"
          "rd_life M (rd_stored M Lifecycle (world d)) \<in> {Some ReadyForAgent, Some Production}"
          using adm unfolding same(1) life by blast+
        then show "fit M (world d) \<and> runs_workload feat M (world d) \<and>
            rd_life M (rd_stored M Lifecycle (world d)) \<in> {Some ReadyForAgent, Some Production}"
          if "Confirm_Image \<in> set (new_calls d1 d2)"
          using that adm unfolding same(2) by blast
        show "e = Rollback_Reset \<and> Confirm_Image \<notin> set (new_calls d1 d2) \<and> new_calls d2 d3 = []"
          if "Reject_Image \<in> set (new_calls d1 d2)"
          using that adm by blast
        show "fit M (world d) \<and> device_state d3 \<in> {St_Running, St_Degraded} \<and>
            rd_life M (rd_stored M Lifecycle (world d)) \<in> {Some ReadyForAgent, Some Production}"
          using now adm \<open>device_state d3 = device_state d2\<close> by simp
      qed
    qed
  next
    fix e d2
    assume ext: "extends d1 d2 \<and> gate_exit (fit M (world d1) \<and> runs_workload feat M (world d1) \<and>
        rd_life M (rd_stored M Lifecycle (world d1)) \<in> {Some ReadyForAgent, Some Production})
        (new_calls d1 d2) e"
    then have c2: "calls d2 = calls d @ pre @ new_calls d1 d2 @ []"
      using pre(1) unfolding extends_def by (metis append.assoc append_Nil2)
    have "gate_exit (fit M (world d) \<and> runs_workload feat M (world d) \<and>
        rd_life M (rd_stored M Lifecycle (world d)) \<in> {Some ReadyForAgent, Some Production})
        (new_calls d1 d2) e"
      using ext unfolding same life by (rule conjunct2)
    then show "boot_post feat M d e d2"
      unfolding gate_exit_def by (intro boot_postI [OF c2 pre(2)]) (blast | simp)+
  qed
qed

lemma agent_main_law:
  assumes law: "platform_law M P" and run: "agent_main feat P d = (out, d')"
  shows "\<exists>e. out = Exits e \<and> boot_post feat M d e d'"
proof -
  have arm: "early_phase M (\<lambda>_. True) (act_call (Arm_Watchdog BOOT_WATCHDOG_DEADLINE_MS) (\<lambda>w. ((), w)))"
    by (intro early_phase_call) (simp_all add: op_keeps_def)
  have nvs: "early_phase M (\<lambda>_. True) (act_expect (act_read (nvs_new P)))"
    by (intro early_phase_expect early_phase_read) (simp_all add: platform_lawD(3) [OF law])
  let ?E = "boot_post feat M d"
  have tail: "wp (case wc of (workload, control) \<Rightarrow>
      act_bind (claim_spaces P) (\<lambda>sp. act_bind (start_led P sp) (\<lambda>_.
        act_seq (admission feat P sp workload) (serve_agent feat P sp workload))))
      (\<lambda>_ _. False) ?E d2"
    if wl: "case wc of (svc, control) \<Rightarrow> workload_law M svc" and d2: "early_run M d d2"
    for wc :: "'a workload_service \<times> control" and d2
  proof -
    obtain workload control where wc: "wc = (workload, control)" by (cases wc)
    have w: "workload_law M workload" using wl wc by simp
    show ?thesis
      unfolding wc prod.case
    proof (rule early_then [OF claim_spaces_early [OF law] d2])
      fix sp d3
      assume sp: "spaces_ok M sp" and d3: "early_run M d d3"
      show "wp (act_bind (start_led P sp) (\<lambda>_. act_seq (admission feat P sp workload)
          (serve_agent feat P sp workload))) (\<lambda>_ _. False) ?E d3"
        by (rule early_then [OF start_led_early [OF law sp] d3])
           (rule admitted_tail [OF law sp w])
    qed
  qed
  have "wp (agent_main feat P) (\<lambda>_ _. False) ?E d"
    unfolding agent_main_def Let_def act_seq_def [of "act_call _ _"] act_seq_def [of "start_led _ _"]
    by (rule early_then [OF arm early_run_refl], rule early_then [OF nvs], assumption,
        rule early_then [OF workload_init_early [OF law]], assumption, rule tail)
  from wp_run [OF this run] show ?thesis by (cases out) auto
qed

section \<open>A device to boot\<close>

text \<open>
  A concrete platform on the in-memory provider: an OTA service that reports a pending image
  whose self-check passes, and a lifecycle space that holds anything once the device is in
  production. \<open>demo_ram\<close> is a provisioned device, \<open>bare_ram\<close> one without a token.
\<close>

definition demo_ota :: "ram ota_service" where
  "demo_ota = \<lparr>
     svc_bootstrap_state = (\<lambda>space w. case load space w of
         (Ok None, w') \<Rightarrow> (Ok ReadyForAgent, w') | (Ok (Some _), w') \<Rightarrow> (Ok Production, w')
       | (Err e, w') \<Rightarrow> (Err e, w')),
     svc_begin_provisioning = (\<lambda>space w. (Ok (), w)),
     svc_ready_for_agent = (\<lambda>space w. (Ok (), w)),
     svc_production = (\<lambda>space w. case commit space [1] w of
         (Ok _, w') \<Rightarrow> (Ok (), w') | (Err e, w') \<Rightarrow> (Err e, w')),
     svc_load_metadata = (\<lambda>space w. (Err (), w)),
     svc_clear_staged = (\<lambda>space w. (Ok (), w)),
     svc_staged_default = \<lparr>staged_stage = lit ''none'', staged_slot = [], staged_digest = [],
       staged_deployment_id = []\<rparr>,
     svc_pending_check = (\<lambda>_ w. (PC_Confirm, w)),
     svc_confirm_pending = (\<lambda>space w. (Conf_Valid, w)),
     svc_reject_pending = (\<lambda>w. ((), w)),
     svc_on_boot = (\<lambda>space w. (\<lparr>br_status = BS_PendingVerify, br_storage_healthy = None\<rparr>, w))\<rparr>"

definition demo_workload :: "ram workload_service" where
  "demo_workload = \<lparr>wl_active = (\<lambda>w. (Some (RuntimeApi 1 0), w)), wl_satisfies = (=),
     wl_storage_ok = True, wl_recover = (\<lambda>w. ((), w))\<rparr>"

definition demo_platform :: "ram platform" where
  "demo_platform = \<lparr>
     nvs_new = (\<lambda>w. (Ok (), w)), claim = (\<lambda>n _ w. (Ok (ram_space n), w)),
     foreign_budget = (\<lambda>_. 512), spawn_token = (\<lambda>_ w. (Ok (), w)),
     workload_probe = (\<lambda>w. (demo_workload, w)),
     region_dbus = 32768, reclaimed_base = 0,
     wifi_is_provisioned = (\<lambda>_ w. (cells w Wifi \<noteq> None, w)),
     server_identity_valid = (\<lambda>_ w. (cells w Tls \<noteq> None, w)),
     ota = demo_ota, selfcheck_deadline = 15000, tls_init = (\<lambda>w. ((), w)),
     wifi_construct = (\<lambda>_ w. ((), w)), wifi_maintain = (\<lambda>_ w. ([Link_Ready, Link_Down, Link_Ready], w))\<rparr>"

definition demo_reading :: "ram reading" where
  "demo_reading = \<lparr>rd_space = ram_space, rd_stored = (\<lambda>n w. cells w n),
     rd_active = (\<lambda>_. Some (RuntimeApi 1 0)), rd_wifi_ok = (\<lambda>s. s \<noteq> None),
     rd_tls_ok = (\<lambda>s. s \<noteq> None),
     rd_life = (\<lambda>s. Some (case s of None \<Rightarrow> ReadyForAgent | Some _ \<Rightarrow> Production)),
     rd_satisfies = (=)\<rparr>"

definition bare_ram :: ram where
  "bare_ram = ram_with Wifi [1] (ram_with Tls [1] (ram_with Hardware (hardware_encode None) ram_empty))"

definition demo_ram :: ram where
  "demo_ram = ram_with Agent (agent_config_layout sample_config) bare_ram"

definition powered :: "'w \<Rightarrow> 'w device" where
  "powered w = \<lparr>world = w, STATE = 0, calls = []\<rparr>"

lemma powered_simps [simp]: "world (powered w) = w" "calls (powered w) = []"
  by (simp_all add: powered_def)

lemma demo_load_keeps: "op_keeps demo_reading {} (load (ram_space n))"
  by (simp add: op_keeps_def kept_def demo_reading_def ram_space_def Let_def)

lemma demo_platform_law: "platform_law demo_reading demo_platform"
proof -
  have "ota_law demo_reading demo_ota 15000"
  proof -
    have "kept demo_reading {} w (snd (svc_bootstrap_state demo_ota (ram_space Lifecycle) w))" for w
      by (simp add: demo_ota_def demo_reading_def kept_def ram_space_def Let_def
          split: option.split)
    moreover have "rd_life demo_reading (cells w Lifecycle) = Some s"
      if "fst (svc_bootstrap_state demo_ota (ram_space Lifecycle) w) = Ok s" for w s
      using that by (simp add: demo_ota_def demo_reading_def ram_space_def Let_def
          split: option.splits if_splits)
    moreover have "kept demo_reading {Lifecycle} w (snd (svc_production demo_ota (ram_space Lifecycle) w))"
      and "fst (svc_production demo_ota (ram_space Lifecycle) w) = Ok () \<Longrightarrow>
        rd_life demo_reading (cells (snd (svc_production demo_ota (ram_space Lifecycle) w)) Lifecycle) =
          Some Production" for w
      by (cases "ram_faulty w"; simp add: demo_ota_def demo_reading_def kept_def ram_space_def Let_def)+
    moreover have "snd (svc_on_boot demo_ota sp w) = w" "snd (svc_pending_check demo_ota dl w) = w"
      "snd (svc_confirm_pending demo_ota sp w) = w" for sp dl w
      by (simp_all add: demo_ota_def)
    moreover have "rd_space demo_reading = ram_space" "rd_stored demo_reading = (\<lambda>n w. cells w n)"
      by (simp_all add: demo_reading_def)
    ultimately show ?thesis
      unfolding ota_law_def op_keeps_def by simp
  qed
  then show ?thesis
    unfolding platform_law_def
    using demo_load_keeps ram_law
    by (auto simp: demo_platform_def op_keeps_def workload_law_def demo_workload_def)
       (simp_all add: demo_reading_def)
qed

subsection \<open>Two boots\<close>

lemma demo_facts:
  assumes "w = demo_ram \<or> w = bare_ram"
  shows "runtime_config_new (ram_space Runtime) w =
      (Ok \<lparr>rc_space = ram_space Runtime, active_generation = 0, active = []\<rparr>, w)"
    "led_gpio (ram_space Hardware) w = (None, w)"
    "is_configured (ram_space Hardware) w = (True, w)"
    "cells w Wifi \<noteq> None" "cells w Tls \<noteq> None"
    "svc_bootstrap_state demo_ota (ram_space Lifecycle) w = (Ok ReadyForAgent, w)"
    "fst (svc_production demo_ota (ram_space Lifecycle) w) = Ok ()"
proof -
  have f: "faults w = []" and c: "cells w Runtime = None" "cells w Lifecycle = None"
    "cells w Hardware = Some \<lparr>data = hardware_encode None, generation = 1\<rparr>"
    using assms by (auto simp: demo_ram_def bare_ram_def ram_with_def)
  show "cells w Wifi \<noteq> None" "cells w Tls \<noteq> None"
    using assms by (auto simp: demo_ram_def bare_ram_def ram_with_def)
  show "runtime_config_new (ram_space Runtime) w =
      (Ok \<lparr>rc_space = ram_space Runtime, active_generation = 0, active = []\<rparr>, w)"
    by (simp add: runtime_config_new_def ram_load f c)
  show "led_gpio (ram_space Hardware) w = (None, w)"
    by (simp add: led_gpio_def ram_load f c hardware_decode_encode)
  show "is_configured (ram_space Hardware) w = (True, w)"
    by (simp add: is_configured_def ram_load f c hardware_encode_ok)
  show "svc_bootstrap_state demo_ota (ram_space Lifecycle) w = (Ok ReadyForAgent, w)"
    by (simp add: demo_ota_def ram_load f c)
  show "fst (svc_production demo_ota (ram_space Lifecycle) w) = Ok ()"
    by (simp add: demo_ota_def ram_commit f)
qed

lemma demo_provisioned:
  "is_provisioned (ram_space Agent) demo_ram = (True, demo_ram)"
  "is_provisioned (ram_space Agent) bare_ram = (False, bare_ram)"
proof -
  have "agent_view (cells demo_ram Agent) = Some sample_config" "faults demo_ram = []"
    by (simp_all add: demo_ram_def bare_ram_def ram_with_def agent_view_def agent_config_decode_layout
        sample_config_valid)
  then show "is_provisioned (ram_space Agent) demo_ram = (True, demo_ram)"
    by (simp add: is_provisioned_def ram_load_config) (simp add: sample_config_def)
  have "agent_view (cells bare_ram Agent) = Some agent_config_default" "faults bare_ram = []"
    by (simp_all add: bare_ram_def ram_with_def)
  then show "is_provisioned (ram_space Agent) bare_ram = (False, bare_ram)"
    by (simp add: is_provisioned_def ram_load_config agent_config_default_def)
qed

lemmas boot_defs = agent_main_def claim_spaces_def claim_space_def start_led_def admission_def
  workload_init_def on_boot_def check_prerequisites_def prerequisites_ok_def workload_guard_def
  lifecycle_gate_def confirm_pending_def reject_pending_def production_def serve_agent_def indicate_def
  on_ip_ready_def supervisor_new_def production_features_def agent_can_run_active_workload_def
  demo_platform_def demo_workload_def RUNTIME_API_def

lemma demo_boot:
  "wp (agent_main production_features demo_platform) (\<lambda>_ _. False)
     (\<lambda>e d'. e = Idles \<and> Confirm_Image \<in> set (calls d')) (powered demo_ram)"
proof -
  have ops: "svc_on_boot demo_ota s w = (\<lparr>br_status = BS_PendingVerify, br_storage_healthy = None\<rparr>, w)"
    "svc_pending_check demo_ota n w = (PC_Confirm, w)" "svc_confirm_pending demo_ota s w = (Conf_Valid, w)"
    for s n w by (simp_all add: demo_ota_def)
  show ?thesis
    by (simp add: boot_defs wp_rules Let_def demo_facts demo_provisioned ops)
qed

lemma bare_boot:
  "wp (agent_main production_features demo_platform) (\<lambda>_ _. False)
     (\<lambda>e d'. Reject_Image \<in> set (calls d')) (powered bare_ram)"
proof -
  have ops: "svc_on_boot demo_ota s w = (\<lparr>br_status = BS_PendingVerify, br_storage_healthy = None\<rparr>, w)"
    for s w by (simp add: demo_ota_def)
  show ?thesis
    by (simp add: boot_defs wp_rules Let_def demo_facts demo_provisioned ops)
qed

lemma boot_run:
  assumes "wp m (\<lambda>_ _. False) E d"
  obtains e d' where "m d = (Exits e, d')" "E e d'"
  using assms by (cases "m d") (auto simp: wp_def split: outcome.splits)

section \<open>Properties\<close>

lemma early_not: "list_all early pre \<Longrightarrow> c \<in> set pre \<Longrightarrow> \<not> decision c \<and> \<not> service c"
  by (cases c rule: early.cases) (auto simp: list_all_iff)

lemma decision_not_service: "decision c \<Longrightarrow> \<not> service c"
  by (cases c rule: decision.cases) simp_all

lemma boot_parts:
  assumes "boot_post feat M d e d'" and "calls d = []"
  obtains pre dec srv where "calls d' = pre @ dec @ srv"
    "list_all early pre" "list_all decision dec" "list_all service srv"
    "Confirm_Image \<in> set dec \<Longrightarrow> fit M (world d) \<and> runs_workload feat M (world d) \<and>
        rd_life M (rd_stored M Lifecycle (world d)) \<in> {Some ReadyForAgent, Some Production}"
    "Reject_Image \<in> set dec \<Longrightarrow> e = Rollback_Reset \<and> Confirm_Image \<notin> set dec \<and> srv = []"
    "srv \<noteq> [] \<or> e = Idles \<Longrightarrow> fit M (world d) \<and> device_state d' \<in> {St_Running, St_Degraded} \<and>
        rd_life M (rd_stored M Lifecycle (world d)) \<in> {Some ReadyForAgent, Some Production}"
    "\<And>c. decision c \<Longrightarrow> c \<in> set (calls d') \<longleftrightarrow> c \<in> set dec"
proof -
  obtain pre dec srv where post: "calls d' = calls d @ pre @ dec @ srv"
    "list_all early pre" "list_all decision dec" "list_all service srv"
    "Confirm_Image \<in> set dec \<longrightarrow> fit M (world d) \<and> runs_workload feat M (world d) \<and>
        rd_life M (rd_stored M Lifecycle (world d)) \<in> {Some ReadyForAgent, Some Production}"
    "Reject_Image \<in> set dec \<longrightarrow> e = Rollback_Reset \<and> Confirm_Image \<notin> set dec \<and> srv = []"
    "srv \<noteq> [] \<or> e = Idles \<longrightarrow> fit M (world d) \<and> device_state d' \<in> {St_Running, St_Degraded} \<and>
        rd_life M (rd_stored M Lifecycle (world d)) \<in> {Some ReadyForAgent, Some Production}"
    using assms(1) unfolding boot_post_def by blast
  have calls: "calls d' = pre @ dec @ srv" using post(1) assms(2) by simp
  have in_dec: "c \<in> set (calls d') \<longleftrightarrow> c \<in> set dec" if "decision c" for c
    using that early_not [OF post(2), of c] post(4) decision_not_service [of c]
    by (auto simp: calls list_all_iff)
  show thesis
    by (rule that [OF calls post(2-4)]) (use post(5-7) in_dec in blast)+
qed

text \<open>
  C1: an image is confirmed only on a device that is fit for it. If the boot asks the OTA service
  to confirm the running image, then the stored Wi-Fi credentials, TLS identity, hardware
  configuration and agent token were all valid when it started, the image provides the runtime
  API the active Workload requires, and the lifecycle was \<open>ReadyForAgent\<close> or \<open>Production\<close>.
\<close>

theorem boot_confirms_only_fit:
  assumes "platform_law M P" and "agent_main feat P d = (out, d')" and "calls d = []"
    and "Confirm_Image \<in> set (calls d')"
  shows "fit M (world d) \<and> runs_workload feat M (world d) \<and>
    rd_life M (rd_stored M Lifecycle (world d)) \<in> {Some ReadyForAgent, Some Production}"
proof -
  obtain e where "boot_post feat M d e d'" using agent_main_law [OF assms(1,2)] by blast
  then show ?thesis using assms(3)
  proof (rule boot_parts)
    fix pre dec srv
    assume conf: "Confirm_Image \<in> set dec \<Longrightarrow> fit M (world d) \<and> runs_workload feat M (world d) \<and>
        rd_life M (rd_stored M Lifecycle (world d)) \<in> {Some ReadyForAgent, Some Production}"
      and "\<And>c. decision c \<Longrightarrow> c \<in> set (calls d') \<longleftrightarrow> c \<in> set dec"
    from this(2) [of Confirm_Image] assms(4) have "Confirm_Image \<in> set dec" by simp
    then show ?thesis by (rule conf)
  qed
qed

theorem boot_confirms_only_fit_witness:
  "fit demo_reading demo_ram \<and> runs_workload production_features demo_reading demo_ram"
proof -
  obtain e d' where run: "agent_main production_features demo_platform (powered demo_ram) = (Exits e, d')"
    and conf: "Confirm_Image \<in> set (calls d')"
    by (rule boot_run [OF demo_boot]) blast
  from boot_confirms_only_fit [OF demo_platform_law run _ conf] show ?thesis by simp
qed

text \<open>
  C3: a rejected image rolls back. If the boot asks the OTA service to reject the running image,
  then it ends in the rollback reset, never confirmed the image, and started no service.
\<close>

theorem boot_rejection_rolls_back:
  assumes "platform_law M P" and "agent_main feat P d = (out, d')" and "calls d = []"
    and "Reject_Image \<in> set (calls d')"
  shows "out = Exits Rollback_Reset \<and> Confirm_Image \<notin> set (calls d') \<and>
    (\<forall>c \<in> set (calls d'). \<not> service c)"
proof -
  obtain e where e: "out = Exits e" and post: "boot_post feat M d e d'"
    using agent_main_law [OF assms(1,2)] by blast
  show ?thesis using post assms(3)
  proof (rule boot_parts)
    fix pre dec srv
    assume calls: "calls d' = pre @ dec @ srv" "list_all early pre" "list_all decision dec"
      and rej: "Reject_Image \<in> set dec \<Longrightarrow> e = Rollback_Reset \<and> Confirm_Image \<notin> set dec \<and> srv = []"
      and iff: "\<And>c. decision c \<Longrightarrow> c \<in> set (calls d') \<longleftrightarrow> c \<in> set dec"
    from iff [of Reject_Image] assms(4) have "Reject_Image \<in> set dec" by simp
    note r = rej [OF this]
    then have "\<not> service c" if "c \<in> set (calls d')" for c
      using that calls early_not [OF calls(2), of c] decision_not_service [of c]
      by (auto simp: list_all_iff)
    with r e iff [of Confirm_Image] show ?thesis by auto
  qed
qed

theorem boot_rejection_rolls_back_witness:
  "fst (agent_main production_features demo_platform (powered bare_ram)) = Exits Rollback_Reset"
proof -
  obtain e d' where run: "agent_main production_features demo_platform (powered bare_ram) = (Exits e, d')"
    and rej: "Reject_Image \<in> set (calls d')"
    by (rule boot_run [OF bare_boot]) blast
  from boot_rejection_rolls_back [OF demo_platform_law run _ rej] run show ?thesis by simp
qed

text \<open>
  C2: nothing is served before admission. The boot never returns; the calls that serve anything
  (the network tasks, Wi-Fi, TLS, the Workload) come after every call of the boot decision; and
  if there is any of them, or the boot reaches its final loop, then the device was fit, its
  lifecycle allowed it, and its state is \<open>Running\<close> or \<open>Degraded\<close>, never an unconfirmed image's.
\<close>

theorem boot_serves_only_admitted:
  assumes "platform_law M P" and "agent_main feat P d = (out, d')" and "calls d = []"
  shows "\<exists>e before served. out = Exits e \<and> calls d' = before @ served \<and>
    (\<forall>c \<in> set before. \<not> service c) \<and> (\<forall>c \<in> set served. service c) \<and>
    (served \<noteq> [] \<or> e = Idles \<longrightarrow> fit M (world d) \<and> device_state d' \<in> {St_Running, St_Degraded} \<and>
       rd_life M (rd_stored M Lifecycle (world d)) \<in> {Some ReadyForAgent, Some Production})"
proof -
  obtain e where e: "out = Exits e" and post: "boot_post feat M d e d'"
    using agent_main_law [OF assms(1,2)] by blast
  show ?thesis using post assms(3)
  proof (rule boot_parts)
    fix pre dec srv
    assume calls: "calls d' = pre @ dec @ srv" "list_all early pre" "list_all decision dec"
      "list_all service srv"
      and served: "srv \<noteq> [] \<or> e = Idles \<Longrightarrow>
        fit M (world d) \<and> device_state d' \<in> {St_Running, St_Degraded} \<and>
        rd_life M (rd_stored M Lifecycle (world d)) \<in> {Some ReadyForAgent, Some Production}"
    have "\<not> service c" if "c \<in> set (pre @ dec)" for c
      using that calls(3) early_not [OF calls(2), of c] decision_not_service [of c]
      by (auto simp: list_all_iff)
    with e calls(1,4) served show ?thesis
      by (intro exI [of _ e] exI [of _ "pre @ dec"] exI [of _ srv]) (simp add: list_all_iff)
  qed
qed

theorem boot_serves_only_admitted_witness:
  "\<exists>d'. agent_main production_features demo_platform (powered demo_ram) = (Exits Idles, d') \<and>
     device_state d' \<in> {St_Running, St_Degraded}"
proof -
  obtain d' where run: "agent_main production_features demo_platform (powered demo_ram) = (Exits Idles, d')"
    by (rule boot_run [OF demo_boot]) blast
  from boot_serves_only_admitted [OF demo_platform_law run] run show ?thesis by auto
qed

end
