(* ===== verification/Esp_Tls.thy ===== *)
theory Esp_Tls
  imports Boot_Policy
begin

text \<open>
  \<open>src/esp_tls.rs\<close>: the concrete types behind the portable TLS contracts. The TLS service is
  \<open>TlsService\<close> of \<open>iobewi-tls-service\<close> over MbedTLS crypto fed by the ESP's random numbers; it is
  built anew for each call. The one flash, network stack and TLS instance of the device are part
  of the device state, so the handles to them have no counterpart.
\<close>

section \<open>The service\<close>

text \<open>The operations of \<open>TlsService\<close>; \<open>'e\<close> is \<open>SaveCertError\<close> and \<open>'s\<close> \<open>SessionConfig\<close>.\<close>

record ('w, 'e, 's) tls_service =
  ts_ensure_server_identity :: "'w config_space \<Rightarrow> bytes \<Rightarrow> 'w \<Rightarrow> (unit, unit) result \<times> 'w"
  ts_server_identity_valid :: "'w config_space \<Rightarrow> 'w \<Rightarrow> bool \<times> 'w"
  ts_save_cert :: "'w config_space \<Rightarrow> bytes \<Rightarrow> bytes \<Rightarrow> 'w \<Rightarrow> (unit, 'e) result \<times> 'w"
  ts_save_ca :: "'w config_space \<Rightarrow> bytes \<Rightarrow> 'w \<Rightarrow> (unit, 'e) result \<times> 'w"
  ts_server_config :: "'w config_space \<Rightarrow> 'w \<Rightarrow> 's option \<times> 'w"

text \<open>
  What the crates supply: the two constructors, the entropy source (\<open>'n\<close>), the installation of
  the MbedTLS hooks with the wall clock, and the connection attempt of a \<open>SecureConnector\<close>, given
  the space of its CA and its clock test.
\<close>

record ('w, 'n, 'c, 'e, 's) tls_crates =
  tc_entropy :: 'n
  tc_crypto_new :: "'n \<Rightarrow> 'c"
  tc_service_new :: "'c \<Rightarrow> ('w, 'e, 's) tls_service"
  tc_init :: "('w \<Rightarrow> u64 option) \<Rightarrow> 'w \<Rightarrow> unit \<times> 'w"
  tc_connect :: "'w config_space \<Rightarrow> ('w \<Rightarrow> bool) \<Rightarrow> bytes \<Rightarrow> u16 \<Rightarrow> 'w \<Rightarrow> (unit, unit) result \<times> 'w"

definition esp_tls_service :: "('w, 'n, 'c, 'e, 's) tls_crates \<Rightarrow> ('w, 'e, 's) tls_service" where
  "esp_tls_service C = tc_service_new C (tc_crypto_new C (tc_entropy C))"

definition esp_tls_init :: "('w, 'n, 'c, 'e, 's) tls_crates \<Rightarrow> ('w \<Rightarrow> u64 option) \<Rightarrow> 'w \<Rightarrow> unit \<times> 'w" where
  "esp_tls_init C now = tc_init C now"

text \<open>The secure outbound connector: its CA's space and its clock test.\<close>

record 'w secure_connector =
  sc_tls_config :: "'w config_space"
  sc_clock_is_set :: "'w \<Rightarrow> bool"

definition client_transport :: "'w config_space \<Rightarrow> ('w \<Rightarrow> bool) \<Rightarrow> 'w secure_connector" where
  "client_transport tls_cfg clock_is_set =
     \<lparr>sc_tls_config = tls_cfg, sc_clock_is_set = clock_is_set\<rparr>"

definition transport_connect ::
  "('w, 'n, 'c, 'e, 's) tls_crates \<Rightarrow> 'w secure_connector \<Rightarrow> bytes \<Rightarrow> u16 \<Rightarrow> 'w \<Rightarrow> (unit, unit) result \<times> 'w" where
  "transport_connect C t = tc_connect C (sc_tls_config t) (sc_clock_is_set t)"

definition esp_tls_ensure_server_identity ::
  "('w, 'n, 'c, 'e, 's) tls_crates \<Rightarrow> 'w config_space \<Rightarrow> bytes \<Rightarrow> 'w \<Rightarrow> (unit, unit) result \<times> 'w" where
  "esp_tls_ensure_server_identity C space common_name =
     ts_ensure_server_identity (esp_tls_service C) space common_name"

definition esp_tls_server_identity_valid ::
  "('w, 'n, 'c, 'e, 's) tls_crates \<Rightarrow> 'w config_space \<Rightarrow> 'w \<Rightarrow> bool \<times> 'w" where
  "esp_tls_server_identity_valid C space = ts_server_identity_valid (esp_tls_service C) space"

definition esp_tls_save_cert ::
  "('w, 'n, 'c, 'e, 's) tls_crates \<Rightarrow> 'w config_space \<Rightarrow> bytes \<Rightarrow> bytes \<Rightarrow> 'w \<Rightarrow> (unit, 'e) result \<times> 'w" where
  "esp_tls_save_cert C space cert_pem key_pem = ts_save_cert (esp_tls_service C) space cert_pem key_pem"

definition esp_tls_server_config ::
  "('w, 'n, 'c, 'e, 's) tls_crates \<Rightarrow> 'w config_space \<Rightarrow> 'w \<Rightarrow> 's option \<times> 'w" where
  "esp_tls_server_config C space = ts_server_config (esp_tls_service C) space"

definition esp_tls_save_ca ::
  "('w, 'n, 'c, 'e, 's) tls_crates \<Rightarrow> 'w config_space \<Rightarrow> bytes \<Rightarrow> 'w \<Rightarrow> (unit, 'e) result \<times> 'w" where
  "esp_tls_save_ca C space ca_pem = ts_save_ca (esp_tls_service C) space ca_pem"

section \<open>What the images rely on\<close>

text \<open>
  The law of the TLS crates over a reading of the device: each operation writes no space but the
  TLS one, the service's test and a created identity mean a stored identity that passes, and the
  connector is fail-closed, as \<open>esp_tls.rs\<close> says: it connects only when the clock is set and the
  stored CA (\<open>ca_ok\<close>) is usable.
\<close>

definition tls_law ::
  "'w reading \<Rightarrow> (snapshot option \<Rightarrow> bool) \<Rightarrow> ('w, 'n, 'c, 'e, 's) tls_crates \<Rightarrow> bool" where
  "tls_law M ca_ok C \<longleftrightarrow>
     (\<forall>now. op_keeps M {} (tc_init C now)) \<and>
     (\<forall>name. op_keeps M {Tls} (ts_ensure_server_identity (esp_tls_service C) (rd_space M Tls) name)) \<and>
     (\<forall>name w. fst (ts_ensure_server_identity (esp_tls_service C) (rd_space M Tls) name w) = Ok () \<longrightarrow>
        rd_tls_ok M (rd_stored M Tls
          (snd (ts_ensure_server_identity (esp_tls_service C) (rd_space M Tls) name w)))) \<and>
     op_keeps M {} (ts_server_identity_valid (esp_tls_service C) (rd_space M Tls)) \<and>
     (\<forall>w. fst (ts_server_identity_valid (esp_tls_service C) (rd_space M Tls) w) \<longrightarrow>
        rd_tls_ok M (rd_stored M Tls w)) \<and>
     (\<forall>c k. op_keeps M {Tls} (ts_save_cert (esp_tls_service C) (rd_space M Tls) c k)) \<and>
     (\<forall>ca. op_keeps M {Tls} (ts_save_ca (esp_tls_service C) (rd_space M Tls) ca)) \<and>
     op_keeps M {} (ts_server_config (esp_tls_service C) (rd_space M Tls)) \<and>
     (\<forall>clock h p. op_keeps M {} (tc_connect C (rd_space M Tls) clock h p)) \<and>
     (\<forall>clock h p w. fst (tc_connect C (rd_space M Tls) clock h p w) = Ok () \<longrightarrow>
        clock w \<and> ca_ok (rd_stored M Tls w))"

lemma tls_lawD:
  assumes "tls_law M ca_ok C"
  shows "op_keeps M {} (esp_tls_init C now)"
    "op_keeps M {Tls} (esp_tls_ensure_server_identity C (rd_space M Tls) name)"
    "fst (esp_tls_ensure_server_identity C (rd_space M Tls) name w) = Ok () \<Longrightarrow>
       rd_tls_ok M (rd_stored M Tls (snd (esp_tls_ensure_server_identity C (rd_space M Tls) name w)))"
    "op_keeps M {} (esp_tls_server_identity_valid C (rd_space M Tls))"
    "fst (esp_tls_server_identity_valid C (rd_space M Tls) w) \<Longrightarrow> rd_tls_ok M (rd_stored M Tls w)"
    "op_keeps M {Tls} (esp_tls_save_cert C (rd_space M Tls) cert key)"
    "op_keeps M {Tls} (esp_tls_save_ca C (rd_space M Tls) ca)"
    "op_keeps M {} (esp_tls_server_config C (rd_space M Tls))"
    "op_keeps M {} (transport_connect C (client_transport (rd_space M Tls) clock) host port)"
    "fst (transport_connect C (client_transport (rd_space M Tls) clock) host port w) = Ok () \<Longrightarrow>
       clock w \<and> ca_ok (rd_stored M Tls w)"
  using assms
  unfolding tls_law_def esp_tls_init_def esp_tls_ensure_server_identity_def
    esp_tls_server_identity_valid_def esp_tls_save_cert_def esp_tls_save_ca_def
    esp_tls_server_config_def transport_connect_def client_transport_def
  by (simp_all only: secure_connector.simps) blast+

end
