(* ===== verification/Http_Mounts.thy ===== *)
theory Http_Mounts
  imports Http_Api Composition Esp_Tls
begin

text \<open>
  The routes \<open>src/http/api.rs\<close> mounts from other crates beside its own: the OTA routes, the
  Workload OTA routes and the two TLS routes. The crates own the paths, the bodies and the answers;
  the agent supplies the backends they call (\<open>src/composition/ota.rs\<close>,
  \<open>src/composition/tls.rs\<close>, \<open>WorkloadAuth\<close> of \<open>src/workload.rs\<close>), which authorize every one of
  them with the same stored token.
\<close>

section \<open>The backends\<close>

text \<open>\<open>ControlBackend\<close> and \<open>WriteBackend\<close> of \<open>iobewi-ota-http\<close>.\<close>

record ('w, 't, 'r, 'p) ota_backend =
  ob_authorize :: "bytes \<Rightarrow> 'w \<Rightarrow> bool \<times> 'w"
  ob_prepare :: "prepare_request \<Rightarrow> 'w \<Rightarrow> ('t, 'r) prepare_response \<times> 'w"
  ob_activate :: "bytes \<Rightarrow> 'w \<Rightarrow> (bytes, activate_failure) result \<times> 'w"
  ob_in_progress :: "'w \<Rightarrow> bool \<times> 'w"
  ob_received :: "'w \<Rightarrow> u32 \<times> 'w"
  ob_written :: "'w \<Rightarrow> u32 \<times> 'w"
  ob_params_match :: "'p \<Rightarrow> 'w \<Rightarrow> bool \<times> 'w"
  ob_begin :: "'p \<Rightarrow> 'w \<Rightarrow> (unit, begin_error) result \<times> 'w"
  ob_chunk :: "bytes \<Rightarrow> 'w \<Rightarrow> bool \<times> 'w"
  ob_finish :: "'w \<Rightarrow> (finish_result, write_finish_error) result \<times> 'w"

text \<open>
  The engine under it: \<open>iobewi_ota::service\<close> and the upload manager, on the space they keep
  their metadata in, and \<open>iobewi_esp_ota\<close> for the partitions.
\<close>

record ('w, 't, 'r, 'p) ota_engine =
  oe_prepare :: "'w config_space \<Rightarrow> bytes \<Rightarrow> bytes \<Rightarrow> bytes \<Rightarrow> bytes \<Rightarrow> u64 \<Rightarrow> 'w \<Rightarrow> ('t, 'r) result \<times> 'w"
  oe_activate_staged :: "'w config_space \<Rightarrow> bytes \<Rightarrow> 'w \<Rightarrow> (bytes, activate_error) result \<times> 'w"
  oe_in_progress :: "'w \<Rightarrow> bool \<times> 'w"
  oe_received :: "'w \<Rightarrow> u32 \<times> 'w"
  oe_written :: "'w \<Rightarrow> u32 \<times> 'w"
  oe_params_match :: "'p \<Rightarrow> 'w \<Rightarrow> bool \<times> 'w"
  oe_write_target :: "'w \<Rightarrow> (write_target, unit) result \<times> 'w"
  oe_begin :: "'w config_space \<Rightarrow> 'p \<Rightarrow> u64 \<Rightarrow> write_target \<Rightarrow> 'w \<Rightarrow> (unit, start_error) result \<times> 'w"
  oe_chunk :: "bytes \<Rightarrow> 'w \<Rightarrow> bool \<times> 'w"
  oe_finish :: "'w config_space \<Rightarrow> 'w \<Rightarrow> (finish_result, finish_error) result \<times> 'w"
  oe_parse_digest :: "bytes \<Rightarrow> bytes option"
  oe_hash_preloaded :: "u32 \<Rightarrow> 'w \<Rightarrow> (bytes \<times> bytes, unit) result \<times> 'w"
  oe_publish :: "'w config_space \<Rightarrow> bytes \<Rightarrow> u64 \<Rightarrow> bytes \<Rightarrow> bytes \<Rightarrow> 'w \<Rightarrow> (unit, unit) result \<times> 'w"
  oe_active_slot :: "'w \<Rightarrow> bytes \<times> 'w"
  oe_boot_info :: "'w \<Rightarrow> boot_entry \<times> 'w"

definition agent_ota_backend ::
  "('w, 't, 'r, 'p) ota_engine \<Rightarrow> (bytes \<Rightarrow> bytes \<Rightarrow> bool) \<Rightarrow> bytes \<Rightarrow> bytes
   \<Rightarrow> 'w config_space \<Rightarrow> 'w config_space \<Rightarrow> ('w, 't, 'r, 'p) ota_backend" where
  "agent_ota_backend E ct_eq chip_name partition_layout ota_cfg agent_cfg =
     \<lparr>ob_authorize = ota_authorize ct_eq agent_cfg,
      ob_prepare = ota_prepare (oe_prepare E ota_cfg) chip_name partition_layout,
      ob_activate = ota_activate (oe_activate_staged E ota_cfg),
      ob_in_progress = ota_in_progress (oe_in_progress E),
      ob_received = ota_received (oe_received E),
      ob_written = ota_written (oe_written E),
      ob_params_match = ota_params_match (oe_params_match E),
      ob_begin = ota_begin (oe_write_target E) (oe_begin E ota_cfg),
      ob_chunk = ota_chunk (oe_chunk E),
      ob_finish = ota_finish (oe_finish E ota_cfg)\<rparr>"

text \<open>\<open>EspFactoryOta\<close>: the same engine behind the provisioning form.\<close>

definition esp_factory_ota :: "('w, 't, 'r, 'p) ota_engine \<Rightarrow> 'w config_space \<Rightarrow> 'w factory_ota" where
  "esp_factory_ota E ota_cfg =
     \<lparr>fo_parse_digest = oe_parse_digest E, fo_hash_preloaded = oe_hash_preloaded E,
      fo_publish = oe_publish E ota_cfg, fo_activate_staged = oe_activate_staged E ota_cfg\<rparr>"

text \<open>\<open>ProvisioningBackend\<close> of \<open>iobewi-tls-http\<close>.\<close>

record ('w, 'e) tls_backend =
  tb_authorize :: "bytes \<Rightarrow> 'w \<Rightarrow> bool \<times> 'w"
  tb_save_cert :: "bytes \<Rightarrow> bytes \<Rightarrow> 'w \<Rightarrow> (unit, 'e) result \<times> 'w"
  tb_save_ca :: "bytes \<Rightarrow> 'w \<Rightarrow> (unit, 'e) result \<times> 'w"

definition agent_tls_backend ::
  "('w, 'n, 'c, 'e, 's) tls_crates \<Rightarrow> (bytes \<Rightarrow> bytes \<Rightarrow> bool) \<Rightarrow> 'w config_space \<Rightarrow> 'w config_space
   \<Rightarrow> ('w, 'e) tls_backend" where
  "agent_tls_backend C ct_eq tls_cfg agent_cfg =
     \<lparr>tb_authorize = tls_authorize ct_eq agent_cfg,
      tb_save_cert = tls_save_cert (esp_tls_save_cert C) tls_cfg,
      tb_save_ca = tls_save_ca (esp_tls_save_ca C) tls_cfg\<rparr>"

section \<open>The router\<close>

text \<open>
  The routes of the crates, on the server's state (the reboot capability included), for the
  Bearer token presented; \<open>'q\<close> and \<open>'v\<close> are what else they read of an OTA and of a Workload
  request. The TLS routes are called with the token, or the empty string, and the body.
\<close>

record ('w, 't, 'r, 'p, 'e, 'q, 'v) mounts =
  mt_ota_routes :: "('w, 't, 'r, 'p) ota_backend \<Rightarrow> bytes option \<Rightarrow> 'q \<Rightarrow> 'w server \<Rightarrow> response \<times> 'w server"
  mt_workload_routes :: "'w workload_service \<Rightarrow> (bytes \<Rightarrow> 'w \<Rightarrow> bool \<times> 'w) \<Rightarrow> control
     \<Rightarrow> bytes option \<Rightarrow> 'v \<Rightarrow> 'w server \<Rightarrow> response \<times> 'w server"
  mt_cert_response :: "('w, 'e) tls_backend \<Rightarrow> bytes \<Rightarrow> bytes \<Rightarrow> 'w \<Rightarrow> response \<times> 'w"
  mt_ca_response :: "('w, 'e) tls_backend \<Rightarrow> bytes \<Rightarrow> bytes \<Rightarrow> 'w \<Rightarrow> response \<times> 'w"

record ('w, 't, 'r, 'p, 'e) http_services =
  hs_api :: "'w api"
  hs_ota_backend :: "('w, 't, 'r, 'p) ota_backend"
  hs_workload :: "'w workload_service"
  hs_control :: control
  hs_tls_backend :: "('w, 'e) tls_backend"

datatype ('q, 'v) full_route = Own route | Ota_Routes 'q | Workload_Routes 'v | Post_Cert bytes | Post_Ca bytes

record ('q, 'v) full_request =
  full_bearer :: "bytes option"
  full_target :: "('q, 'v) full_route"

text \<open>The TLS handlers answer from the crate, on the stored values alone.\<close>

definition tls_route ::
  "(bytes \<Rightarrow> bytes \<Rightarrow> 'w \<Rightarrow> response \<times> 'w) \<Rightarrow> bytes option \<Rightarrow> bytes \<Rightarrow> 'w server \<Rightarrow> response \<times> 'w server" where
  "tls_route respond tok req_body s =
     (case respond (unwrap_or_default tok) req_body (srv_world s) of (r, w) \<Rightarrow> (r, s\<lparr>srv_world := w\<rparr>))"

definition serve_full ::
  "('w, 't, 'r, 'p, 'e, 'q, 'v) mounts \<Rightarrow> ('w, 't, 'r, 'p, 'e) http_services \<Rightarrow> ('q, 'v) full_request
   \<Rightarrow> 'w server \<Rightarrow> response \<times> 'w server" where
  "serve_full K hs req s =
     (case full_target req of
        Own r \<Rightarrow> serve_request (hs_api hs) \<lparr>bearer = full_bearer req, target = r\<rparr> s
      | Ota_Routes q \<Rightarrow> mt_ota_routes K (hs_ota_backend hs) (full_bearer req) q s
      | Workload_Routes v \<Rightarrow>
          mt_workload_routes K (hs_workload hs)
            (workload_authorize (ap_ct_eq (hs_api hs)) (ap_agent (hs_api hs))) (hs_control hs)
            (full_bearer req) v s
      | Post_Cert b \<Rightarrow> tls_route (mt_cert_response K (hs_tls_backend hs)) (full_bearer req) b s
      | Post_Ca b \<Rightarrow> tls_route (mt_ca_response K (hs_tls_backend hs)) (full_bearer req) b s)"

end
