(* ===== verification/Http_Pages.thy ===== *)
theory Http_Pages
  imports Rust_Std
begin

text \<open>
  The provisioning page: \<open>html_escape\<close> of \<open>src/http/mod.rs\<close> and the page assembly of
  \<open>src/http/config.rs\<close>. The HTML files the crate includes (\<open>index.html\<close>, \<open>confirm.html\<close>,
  \<open>locked.html\<close>) are text, not code: they are the fields of \<open>templates\<close>.
\<close>

section \<open>Escaping\<close>

definition escape_char :: "bytes \<Rightarrow> bytes" where
  "escape_char c =
     (if c = lit ''&'' then lit ''&amp;''
      else if c = lit ''<'' then lit ''&lt;''
      else if c = lit ''>'' then lit ''&gt;''
      else if c = [34] then lit ''&quot;''
      else c)"

definition html_escape :: "bytes \<Rightarrow> bytes" where
  "html_escape s = concat (map escape_char (chars s))"

section \<open>The page\<close>

record templates =
  INDEX_TEMPLATE :: bytes
  CONFIRM_TEMPLATE :: bytes
  LOCKED_PAGE :: bytes

text \<open>The form's value for "no status LED".\<close>

definition LED_DISABLED :: u8 where
  "LED_DISABLED = 255"

definition message_html :: "bytes \<Rightarrow> bool \<Rightarrow> bytes" where
  "message_html txt is_error =
     (let cls = (if is_error then lit ''message error'' else lit ''message'')
      in lit ''<p class=\"'' @ cls @ lit ''\">'' @ txt @ lit ''</p>'')"

definition selected :: "bool \<Rightarrow> bytes" where
  "selected b = (if b then lit '' selected'' else [])"

text \<open>The label of the first option, \<open>D\u{e9}sactiv\u{e9}e\<close> in UTF-8.\<close>

definition disabled_label :: bytes where
  "disabled_label = lit ''D'' @ [0xC3, 0xA9] @ lit ''sactiv'' @ [0xC3, 0xA9] @ lit ''e''"

definition led_options :: "u8 option \<Rightarrow> u8 list \<Rightarrow> bytes" where
  "led_options led_gpio status_led_gpios =
     lit ''<option value=\"'' @ fmt_dec (unat LED_DISABLED) @ lit ''\"'' @ selected (led_gpio = None) @
       lit ''>'' @ disabled_label @ lit ''</option>'' @
     concat (map (\<lambda>gpio. lit ''<option value=\"'' @ fmt_dec (unat gpio) @ lit ''\"'' @
         selected (led_gpio = Some gpio) @ lit ''>'' @ fmt_dec (unat gpio) @ lit ''</option>'')
       status_led_gpios)"

definition page ::
  "templates \<Rightarrow> u8 option \<Rightarrow> bytes \<Rightarrow> bytes \<Rightarrow> bytes option \<Rightarrow> u8 list \<Rightarrow> bytes" where
  "page T led_gpio node_id ctrl_url message status_led_gpios =
     (let p0 = INDEX_TEMPLATE T;
          p1 = str_replace p0 (lit ''{{OPTIONS}}'') (led_options led_gpio status_led_gpios);
          p2 = str_replace p1 (lit ''{{MESSAGE}}'') (case message of None \<Rightarrow> [] | Some m \<Rightarrow> m);
          p3 = str_replace p2 (lit ''{{NODE_ID}}'') (html_escape node_id)
      in str_replace p3 (lit ''{{CTRL_URL}}'') (html_escape ctrl_url))"

definition confirm_page :: "templates \<Rightarrow> bytes \<Rightarrow> bytes" where
  "confirm_page T token = str_replace (CONFIRM_TEMPLATE T) (lit ''{{TOKEN}}'') (html_escape token)"

section \<open>Escaping, byte by byte\<close>

text \<open>
  The characters \<open>html_escape\<close> looks for are ASCII, and no byte of a longer UTF-8 character is,
  so escaping characters is escaping bytes.
\<close>

definition escape_byte :: "u8 \<Rightarrow> bytes" where
  "escape_byte b = escape_char [b]"

lemma escape_byte_simps:
  "escape_byte b =
     (if b = 38 then [38, 97, 109, 112, 59] else if b = 60 then [38, 108, 116, 59]
      else if b = 62 then [38, 103, 116, 59] else if b = 34 then [38, 113, 117, 111, 116, 59] else [b])"
  by (simp add: escape_byte_def escape_char_def lit_def)

lemma utf8_high:
  "utf8_cont b \<Longrightarrow> 0x80 \<le> b" "utf8_lead2 b \<Longrightarrow> 0x80 \<le> b"
  "utf8_lead3 b c \<Longrightarrow> 0x80 \<le> b" "utf8_lead3 b c \<Longrightarrow> 0x80 \<le> c"
  "utf8_lead4 b c \<Longrightarrow> 0x80 \<le> b" "utf8_lead4 b c \<Longrightarrow> 0x80 \<le> c"
  by (auto simp: utf8_lead2_def utf8_lead3_def utf8_lead4_def utf8_cont_def word_le_nat_alt)

lemma utf8_next_bytes:
  assumes "utf8_next bs = Some n"
  shows "n = 1 \<and> hd bs < 0x80 \<or> 1 < n \<and> list_all (\<lambda>b. 0x80 \<le> b) (take n bs)"
proof (cases bs)
  case Nil
  with assms show ?thesis by (simp add: utf8_next_def)
next
  case (Cons b0 r0)
  show ?thesis
  proof (cases "b0 < 0x80")
    case True
    with assms Cons show ?thesis by (simp add: utf8_next_def)
  next
    case False
    consider b1 r1 where "n = 2" "r0 = b1 # r1" "utf8_lead2 b0" "utf8_cont b1"
      | b1 b2 r2 where "n = 3" "r0 = b1 # b2 # r2" "utf8_lead3 b0 b1" "utf8_cont b2"
      | b1 b2 b3 r3 where "n = 4" "r0 = b1 # b2 # b3 # r3" "utf8_lead4 b0 b1" "utf8_cont b2" "utf8_cont b3"
      using assms Cons False by (auto simp: utf8_next_def split: list.splits if_splits)
    then show ?thesis
      by cases (simp_all add: Cons numeral_2_eq_2 numeral_3_eq_3 eval_nat_numeral utf8_high)
  qed
qed

lemma escape_high: "list_all (\<lambda>b. 0x80 \<le> b) bs \<Longrightarrow> concat (map escape_byte bs) = bs"
  by (induction bs) (auto simp: escape_byte_simps word_le_nat_alt)

lemma escape_char_long: "1 < length c \<Longrightarrow> escape_char c = c"
  by (auto simp: escape_char_def lit_def)

lemma html_escape_bytes:
  assumes "utf8 s"
  shows "html_escape s = concat (map escape_byte s)"
proof -
  have "concat (map escape_char cs) = concat (map escape_byte bs)" if "utf8_chars bs = Some cs" for bs cs
    using that
  proof (induction bs arbitrary: cs rule: utf8_chars.induct)
    case (1 bs)
    from "1.prems" show ?case
    proof (cases rule: utf8_chars_SomeE)
      case 1
      then show ?thesis by simp
    next
      case (2 n ds)
      note first = utf8_next_bytes [OF 2(1)]
      have n: "0 < n" "n \<le> length bs" using utf8_next_bounds [OF 2(1)] by auto
      then have IH: "concat (map escape_char ds) = concat (map escape_byte (drop n bs))"
        using "1.IH" [of n ds] 2 by fastforce
      have "escape_char (take n bs) = concat (map escape_byte (take n bs))"
        using first
      proof (elim disjE conjE)
        assume "n = 1"
        with n show ?thesis by (cases bs) (simp_all add: escape_byte_def)
      next
        assume "1 < n" and "list_all (\<lambda>b. 0x80 \<le> b) (take n bs)"
        then show ?thesis using n by (simp add: escape_high escape_char_long)
      qed
      with IH 2(3) show ?thesis
        by (metis append_take_drop_id concat_append list.simps(9) map_append concat.simps(2))
    qed
  qed
  with assms show ?thesis by (auto simp: html_escape_def chars_def utf8_def)
qed

text \<open>
  What a browser makes of it: the four entities stand for their characters, any other byte for
  itself.
\<close>

fun html_unescape :: "bytes \<Rightarrow> bytes" where
  "html_unescape [] = []"
| "html_unescape (c # cs) =
     (if c = 38 then
        (if starts_with cs [97, 109, 112, 59] then 38 # html_unescape (drop 4 cs)
         else if starts_with cs [108, 116, 59] then 60 # html_unescape (drop 3 cs)
         else if starts_with cs [103, 116, 59] then 62 # html_unescape (drop 3 cs)
         else if starts_with cs [113, 117, 111, 116, 59] then 34 # html_unescape (drop 5 cs)
         else c # html_unescape cs)
      else c # html_unescape cs)"

lemma unescape_escape_byte: "html_unescape (escape_byte b @ s) = b # html_unescape s"
  by (simp add: escape_byte_simps starts_with_def)

text \<open>
  C29: escaping neutralises text for an attribute and loses nothing. The escaped text contains no
  \<open><\<close>, no \<open>>\<close> and no double quote, so it cannot leave the attribute or open a tag, and a browser
  that resolves the four entities reads back exactly the original text.
\<close>

theorem html_escape_neutralises:
  assumes "utf8 s"
  shows "list_all (\<lambda>b. b \<noteq> 60 \<and> b \<noteq> 62 \<and> b \<noteq> 34) (html_escape s) \<and>
    html_unescape (html_escape s) = s"
proof -
  have "list_all (\<lambda>b. b \<noteq> 60 \<and> b \<noteq> 62 \<and> b \<noteq> 34) (concat (map escape_byte s))"
    by (induction s) (simp_all add: escape_byte_simps)
  moreover have "html_unescape (concat (map escape_byte s)) = s"
    by (induction s) (simp_all add: unescape_escape_byte)
  ultimately show ?thesis using html_escape_bytes [OF assms] by simp
qed

theorem html_escape_neutralises_witness:
  "html_unescape (html_escape (lit ''<b onload=x>&lt;'')) = lit ''<b onload=x>&lt;''"
  using html_escape_neutralises [of "lit ''<b onload=x>&lt;''"]
  by (simp add: ascii_utf8 lit_def)

end
