(* ===== verification/Http_Config.thy ===== *)
theory Http_Config
  imports Http_Pages Http_Api Composition Boot_Policy
begin

text \<open>
  \<open>src/http/config.rs\<close>: the provisioning form of the init image. A submission is accepted only
  while the lifecycle allows it; it saves the LED pin and the identity, stages the preloaded
  agent, moves the lifecycle to \<open>ReadyForAgent\<close>, activates the staged image and asks for the
  reboot, in this order, and stops at the first step that fails.
\<close>

section \<open>The handlers\<close>

record 'w form_server =
  fs_agent :: "'w config_space"
  fs_hardware :: "'w config_space"
  fs_lifecycle :: "'w config_space"
  fs_ota :: "'w ota_service"
  fs_factory :: "'w factory_ota"
  fs_factory_agent :: preloaded_agent
  fs_hardware_id :: bytes
  fs_entropy :: "'w \<Rightarrow> (nat \<Rightarrow> u8) \<times> 'w"
  fs_pins :: "u8 list"
  fs_templates :: templates

record config_form =
  form_led_gpio :: u8
  form_node_id :: bytes
  form_ctrl_url :: bytes

definition locked_response :: "templates \<Rightarrow> response" where
  "locked_response T = \<lparr>status = LOCKED, body = LOCKED_PAGE T\<rparr>"

definition form_open :: "(bootstrap_state, unit) result \<Rightarrow> bool" where
  "form_open lifecycle \<longleftrightarrow> lifecycle = Ok Provisioning \<or> lifecycle = Ok ReadyForAgent"

definition get_form :: "'w form_server \<Rightarrow> ('w, response) act" where
  "get_form F =
     act_bind (bootstrap_state_of (fs_ota F) (fs_lifecycle F)) (\<lambda>lifecycle.
     act_bind (act_read (led_gpio (fs_hardware F))) (\<lambda>gpio.
     if \<not> form_open lifecycle then act_return (locked_response (fs_templates F))
     else
       act_bind (act_read (node_id (fs_agent F) (fs_hardware_id F))) (\<lambda>nid.
       act_bind (act_read (ctrl_url (fs_agent F))) (\<lambda>url.
       act_return \<lparr>status = OK, body = page (fs_templates F) gpio nid url None (fs_pins F)\<rparr>))))"

text \<open>The messages of the form, in the order of the steps.\<close>

definition bad_pin_message :: bytes where
  "bad_pin_message = message_html (lit ''Broche hors plage pour cette puce.'') True"

definition write_failed_message :: bytes where
  "write_failed_message = message_html
     ([0xC3, 0x89] @ lit ''chec de l'' @ [39, 0xC3, 0xA9] @ lit ''criture en m'' @ [0xC3, 0xA9] @
      lit ''moire flash, r'' @ [0xC3, 0xA9] @ lit ''essayez.'') True"

definition bad_image_message :: bytes where
  "bad_image_message = message_html
     (lit ''L'' @ [39] @ lit ''image agent pr'' @ [0xC3, 0xA9] @ lit ''charg'' @ [0xC3, 0xA9] @
      lit ''e est absente ou invalide.'') True"

definition lifecycle_failed_message :: bytes where
  "lifecycle_failed_message = message_html
     ([0xC3, 0x89] @ lit ''chec du passage '' @ [0xC3, 0xA0] @ lit '' ReadyForAgent.'') True"

definition activation_failed_message :: bytes where
  "activation_failed_message = message_html
     ([0xC3, 0x89] @ lit ''chec de l'' @ [39] @ lit ''activation du premier agent.'') True"

text \<open>A rejected submission re-serves the form with the submitted values and the message.\<close>

definition form_error :: "'w form_server \<Rightarrow> config_form \<Rightarrow> status_code \<Rightarrow> u8 option \<Rightarrow> bytes \<Rightarrow> response" where
  "form_error F form code gpio message =
     \<lparr>status = code,
      body = page (fs_templates F) gpio (form_node_id form) (form_ctrl_url form) (Some message) (fs_pins F)\<rparr>"

text \<open>The two writes: the identity is saved only if the LED pin was.\<close>

definition save_form :: "'w form_server \<Rightarrow> config_form \<Rightarrow> u8 option \<Rightarrow> ('w, bool) act" where
  "save_form F form gpio =
     act_bind (act_read (save_led_gpio (fs_hardware F) gpio)) (\<lambda>r.
     if is_err r then act_return False
     else
       act_bind (act_read (save_identity (fs_agent F) (form_node_id form) (form_ctrl_url form) []
          (fs_entropy F))) (\<lambda>r2. act_return (is_ok r2)))"

text \<open>What follows the writes, last step first: activate and reboot; lifecycle; token and stage.\<close>

definition activate_form :: "'w form_server \<Rightarrow> config_form \<Rightarrow> u8 option \<Rightarrow> bytes \<Rightarrow> ('w, response) act" where
  "activate_form F form gpio tok =
     act_bind (factory_activate (fs_factory F) (pa_deployment_id (fs_factory_agent F))) (\<lambda>r.
     if is_err r then act_return (form_error F form INTERNAL_SERVER_ERROR gpio activation_failed_message)
     else act_seq (act_call Schedule_Reboot (\<lambda>w. ((), w)))
       (act_return \<lparr>status = OK, body = confirm_page (fs_templates F) tok\<rparr>))"

definition advance_form :: "'w form_server \<Rightarrow> config_form \<Rightarrow> u8 option \<Rightarrow> bytes \<Rightarrow> ('w, response) act" where
  "advance_form F form gpio tok =
     act_bind (ready_for_agent (fs_ota F) (fs_lifecycle F)) (\<lambda>r.
     if is_err r then act_return (form_error F form INTERNAL_SERVER_ERROR gpio lifecycle_failed_message)
     else activate_form F form gpio tok)"

definition finish_form :: "'w form_server \<Rightarrow> config_form \<Rightarrow> u8 option \<Rightarrow> ('w, response) act" where
  "finish_form F form gpio =
     act_bind (act_read (token (fs_agent F))) (\<lambda>tok.
     act_bind (stage_preloaded (fs_factory F) (fs_factory_agent F)) (\<lambda>r.
     if is_err r then act_return (form_error F form INTERNAL_SERVER_ERROR gpio bad_image_message)
     else advance_form F form gpio tok))"

definition post_form :: "'w form_server \<Rightarrow> config_form \<Rightarrow> ('w, response) act" where
  "post_form F form =
     act_bind (bootstrap_state_of (fs_ota F) (fs_lifecycle F)) (\<lambda>lifecycle.
     if \<not> form_open lifecycle then act_return (locked_response (fs_templates F))
     else
       let gpio = (if form_led_gpio form \<noteq> LED_DISABLED then Some (form_led_gpio form) else None)
       in if (case gpio of None \<Rightarrow> False | Some g \<Rightarrow> g \<notin> set (fs_pins F)) then
            act_return (form_error F form BAD_REQUEST None bad_pin_message)
          else act_bind (save_form F form gpio) (\<lambda>saved.
            if \<not> saved then act_return (form_error F form INTERNAL_SERVER_ERROR gpio write_failed_message)
            else finish_form F form gpio))"
section \<open>What the form relies on\<close>

definition form_law ::
  "'w reading \<Rightarrow> (bytes \<Rightarrow> u32 \<Rightarrow> 'w \<Rightarrow> bytes) \<Rightarrow> 'w form_server \<Rightarrow> bool" where
  "form_law M slot_hash F \<longleftrightarrow>
     config_space_law (rd_space M) (rd_stored M) \<and>
     fs_agent F = rd_space M Agent \<and> fs_hardware F = rd_space M Hardware \<and>
     entropy_law (fs_entropy F) (rd_stored M) \<and>
     factory_law (rd_stored M) slot_hash (fs_factory F) \<and>
     writes_only (rd_stored M) {} (svc_bootstrap_state (fs_ota F) (fs_lifecycle F)) \<and>
     writes_only (rd_stored M) {Lifecycle} (svc_ready_for_agent (fs_ota F) (fs_lifecycle F)) \<and>
     (\<forall>w s. fst (svc_bootstrap_state (fs_ota F) (fs_lifecycle F) w) = Ok s \<longrightarrow>
        rd_life M (rd_stored M Lifecycle w) = Some s) \<and>
     (\<forall>w. fst (svc_ready_for_agent (fs_ota F) (fs_lifecycle F) w) = Ok () \<longrightarrow>
        rd_life M (rd_stored M Lifecycle (snd (svc_ready_for_agent (fs_ota F) (fs_lifecycle F) w))) =
          Some ReadyForAgent)"

lemma form_lawD:
  assumes "form_law M slot_hash F"
  shows "config_space_law (rd_space M) (rd_stored M)"
    "fs_agent F = rd_space M Agent" "fs_hardware F = rd_space M Hardware"
    "entropy_law (fs_entropy F) (rd_stored M)" "factory_law (rd_stored M) slot_hash (fs_factory F)"
    "rd_stored M m (snd (svc_bootstrap_state (fs_ota F) (fs_lifecycle F) w)) = rd_stored M m w"
    "m \<noteq> Lifecycle \<Longrightarrow>
       rd_stored M m (snd (svc_ready_for_agent (fs_ota F) (fs_lifecycle F) w)) = rd_stored M m w"
    "fst (svc_bootstrap_state (fs_ota F) (fs_lifecycle F) w) = Ok s \<Longrightarrow>
       rd_life M (rd_stored M Lifecycle w) = Some s"
    "fst (svc_ready_for_agent (fs_ota F) (fs_lifecycle F) w) = Ok () \<Longrightarrow>
       rd_life M (rd_stored M Lifecycle (snd (svc_ready_for_agent (fs_ota F) (fs_lifecycle F) w))) =
         Some ReadyForAgent"
  using assms by (simp_all add: form_law_def writes_only_def)

text \<open>The pin a submission asks for, and a submission whose text is text.\<close>

definition form_pin :: "config_form \<Rightarrow> u8 option" where
  "form_pin form = (if form_led_gpio form \<noteq> LED_DISABLED then Some (form_led_gpio form) else None)"

definition form_text :: "config_form \<Rightarrow> bool" where
  "form_text form \<longleftrightarrow> utf8 (form_node_id form) \<and> utf8 (form_ctrl_url form)"

text \<open>What a saved submission leaves in the hardware and agent spaces.\<close>

definition form_saved :: "'w reading \<Rightarrow> config_form \<Rightarrow> 'w \<Rightarrow> bool" where
  "form_saved M form w \<longleftrightarrow>
     (\<exists>g. rd_stored M Hardware w = Some \<lparr>data = hardware_encode (form_pin form), generation = g\<rparr>) \<and>
     (\<exists>c. agent_view (rd_stored M Agent w) = Some c \<and> cfg_node_id c = form_node_id form \<and>
        cfg_ctrl_url c = form_ctrl_url form \<and> cfg_token c \<noteq> [])"

lemma form_saved_cong:
  "rd_stored M Hardware w' = rd_stored M Hardware w \<Longrightarrow> rd_stored M Agent w' = rd_stored M Agent w \<Longrightarrow>
   form_saved M form w' \<longleftrightarrow> form_saved M form w"
  by (simp add: form_saved_def)

lemma save_form_spec:
  assumes law: "form_law M slot_hash F" and ftext: "form_text form"
  shows "wp (save_form F form (form_pin form))
     (\<lambda>b d'. calls d' = calls d \<and> STATE d' = STATE d \<and>
        (\<forall>m. m \<noteq> Hardware \<longrightarrow> m \<noteq> Agent \<longrightarrow> rd_stored M m (world d') = rd_stored M m (world d)) \<and>
        (b \<longrightarrow> form_saved M form (world d'))) (\<lambda>e d'. False) d"
proof -
  note L = form_lawD [OF law]
  obtain r1 w1 where hw: "save_led_gpio (rd_space M Hardware) (form_pin form) (world d) = (r1, w1)" by force
  obtain r2 w2 where id: "save_identity (rd_space M Agent) (form_node_id form) (form_ctrl_url form) []
      (fs_entropy F) w1 = (r2, w2)" by force
  note k1 = save_led_gpio_other [OF L(1) hw]
  have u8: "utf8 (form_node_id form)" "utf8 (form_ctrl_url form)" "utf8 []"
    using ftext by (simp_all add: form_text_def)
  note eff = save_identity_stores [OF L(1) L(4) u8 id]
  have saved: "form_saved M form w2" if "r1 = Ok ()" "r2 = Ok ()"
  proof -
    have "save_led_gpio (rd_space M Hardware) (form_pin form) (world d) = (Ok (), w1)"
      using hw that(1) by simp
    from save_led_gpio_Ok [OF L(1) this]
    obtain g where "rd_stored M Hardware w1 = Some \<lparr>data = hardware_encode (form_pin form), generation = g\<rparr>"
      by blast
    with eff that(2) show ?thesis by (simp add: form_saved_def)
  qed
  have k2: "rd_stored M m w2 = rd_stored M m (world d)" if "m \<noteq> Hardware" "m \<noteq> Agent" for m
    using k1 [of m] eff that by simp
  show ?thesis
    using hw id saved k1 k2 L(2,3)
    by (cases r1; cases r2) (simp_all add: save_form_def wp_rules)
qed
text \<open>
  How far a submission got: it made the first \<open>k\<close> of the calls that end with the reboot, and made
  them all exactly when it answers \<open>200\<close>; the calls write the OTA and lifecycle spaces only.
\<close>

definition progress ::
  "'w reading \<Rightarrow> call list \<Rightarrow> 'w device \<Rightarrow> response \<Rightarrow> 'w device \<Rightarrow> bool" where
  "progress M cs d r d' \<longleftrightarrow>
     (\<exists>k. calls d' = calls d @ take k cs \<and>
        (if status r = OK then length cs \<le> k \<and>
             rd_life M (rd_stored M Lifecycle (world d')) = Some ReadyForAgent
         else status r = INTERNAL_SERVER_ERROR \<and> k < length cs)) \<and>
     (\<forall>m. m \<noteq> Ota \<longrightarrow> m \<noteq> Lifecycle \<longrightarrow> rd_stored M m (world d') = rd_stored M m (world d)) \<and>
     STATE d' = STATE d"

lemma status_form_error [simp]: "status (form_error F form code gpio message) = code"
  by (simp add: form_error_def)

text \<open>A submission that made the first call may go on with the others, or stop there.\<close>

definition form_step :: "'w reading \<Rightarrow> call list \<Rightarrow> 'w device \<Rightarrow> 'w device \<Rightarrow> bool" where
  "form_step M cs d d' \<longleftrightarrow>
     calls d' = calls d @ cs \<and> STATE d' = STATE d \<and>
     (\<forall>m. m \<noteq> Ota \<longrightarrow> m \<noteq> Lifecycle \<longrightarrow> rd_stored M m (world d') = rd_stored M m (world d))"

lemma progress_step:
  assumes "form_step M [c] d d1" and "progress M cs d1 r d'"
  shows "progress M (c # cs) d r d'"
proof -
  obtain k where k: "calls d' = calls d1 @ take k cs"
    "if status r = OK then length cs \<le> k \<and> rd_life M (rd_stored M Lifecycle (world d')) = Some ReadyForAgent
     else status r = INTERNAL_SERVER_ERROR \<and> k < length cs"
    using assms(2) by (auto simp: progress_def)
  have "calls d' = calls d @ take (Suc k) (c # cs)"
    using k assms(1) by (simp add: form_step_def)
  moreover have "if status r = OK then length (c # cs) \<le> Suc k \<and>
      rd_life M (rd_stored M Lifecycle (world d')) = Some ReadyForAgent
      else status r = INTERNAL_SERVER_ERROR \<and> Suc k < length (c # cs)"
    using k(2) by simp
  ultimately show ?thesis
    using assms unfolding progress_def form_step_def by metis
qed

lemma progress_skip:
  assumes "form_step M [] d d1" and "progress M cs d1 r d'"
  shows "progress M cs d r d'"
  using assms by (simp add: progress_def form_step_def)

lemma progress_stop:
  assumes "form_step M (take k cs) d d'" and "k < length cs" and "status r = INTERNAL_SERVER_ERROR"
  shows "progress M cs d r d'"
  using assms by (auto simp: progress_def form_step_def)

lemma activate_form_spec:
  assumes law: "form_law M slot_hash F"
    and life: "rd_life M (rd_stored M Lifecycle (world d)) = Some ReadyForAgent"
  shows "wp (activate_form F form gpio tok)
     (progress M [Activate_Staged (pa_deployment_id (fs_factory_agent F)), Schedule_Reboot] d)
     (\<lambda>e d'. False) d"
proof -
  note act = factory_activate_spec [OF form_lawD(5) [OF law], of "pa_deployment_id (fs_factory_agent F)" d]
  show ?thesis
    unfolding activate_form_def wp_bind
  proof (rule wp_mono [OF act], goal_cases)
    case (1 r d')
    then show ?case
      using life by (auto simp: progress_def wp_rules intro: exI [of _ 1] exI [of _ 2])
  qed simp
qed

lemma advance_form_spec:
  assumes law: "form_law M slot_hash F"
  shows "wp (advance_form F form gpio tok)
     (progress M [Ready_For_Agent, Activate_Staged (pa_deployment_id (fs_factory_agent F)),
        Schedule_Reboot] d)
     (\<lambda>e d'. False) d"
proof -
  note L = form_lawD [OF law]
  let ?ready = "svc_ready_for_agent (fs_ota F) (fs_lifecycle F) (world d)"
  let ?d1 = "d\<lparr>world := snd ?ready, calls := calls d @ [Ready_For_Agent]\<rparr>"
  have step: "form_step M [Ready_For_Agent] d ?d1"
    using L(7) by (simp add: form_step_def)
  show ?thesis
  proof (cases "fst ?ready")
    case (Ok u)
    then have "rd_life M (rd_stored M Lifecycle (world ?d1)) = Some ReadyForAgent"
      using L(9) [of "world d"] by simp
    from wp_mono [OF activate_form_spec [OF law this] progress_step [OF step]]
    show ?thesis using Ok by (simp add: advance_form_def ready_for_agent_def wp_rules)
  next
    case (Err e)
    then show ?thesis
      using progress_stop [of M 1 "[Ready_For_Agent, Activate_Staged (pa_deployment_id (fs_factory_agent F)),
        Schedule_Reboot]" d ?d1] step
      by (simp add: advance_form_def ready_for_agent_def wp_rules)
  qed
qed

definition form_calls :: "preloaded_agent \<Rightarrow> bytes \<Rightarrow> bytes \<Rightarrow> call list" where
  "form_calls img h slot =
     [Publish (pa_deployment_id img) (pa_size img) h slot, Ready_For_Agent,
      Activate_Staged (pa_deployment_id img), Schedule_Reboot]"

lemma length_form_calls: "length (form_calls img h slot) = 4"
  by (simp add: form_calls_def)

lemma finish_form_spec:
  assumes law: "form_law M slot_hash F"
  shows "wp (finish_form F form gpio)
     (\<lambda>r d'. \<exists>h slot. progress M (form_calls (fs_factory_agent F) h slot) d r d' \<and>
        (calls d' \<noteq> calls d \<longrightarrow> fo_parse_digest (fs_factory F) (pa_digest (fs_factory_agent F)) = Some h))
     (\<lambda>e d'. False) d"
proof -
  note L = form_lawD [OF law]
  let ?img = "fs_factory_agent F"
  obtain tok w1 where tok: "token (rd_space M Agent) (world d) = (tok, w1)" by force
  let ?d1 = "d\<lparr>world := w1\<rparr>"
  have skip: "form_step M [] d ?d1"
    using token_keeps [OF L(1) tok] by (simp add: form_step_def)
  let ?rest = "\<lambda>r. if is_err r then act_return (form_error F form INTERNAL_SERVER_ERROR gpio bad_image_message)
     else advance_form F form gpio tok"
  have "wp (stage_preloaded (fs_factory F) ?img) (\<lambda>r. wp (?rest r)
     (\<lambda>r d'. \<exists>h slot. progress M (form_calls ?img h slot) d r d' \<and>
        (calls d' \<noteq> calls d \<longrightarrow> fo_parse_digest (fs_factory F) (pa_digest ?img) = Some h))
     (\<lambda>e d'. False)) (\<lambda>e d'. False) ?d1"
  proof (rule wp_mono [OF stage_preloaded_spec [OF L(5)]], goal_cases)
    case (1 r d2)
    then consider (refused) "calls d2 = calls d" "r = Err ()"
      | (published) h slot where "fo_parse_digest (fs_factory F) (pa_digest ?img) = Some h"
        "calls d2 = calls d @ [Publish (pa_deployment_id ?img) (pa_size ?img) h slot]"
      by auto
    then show ?case
    proof cases
      case refused
      then have "form_step M (take 0 (form_calls ?img h slot)) d d2" for h slot
        using 1 skip by (simp add: form_step_def)
      then have "progress M (form_calls ?img [] []) d
          (form_error F form INTERNAL_SERVER_ERROR gpio bad_image_message) d2"
        by (rule progress_stop) (simp_all add: form_calls_def)
      with refused show ?thesis by (auto simp: wp_rules)
    next
      case published
      then have step: "form_step M [Publish (pa_deployment_id ?img) (pa_size ?img) h slot] d d2"
        using 1 skip by (simp add: form_step_def)
      show ?thesis
      proof (cases "is_err r")
        case True
        have "progress M (form_calls ?img h slot) d
            (form_error F form INTERNAL_SERVER_ERROR gpio bad_image_message) d2"
          by (rule progress_stop [of _ 1]) (use step in \<open>simp_all add: form_calls_def\<close>)
        with True published(1) show ?thesis by (auto simp: wp_rules)
      next
        case False
        have "wp (advance_form F form gpio tok) (progress M (form_calls ?img h slot) d) (\<lambda>e d'. False) d2"
          by (rule wp_mono [OF advance_form_spec [OF law]])
             (simp_all add: form_calls_def progress_step [OF step])
        then show ?thesis
          using False published(1) by (auto elim!: wp_mono)
      qed
    qed
  qed simp
  then show ?thesis
    unfolding finish_form_def wp_bind wp_read L(2) tok fst_conv snd_conv .
qed

text \<open>A submission is taken when the lifecycle is open and the pin is one the chip offers.\<close>

definition form_accepts :: "'w form_server \<Rightarrow> config_form \<Rightarrow> 'w \<Rightarrow> bool" where
  "form_accepts F form w \<longleftrightarrow>
     form_open (fst (svc_bootstrap_state (fs_ota F) (fs_lifecycle F) w)) \<and>
     (case form_pin form of None \<Rightarrow> True | Some g \<Rightarrow> g \<in> set (fs_pins F))"

lemma post_form_refused:
  assumes "\<not> form_accepts F form (world d)"
  shows "post_form F form d =
    (Returns (if form_open (fst (svc_bootstrap_state (fs_ota F) (fs_lifecycle F) (world d)))
       then form_error F form BAD_REQUEST None bad_pin_message else locked_response (fs_templates F)),
     d\<lparr>world := snd (svc_bootstrap_state (fs_ota F) (fs_lifecycle F) (world d))\<rparr>)"
  using assms
  by (auto simp: form_accepts_def form_pin_def post_form_def bootstrap_state_of_def act_bind_def
      act_read_def act_return_def Let_def split: prod.splits option.splits if_splits)

definition wrote_nothing_else :: "'w reading \<Rightarrow> 'w device \<Rightarrow> 'w device \<Rightarrow> bool" where
  "wrote_nothing_else M d d' \<longleftrightarrow>
     (\<forall>m. m \<noteq> Hardware \<longrightarrow> m \<noteq> Agent \<longrightarrow> rd_stored M m (world d') = rd_stored M m (world d)) \<and>
     calls d' = calls d \<and> STATE d' = STATE d"

lemma post_form_accepted:
  assumes law: "form_law M slot_hash F" and ftext: "form_text form"
    and acc: "form_accepts F form (world d)"
  shows "wp (post_form F form)
     (\<lambda>r d'. \<exists>d1. wrote_nothing_else M d d1 \<and>
        (status r = INTERNAL_SERVER_ERROR \<and> d' = d1 \<or>
         form_saved M form (world d1) \<and>
         (\<exists>h slot. progress M (form_calls (fs_factory_agent F) h slot) d1 r d' \<and>
           (calls d' \<noteq> calls d1 \<longrightarrow>
             fo_parse_digest (fs_factory F) (pa_digest (fs_factory_agent F)) = Some h))))
     (\<lambda>e d'. False) d"
proof -
  note L = form_lawD [OF law]
  let ?d0 = "d\<lparr>world := snd (svc_bootstrap_state (fs_ota F) (fs_lifecycle F) (world d))\<rparr>"
  let ?Q = "\<lambda>r d'. \<exists>d1. wrote_nothing_else M d d1 \<and>
        (status r = INTERNAL_SERVER_ERROR \<and> d' = d1 \<or>
         form_saved M form (world d1) \<and>
         (\<exists>h slot. progress M (form_calls (fs_factory_agent F) h slot) d1 r d' \<and>
           (calls d' \<noteq> calls d1 \<longrightarrow>
             fo_parse_digest (fs_factory F) (pa_digest (fs_factory_agent F)) = Some h)))"
  have "wp (save_form F form (form_pin form)) (\<lambda>saved. wp
      (if \<not> saved then act_return (form_error F form INTERNAL_SERVER_ERROR (form_pin form) write_failed_message)
       else finish_form F form (form_pin form)) ?Q (\<lambda>e d'. False)) (\<lambda>e d'. False) ?d0"
  proof (rule wp_mono [OF save_form_spec [OF law ftext]], goal_cases)
    case (1 saved d1)
    then have d1: "wrote_nothing_else M d d1"
      using L(6) by (simp add: wrote_nothing_else_def)
    show ?case
    proof (cases saved)
      case True
      then have "form_saved M form (world d1)" using 1 by simp
      with d1 have "wp (finish_form F form (form_pin form)) ?Q (\<lambda>e d'. False) d1"
        by (intro wp_mono [OF finish_form_spec [OF law]]) blast+
      with True show ?thesis by simp
    next
      case False
      with d1 show ?thesis by (auto simp: wp_rules)
    qed
  qed simp
  moreover have "form_open (fst (svc_bootstrap_state (fs_ota F) (fs_lifecycle F) (world d)))"
    and "\<not> (case form_pin form of None \<Rightarrow> False | Some g \<Rightarrow> g \<notin> set (fs_pins F))"
    using acc by (auto simp: form_accepts_def split: option.splits)
  ultimately show ?thesis
    unfolding post_form_def wp_bind wp_bootstrap_state_of Let_def form_pin_def [symmetric]
    by (simp add: wp_bind)
qed
section \<open>Properties\<close>

text \<open>
  A factory device on the in-memory provider: the lifecycle is a byte of its space, absent on a
  fresh device.
\<close>

definition life_stored :: "snapshot option \<Rightarrow> bootstrap_state" where
  "life_stored s = (case s of
     None \<Rightarrow> Factory
   | Some sn \<Rightarrow> if data sn = [1] then Provisioning else if data sn = [2] then ReadyForAgent else Production)"

definition life_commit :: "u8 \<Rightarrow> ram config_space \<Rightarrow> ram \<Rightarrow> (unit, unit) result \<times> ram" where
  "life_commit b space w = (case commit space [b] w of (Ok _, w') \<Rightarrow> (Ok (), w') | (Err e, w') \<Rightarrow> (Err e, w'))"

definition init_ota :: "ram ota_service" where
  "init_ota = demo_ota\<lparr>
     svc_bootstrap_state := (\<lambda>space w. case load space w of
         (Ok s, w') \<Rightarrow> (Ok (life_stored s), w') | (Err e, w') \<Rightarrow> (Err e, w')),
     svc_begin_provisioning := life_commit 1,
     svc_ready_for_agent := life_commit 2,
     svc_production := life_commit 3\<rparr>"

definition init_reading :: "ram reading" where
  "init_reading = demo_reading\<lparr>rd_life := (\<lambda>s. Some (life_stored s))\<rparr>"

lemma init_reading_simps [simp]:
  "rd_space init_reading = ram_space" "rd_stored init_reading = (\<lambda>n w. cells w n)"
  "rd_life init_reading = (\<lambda>s. Some (life_stored s))"
  by (simp_all add: init_reading_def demo_reading_def)

definition demo_form_server :: "ram form_server" where
  "demo_form_server = \<lparr>fs_agent = ram_space Agent, fs_hardware = ram_space Hardware,
     fs_lifecycle = ram_space Lifecycle, fs_ota = init_ota, fs_factory = demo_factory,
     fs_factory_agent = \<lparr>pa_size = 4096, pa_digest = [7], pa_deployment_id = lit ''f''\<rparr>,
     fs_hardware_id = lit ''a1'', fs_entropy = (\<lambda>w. (\<lambda>_. 171, w)), fs_pins = [2, 48],
     fs_templates = \<lparr>INDEX_TEMPLATE = lit ''{{MESSAGE}}{{NODE_ID}}'',
       CONFIRM_TEMPLATE = lit ''{{TOKEN}}'', LOCKED_PAGE = lit ''locked''\<rparr>\<rparr>"

lemma init_ota_ops:
  "svc_bootstrap_state init_ota (ram_space n) w =
     (if ram_faulty w then Err () else Ok (life_stored (cells w n)), w\<lparr>faults := tl (faults w)\<rparr>)"
  "svc_ready_for_agent init_ota = life_commit 2" "svc_production init_ota = life_commit 3"
  "svc_begin_provisioning init_ota = life_commit 1"
  by (simp_all add: init_ota_def ram_space_def Let_def)

lemma life_commit_keeps: "m \<noteq> n \<Longrightarrow> cells (snd (life_commit b (ram_space n) w)) m = cells w m"
  by (simp add: life_commit_def ram_space_def Let_def)

lemma life_commit_Ok:
  "fst (life_commit b (ram_space n) w) = Ok () \<Longrightarrow>
   \<exists>g. cells (snd (life_commit b (ram_space n) w)) n = Some \<lparr>data = [b], generation = g\<rparr>"
  by (auto simp: life_commit_def ram_space_def Let_def split: if_splits)

lemma life_stored_byte:
  "life_stored (Some \<lparr>data = [1], generation = g\<rparr>) = Provisioning"
  "life_stored (Some \<lparr>data = [2], generation = g\<rparr>) = ReadyForAgent"
  "life_stored (Some \<lparr>data = [3], generation = g\<rparr>) = Production"
  by (simp_all add: life_stored_def)

lemma demo_form_law: "form_law init_reading (\<lambda>_ _ _. [7]) demo_form_server"
  using ram_law demo_factory_law life_commit_Ok [of 2 Lifecycle]
  by (auto simp: form_law_def demo_form_server_def entropy_law_def writes_only_def init_ota_ops
      life_commit_keeps life_stored_byte dest!: life_commit_Ok split: if_splits)

text \<open>A submission on it while it is being provisioned.\<close>

definition init_ram :: ram where
  "init_ram = ram_with Tls [1] (ram_with Wifi [1] (ram_with Lifecycle [1] ram_empty))"

definition demo_form :: config_form where
  "demo_form = \<lparr>form_led_gpio = 48, form_node_id = lit ''n'', form_ctrl_url = lit ''u''\<rparr>"

lemma demo_form_text: "form_text demo_form"
  by (simp add: demo_form_def form_text_def lit_def ascii_utf8)

lemma demo_form_run:
  "wp (post_form demo_form_server demo_form) (\<lambda>r d'. status r = OK \<and> faults (world d') = []) (\<lambda>_ _. False)
     (powered init_ram)"
proof -
  have w: "faults init_ram = []" "cells init_ram Agent = None" "cells init_ram Hardware = None"
    "cells init_ram Lifecycle = Some \<lparr>data = [1], generation = 1\<rparr>"
    "init_ram\<lparr>faults := []\<rparr> = init_ram"
    by (simp_all add: init_ram_def ram_with_def ram_empty_def)
  let ?w1 = "ram_put Hardware (hardware_encode (Some 48)) init_ram"
  obtain w2 where id: "save_identity (ram_space Agent) (lit ''n'') (lit ''u'') [] (\<lambda>w. (\<lambda>_. 171, w)) ?w1 =
      (Ok (), w2)" and f2: "faults w2 = []"
    by (rule ram_save_identity [of ?w1 "lit ''n''" "lit ''u''"]) (simp_all add: w)
  have life: "life_commit b (ram_space n) w = (Ok (), ram_put n [b] w)" if "faults w = []" for b n w
    using that by (simp add: life_commit_def ram_commit)
  have tok: "snd (token (ram_space Agent) w2) = w2"
    using f2 by (simp add: token_def load_config_def ram_load split: option.splits result.splits)
  show ?thesis
    using id f2 tok
    by (simp add: post_form_def demo_form_def demo_form_server_def wp_rules Let_def LED_DISABLED_def
        init_ota_ops ram_faulty_def w form_open_def life_stored_byte save_form_def save_led_gpio_def ram_commit
        finish_form_def stage_preloaded_def demo_factory_def advance_form_def ready_for_agent_def life
        activate_form_def factory_activate_def)
qed

text \<open>
  C19: the form is closed outside provisioning. If the stored lifecycle is neither \<open>Provisioning\<close>
  nor \<open>ReadyForAgent\<close>, in particular once the device is in \<open>Production\<close>, both methods answer
  \<open>423\<close> with the locked page; nothing is stored and no call is made.
\<close>

theorem form_closed_outside_provisioning:
  assumes "form_law M slot_hash F"
    and "rd_life M (rd_stored M Lifecycle (world d)) \<noteq> Some Provisioning"
    and "rd_life M (rd_stored M Lifecycle (world d)) \<noteq> Some ReadyForAgent"
  shows "\<exists>d1 d2. post_form F form d = (Returns (locked_response (fs_templates F)), d1) \<and>
    get_form F d = (Returns (locked_response (fs_templates F)), d2) \<and>
    calls d1 = calls d \<and> calls d2 = calls d \<and>
    (\<forall>m. rd_stored M m (world d1) = rd_stored M m (world d) \<and>
         rd_stored M m (world d2) = rd_stored M m (world d))"
proof -
  note L = form_lawD [OF assms(1)]
  obtain l w1 where boot: "svc_bootstrap_state (fs_ota F) (fs_lifecycle F) (world d) = (l, w1)" by force
  have shut: "\<not> form_open l"
    using assms(2,3) L(8) [of "world d"] boot by (auto simp: form_open_def)
  then have post: "post_form F form d = (Returns (locked_response (fs_templates F)), d\<lparr>world := w1\<rparr>)"
    using boot by (subst post_form_refused) (simp_all add: form_accepts_def)
  obtain g w2 where led: "led_gpio (rd_space M Hardware) w1 = (g, w2)" by force
  have get: "get_form F d = (Returns (locked_response (fs_templates F)), d\<lparr>world := w2\<rparr>)"
    using shut led L(3) boot
    by (simp add: get_form_def bootstrap_state_of_def act_bind_def act_read_def act_return_def)
  have "rd_stored M m w1 = rd_stored M m (world d)" for m
    using L(6) [of m "world d"] boot by simp
  with post get led_gpio_keeps [OF L(1) led] show ?thesis by simp
qed

theorem form_closed_outside_provisioning_witness:
  "\<exists>d1. post_form demo_form_server demo_form (powered ram_empty) =
      (Returns (locked_response (fs_templates demo_form_server)), d1) \<and> calls d1 = []"
proof -
  have "rd_life init_reading (rd_stored init_reading Lifecycle (world (powered ram_empty))) = Some Factory"
    by (simp add: life_stored_def)
  with form_closed_outside_provisioning [OF demo_form_law, of "powered ram_empty" demo_form]
  show ?thesis by auto
qed

lemma form_stored:
  assumes "form_law M slot_hash F" and "form_text form"
    and "post_form F form d = (Returns r, d')" and "status r = OK"
  shows "(\<exists>g. rd_stored M Hardware (world d') =
      Some \<lparr>data = hardware_encode (form_pin form), generation = g\<rparr>) \<and>
    (\<exists>c. agent_view (rd_stored M Agent (world d')) = Some c \<and> cfg_node_id c = form_node_id form \<and>
      cfg_ctrl_url c = form_ctrl_url form \<and> cfg_token c \<noteq> []) \<and>
    rd_life M (rd_stored M Lifecycle (world d')) = Some ReadyForAgent \<and>
    (\<exists>h slot. fo_parse_digest (fs_factory F) (pa_digest (fs_factory_agent F)) = Some h \<and>
      calls d' = calls d @
        [Publish (pa_deployment_id (fs_factory_agent F)) (pa_size (fs_factory_agent F)) h slot,
         Ready_For_Agent, Activate_Staged (pa_deployment_id (fs_factory_agent F)), Schedule_Reboot]) \<and>
    form_accepts F form (world d) \<and>
    (\<forall>m. m \<notin> {Hardware, Agent, Ota, Lifecycle} \<longrightarrow> rd_stored M m (world d') = rd_stored M m (world d))"
proof -
  have acc: "form_accepts F form (world d)"
  proof (rule ccontr)
    assume "\<not> form_accepts F form (world d)"
    from post_form_refused [OF this] assms(3,4) show False
      by (auto simp: locked_response_def split: if_splits)
  qed
  obtain d1 h slot where d1: "wrote_nothing_else M d d1" and saved: "form_saved M form (world d1)"
    and prog: "progress M (form_calls (fs_factory_agent F) h slot) d1 r d'"
    and dig: "calls d' \<noteq> calls d1 \<longrightarrow>
      fo_parse_digest (fs_factory F) (pa_digest (fs_factory_agent F)) = Some h"
    using wp_run [OF post_form_accepted [OF assms(1,2) acc] assms(3)] assms(4) by auto
  have calls: "calls d' = calls d @ form_calls (fs_factory_agent F) h slot"
    and life: "rd_life M (rd_stored M Lifecycle (world d')) = Some ReadyForAgent"
    using prog assms(4) d1 by (auto simp: progress_def wrote_nothing_else_def)
  then have "fo_parse_digest (fs_factory F) (pa_digest (fs_factory_agent F)) = Some h"
    using dig d1 by (simp add: form_calls_def wrote_nothing_else_def)
  moreover have "form_saved M form (world d')"
    using saved prog by (subst form_saved_cong [of M "world d'" "world d1"]) (simp_all add: progress_def)
  moreover have "\<forall>m. m \<notin> {Hardware, Agent, Ota, Lifecycle} \<longrightarrow>
      rd_stored M m (world d') = rd_stored M m (world d)"
    using d1 prog by (simp add: wrote_nothing_else_def progress_def)
  ultimately show ?thesis
    using calls life acc by (auto simp: form_saved_def form_calls_def)
qed

text \<open>
  C17: what a \<open>200\<close> of the form means. The lifecycle was open; the LED pin, the identity and a token
  are stored; the lifecycle is \<open>ReadyForAgent\<close>; and the calls made were exactly: publish the image
  under the digest of the build, enter \<open>ReadyForAgent\<close>, activate that deployment, and then ask for
  the reboot.
\<close>

theorem provisioning_form_success:
  assumes "form_law M slot_hash F" and "form_text form"
    and "post_form F form d = (Returns r, d')" and "status r = OK"
  shows "(\<exists>g. rd_stored M Hardware (world d') =
      Some \<lparr>data = hardware_encode (form_pin form), generation = g\<rparr>) \<and>
    (\<exists>c. agent_view (rd_stored M Agent (world d')) = Some c \<and> cfg_node_id c = form_node_id form \<and>
      cfg_ctrl_url c = form_ctrl_url form \<and> cfg_token c \<noteq> []) \<and>
    rd_life M (rd_stored M Lifecycle (world d')) = Some ReadyForAgent \<and>
    (\<exists>h slot. fo_parse_digest (fs_factory F) (pa_digest (fs_factory_agent F)) = Some h \<and>
      calls d' = calls d @
        [Publish (pa_deployment_id (fs_factory_agent F)) (pa_size (fs_factory_agent F)) h slot,
         Ready_For_Agent, Activate_Staged (pa_deployment_id (fs_factory_agent F)), Schedule_Reboot])"
  using form_stored [OF assms] by blast

theorem provisioning_form_success_witness:
  "\<exists>r d' c. post_form demo_form_server demo_form (powered init_ram) = (Returns r, d') \<and>
     status r = OK \<and> agent_view (cells (world d') Agent) = Some c \<and> cfg_node_id c = lit ''n'' \<and>
     Schedule_Reboot \<in> set (calls d')"
proof -
  obtain r d' where run: "post_form demo_form_server demo_form (powered init_ram) = (Returns r, d')"
    and ok: "status r = OK"
    using demo_form_run
    by (cases "post_form demo_form_server demo_form (powered init_ram)")
       (auto simp: wp_def split: outcome.splits)
  from provisioning_form_success [OF demo_form_law demo_form_text run ok] run ok show ?thesis
    by (auto simp: demo_form_def)
qed

text \<open>
  C18: a submission that fails never reboots and can be repeated. Whatever step fails, the form
  answers, with an error status; the calls made are a proper part of the sequence of a success, so
  no reboot is asked for; and no space but hardware, agent, OTA and lifecycle is written, none at
  all when the submission is refused.
\<close>

theorem provisioning_form_failure:
  assumes law: "form_law M slot_hash F" and ftext: "form_text form"
  shows "\<exists>r d'. post_form F form d = (Returns r, d') \<and>
    (status r \<noteq> OK \<longrightarrow>
       (\<exists>h slot k. k < 4 \<and> calls d' = calls d @ take k
          [Publish (pa_deployment_id (fs_factory_agent F)) (pa_size (fs_factory_agent F)) h slot,
           Ready_For_Agent, Activate_Staged (pa_deployment_id (fs_factory_agent F)), Schedule_Reboot]) \<and>
       (\<forall>m. m \<notin> {Hardware, Agent, Ota, Lifecycle} \<longrightarrow>
          rd_stored M m (world d') = rd_stored M m (world d)) \<and>
       (status r = LOCKED \<or> status r = BAD_REQUEST \<longrightarrow>
          (\<forall>m. rd_stored M m (world d') = rd_stored M m (world d))))"
proof (cases "form_accepts F form (world d)")
  case False
  have "rd_stored M m (snd (svc_bootstrap_state (fs_ota F) (fs_lifecycle F) (world d))) =
      rd_stored M m (world d)" for m
    by (rule form_lawD(6) [OF law])
  then show ?thesis
    unfolding post_form_refused [OF False] by (auto intro!: exI [of _ 0])
next
  case True
  obtain out d' where run: "post_form F form d = (out, d')" by force
  note spec = wp_run [OF post_form_accepted [OF law ftext True] run]
  then obtain r where r: "out = Returns r" by (cases out) simp_all
  from spec r obtain d1 where d1: "wrote_nothing_else M d d1"
    and cases: "status r = INTERNAL_SERVER_ERROR \<and> d' = d1 \<or>
      (\<exists>h slot. progress M (form_calls (fs_factory_agent F) h slot) d1 r d')" by auto
  have "status r = OK \<or> status r = INTERNAL_SERVER_ERROR \<and>
      (\<exists>h slot k. k < 4 \<and> calls d' = calls d @ take k (form_calls (fs_factory_agent F) h slot)) \<and>
      (\<forall>m. m \<notin> {Hardware, Agent, Ota, Lifecycle} \<longrightarrow>
          rd_stored M m (world d') = rd_stored M m (world d))"
    using cases
  proof (elim disjE conjE exE)
    assume "status r = INTERNAL_SERVER_ERROR" "d' = d1"
    with d1 have "calls d' = calls d @ take 0 (form_calls (fs_factory_agent F) [] [])"
      by (simp add: wrote_nothing_else_def)
    moreover have "(0 :: nat) < 4" by simp
    ultimately show ?thesis
      using d1 \<open>d' = d1\<close> \<open>status r = INTERNAL_SERVER_ERROR\<close>
      unfolding wrote_nothing_else_def by blast
  next
    fix h slot assume "progress M (form_calls (fs_factory_agent F) h slot) d1 r d'"
    then have prog: "\<exists>k. calls d' = calls d1 @ take k (form_calls (fs_factory_agent F) h slot) \<and>
        (status r = OK \<or> status r = INTERNAL_SERVER_ERROR \<and> k < 4)"
      "\<forall>m. m \<noteq> Ota \<longrightarrow> m \<noteq> Lifecycle \<longrightarrow> rd_stored M m (world d') = rd_stored M m (world d1)"
      unfolding progress_def length_form_calls by metis+
    from d1 have "calls d1 = calls d"
      and "\<forall>m. m \<noteq> Hardware \<longrightarrow> m \<noteq> Agent \<longrightarrow> rd_stored M m (world d1) = rd_stored M m (world d)"
      by (simp_all add: wrote_nothing_else_def)
    with prog show ?thesis by auto
  qed
  with run r show ?thesis by (auto simp: form_calls_def)
qed



theorem provisioning_form_failure_witness:
  "\<exists>r d'. post_form demo_form_server (demo_form\<lparr>form_led_gpio := 3\<rparr>) (powered init_ram) = (Returns r, d') \<and>
     status r = BAD_REQUEST \<and> cells (world d') Agent = None"
proof -
  let ?form = "demo_form\<lparr>form_led_gpio := 3\<rparr>"
  have ftext: "form_text ?form" using demo_form_text by (simp add: form_text_def)
  have no: "\<not> form_accepts demo_form_server ?form (world (powered init_ram))"
    by (simp add: form_accepts_def form_pin_def LED_DISABLED_def demo_form_server_def)
  have open_: "form_open (fst (svc_bootstrap_state (fs_ota demo_form_server) (fs_lifecycle demo_form_server)
      (world (powered init_ram))))"
    by (simp add: demo_form_server_def init_ota_ops form_open_def ram_faulty_def init_ram_def ram_with_def
        life_stored_byte)
  obtain r d' where run: "post_form demo_form_server ?form (powered init_ram) = (Returns r, d')"
    and r: "status r = BAD_REQUEST"
    using post_form_refused [OF no] open_ by simp
  have "cells (world d') Agent = cells init_ram Agent"
    using provisioning_form_failure [OF demo_form_law ftext, of "powered init_ram"] run r by simp
  with run r show ?thesis by (auto simp: init_ram_def ram_with_def)
qed

end
