(* ===== verification/Heartbeat.thy ===== *)
theory Heartbeat
  imports Agent_Info Runs
begin

text \<open>
  \<open>src/heartbeat.rs\<close>: the outbound heartbeat. The two nested loops of \<open>run\<close> and \<open>run_session\<close> are
  one step per period: a step runs from the end of one \<open>Timer::after(PERIOD)\<close> to the end of the
  next, so a step of the model is one pass through the code between two waits. Between two steps
  any other task may have changed the device. The TLS transport, the HTTP client and the
  diagnostics are parameters.
\<close>

section \<open>The controller URL\<close>

text \<open>
  \<open>split_host_port\<close>: the scheme and the path are ignored, the port defaults to 443. Only an empty
  authority is rejected.
\<close>

definition split_host_port :: "bytes \<Rightarrow> (bytes \<times> u16) option" where
  "split_host_port url =
     (let rest = (case split_once url (lit ''://'') of Some (_, r) \<Rightarrow> r | None \<Rightarrow> url);
          host_port = split_first rest 47
      in case split_once host_port [58] of
           Some (host, port) \<Rightarrow>
             if host \<noteq> [] then Some (host, case u16_parse port of None \<Rightarrow> 443 | Some p \<Rightarrow> p)
             else if host_port \<noteq> [] then Some (host_port, 443) else None
         | None \<Rightarrow> if host_port \<noteq> [] then Some (host_port, 443) else None)"

text \<open>
  Two values the splitter accepts: a port that is no port falls back to 443, and a value without a
  host keeps its colon in the host.
\<close>

lemma unparsable_port_falls_back: "split_host_port (lit ''core:https'') = Some (lit ''core'', 443)"
  by (simp add: split_host_port_def lit_def starts_with_def split_first_def u16_parse_def
      is_ascii_digit_def digit_val_def)

lemma missing_host_keeps_colon: "split_host_port (lit '':8443'') = Some (lit '':8443'', 443)"
  by (simp add: split_host_port_def lit_def starts_with_def split_first_def u16_parse_def
      is_ascii_digit_def digit_val_def)

section \<open>The body\<close>

record heartbeat =
  hb_node_id :: bytes
  hb_ip :: bytes
  hb_ts :: u64
  hb_state :: bytes
  hb_deployment_id :: bytes
  hb_firmware_digest :: bytes
  hb_ota_validated :: bool
  hb_config_generation :: u64
  hb_reason :: "bytes option"
  hb_uptime_ms :: u64
  hb_heap_free :: u32
  hb_temp_celsius :: int
  hb_task_hwm_min :: u32

text \<open>The sentinel for "no temperature sensor", \<open>-127.0\<close>.\<close>

definition TEMP_UNAVAILABLE :: int where
  "TEMP_UNAVAILABLE = -127"

text \<open>
  What the task uses outside the repository; an open session is part of the platform state.
\<close>

record 'w heartbeat_env =
  he_agent :: "'w config_space"
  he_runtime :: "'w runtime_config"
  he_ota :: "'w config_space"
  he_svc :: "'w ota_service"
  he_hardware_id :: bytes
  he_connect :: "bytes \<Rightarrow> u16 \<Rightarrow> 'w \<Rightarrow> (unit, unit) result \<times> 'w"
  he_post_json :: "bytes \<Rightarrow> bytes \<Rightarrow> bytes \<Rightarrow> bytes \<Rightarrow> 'w \<Rightarrow> (unit, unit) result \<times> 'w"
  he_drain_response :: "'w \<Rightarrow> (nat \<times> bool, unit) result \<times> 'w"
  he_close :: "'w \<Rightarrow> unit \<times> 'w"
  he_local_address :: "'w \<Rightarrow> bytes option"
  he_now :: "'w \<Rightarrow> u64 option"
  he_uptime_ms :: "'w \<Rightarrow> u64"
  he_heap_free :: "'w \<Rightarrow> u32"
  he_stack_headroom :: "'w \<Rightarrow> u32"
  he_to_json :: "heartbeat \<Rightarrow> bytes option"

text \<open>What goes over the wire, and the wait between two steps.\<close>

datatype wire = Connect bytes u16 | Post_Json bytes bytes bytes bytes | Close | Wait_Period

record 'w heartbeat_device =
  hd_world :: 'w
  hd_STATE :: u8
  hd_wire :: "wire list"

definition emit :: "wire \<Rightarrow> ('w \<Rightarrow> 'a \<times> 'w) \<Rightarrow> 'w heartbeat_device \<Rightarrow> 'a \<times> 'w heartbeat_device" where
  "emit e f d = (case f (hd_world d) of (a, w) \<Rightarrow> (a, d\<lparr>hd_world := w, hd_wire := hd_wire d @ [e]\<rparr>))"

definition heartbeat_body :: "'w heartbeat_env \<Rightarrow> u8 \<Rightarrow> 'w \<Rightarrow> heartbeat \<times> 'w" where
  "heartbeat_body H state_byte w =
     (let (nid, w1) = node_id (he_agent H) (he_hardware_id H) w;
          ip = (case he_local_address H w1 of None \<Rightarrow> [] | Some a \<Rightarrow> a);
          ts = (case he_now H w1 of None \<Rightarrow> 0 | Some t \<Rightarrow> t);
          st = state_from_byte state_byte;
          (dep, w2) = active_deployment_id (he_svc H) (he_ota H) w1;
          (dig, w3) = active_digest (he_svc H) (he_ota H) w2;
          (gen, w4) = runtime_generation (he_runtime H) w3
      in (\<lparr>hb_node_id = nid, hb_ip = ip, hb_ts = ts, hb_state = state_as_str st,
           hb_deployment_id = dep, hb_firmware_digest = dig, hb_ota_validated = (st \<noteq> St_PendingVerify),
           hb_config_generation = gen, hb_reason = None, hb_uptime_ms = he_uptime_ms H w4,
           hb_heap_free = he_heap_free H w4, hb_temp_celsius = TEMP_UNAVAILABLE,
           hb_task_hwm_min = he_stack_headroom H w4\<rparr>, w4))"

definition HEARTBEAT_PATH :: bytes where
  "HEARTBEAT_PATH = lit ''/v1alpha1/heartbeat''"

definition send_heartbeat ::
  "'w heartbeat_env \<Rightarrow> bytes \<Rightarrow> bytes \<Rightarrow> 'w heartbeat_device \<Rightarrow> bool \<times> 'w heartbeat_device" where
  "send_heartbeat H host_str tok d =
     (case heartbeat_body H (hd_STATE d) (hd_world d) of (body, w) \<Rightarrow>
        let d1 = d\<lparr>hd_world := w\<rparr>
        in case he_to_json H body of
             None \<Rightarrow> (False, d1)
           | Some json \<Rightarrow>
               (case emit (Post_Json host_str HEARTBEAT_PATH tok json)
                       (he_post_json H host_str HEARTBEAT_PATH tok json) d1 of
                  (r, d2) \<Rightarrow> (is_ok r, d2)))"

section \<open>The loops\<close>

text \<open>
  Where the task is when it wakes: in the reconnect loop, or in a session opened for a URL, a
  token and a host.
\<close>

datatype hb_loop = Reconnect | In_Session (ses_url: bytes) (ses_token: bytes) (ses_host: bytes)

text \<open>
  One pass of the session loop: whether the session goes on, and the device. Every way out of the
  session, \<open>Ok\<close> or \<open>Err\<close>, is the same to the caller.
\<close>

definition session_pass ::
  "'w heartbeat_env \<Rightarrow> bytes \<Rightarrow> bytes \<Rightarrow> bytes \<Rightarrow> 'w heartbeat_device \<Rightarrow> bool \<times> 'w heartbeat_device" where
  "session_pass H url tok host d =
     (case ctrl_url (he_agent H) (hd_world d) of (url', w1) \<Rightarrow>
      let d1 = d\<lparr>hd_world := w1\<rparr>
      in if url' \<noteq> url then (False, snd (emit Close (he_close H) d1))
         else case token (he_agent H) w1 of (tok', w2) \<Rightarrow>
           let d2 = d1\<lparr>hd_world := w2\<rparr>
           in if tok' \<noteq> tok then (False, snd (emit Close (he_close H) d2))
              else case send_heartbeat H host tok d2 of
                (False, d3) \<Rightarrow> (False, d3)
              | (True, d3) \<Rightarrow>
                  (case he_drain_response H (hd_world d3) of
                     (Err _, w4) \<Rightarrow> (False, d3\<lparr>hd_world := w4\<rparr>)
                   | (Ok (_, keep_alive), w4) \<Rightarrow>
                       if \<not> keep_alive then (False, snd (emit Close (he_close H) (d3\<lparr>hd_world := w4\<rparr>)))
                       else (True, d3\<lparr>hd_world := w4\<rparr>)))"

definition wait_period :: "'w heartbeat_device \<Rightarrow> 'w heartbeat_device" where
  "wait_period d = d\<lparr>hd_wire := hd_wire d @ [Wait_Period]\<rparr>"

definition session_step ::
  "'w heartbeat_env \<Rightarrow> bytes \<Rightarrow> bytes \<Rightarrow> bytes \<Rightarrow> 'w heartbeat_device \<Rightarrow> hb_loop \<times> 'w heartbeat_device" where
  "session_step H url tok host d =
     (case session_pass H url tok host d of
        (True, d') \<Rightarrow> (In_Session url tok host, wait_period d')
      | (False, d') \<Rightarrow> (Reconnect, wait_period d'))"

text \<open>One pass of the reconnect loop, up to its wait or to the first wait inside a session.\<close>

definition reconnect_step :: "'w heartbeat_env \<Rightarrow> 'w heartbeat_device \<Rightarrow> hb_loop \<times> 'w heartbeat_device" where
  "reconnect_step H d =
     (case ctrl_url (he_agent H) (hd_world d) of (url, w1) \<Rightarrow>
      if url = [] then (Reconnect, wait_period (d\<lparr>hd_world := w1\<rparr>))
      else case token (he_agent H) w1 of (tok, w2) \<Rightarrow>
        let d2 = d\<lparr>hd_world := w2\<rparr>
        in if tok = [] then (Reconnect, wait_period d2)
           else case split_host_port url of
             None \<Rightarrow> (Reconnect, wait_period d2)
           | Some (host, port) \<Rightarrow>
               (case emit (Connect host port) (he_connect H host port) d2 of
                  (Err _, d3) \<Rightarrow> (Reconnect, wait_period d3)
                | (Ok _, d3) \<Rightarrow> session_step H url tok host d3))"

text \<open>
  One period: the other tasks first (a function on the platform state and the device state), then
  the pass of the loop the task is in.
\<close>

record 'w period =
  pd_others :: "'w \<Rightarrow> 'w"
  pd_STATE :: "u8 \<Rightarrow> u8"

definition heartbeat_step ::
  "'w heartbeat_env \<Rightarrow> 'w period \<Rightarrow> hb_loop \<times> 'w heartbeat_device \<Rightarrow> hb_loop \<times> 'w heartbeat_device" where
  "heartbeat_step H p s =
     (let d = (snd s)\<lparr>hd_world := pd_others p (hd_world (snd s)), hd_STATE := pd_STATE p (hd_STATE (snd s))\<rparr>
      in case fst s of
           Reconnect \<Rightarrow> reconnect_step H d
         | In_Session url tok host \<Rightarrow> session_step H url tok host d)"
section \<open>What a pass does\<close>

definition heartbeat_law ::
  "(space_name \<Rightarrow> 'w config_space) \<Rightarrow> (space_name \<Rightarrow> 'w \<Rightarrow> snapshot option) \<Rightarrow> 'w heartbeat_env \<Rightarrow> bool" where
  "heartbeat_law cs stored H \<longleftrightarrow>
     config_space_law cs stored \<and> he_agent H = cs Agent \<and> rc_space (he_runtime H) = cs Runtime \<and>
     reads_only stored (svc_load_metadata (he_svc H) (he_ota H)) \<and>
     (\<forall>h p. reads_only stored (he_connect H h p)) \<and>
     (\<forall>h p t j. reads_only stored (he_post_json H h p t j)) \<and>
     reads_only stored (he_drain_response H) \<and> reads_only stored (he_close H)"

lemma heartbeat_lawD:
  assumes "heartbeat_law cs stored H"
  shows "config_space_law cs stored" "he_agent H = cs Agent" "rc_space (he_runtime H) = cs Runtime"
    "reads_only stored (svc_load_metadata (he_svc H) (he_ota H))"
    "reads_only stored (he_connect H h p)" "reads_only stored (he_post_json H h path t j)"
    "reads_only stored (he_drain_response H)" "reads_only stored (he_close H)"
  using assms by (simp_all add: heartbeat_law_def)

text \<open>A pass that sent \<open>es\<close> and left every stored value alone.\<close>

definition sent :: "(space_name \<Rightarrow> 'w \<Rightarrow> snapshot option) \<Rightarrow> wire list \<Rightarrow> 'w heartbeat_device \<Rightarrow> 'w heartbeat_device \<Rightarrow> bool" where
  "sent stored es d d' \<longleftrightarrow>
     hd_wire d' = hd_wire d @ es \<and> hd_STATE d' = hd_STATE d \<and>
     (\<forall>m. stored m (hd_world d') = stored m (hd_world d))"

lemma sent_refl: "sent stored [] d d"
  by (simp add: sent_def)

lemma sent_trans: "sent stored es d d' \<Longrightarrow> sent stored es' d' d'' \<Longrightarrow> sent stored (es @ es') d d''"
  by (simp add: sent_def)

lemma sent_world: "(\<And>m. stored m w = stored m (hd_world d)) \<Longrightarrow> sent stored [] d (d\<lparr>hd_world := w\<rparr>)"
  by (simp add: sent_def)

lemma sent_emit: "reads_only stored f \<Longrightarrow> emit e f d = (a, d') \<Longrightarrow> sent stored [e] d d'"
  by (auto simp: emit_def sent_def dest: reads_onlyD split: prod.splits)

lemma sent_wait: "sent stored [Wait_Period] d (wait_period d)"
  by (simp add: sent_def wait_period_def)

lemma heartbeat_body_spec:
  assumes law: "heartbeat_law cs stored H" and run: "heartbeat_body H st w = (body, w')"
  shows "stored m w' = stored m w"
    and "hb_ota_validated body \<longleftrightarrow> state_from_byte st \<noteq> St_PendingVerify"
    and "hb_state body = state_as_str (state_from_byte st)"
proof -
  note L = heartbeat_lawD [OF law]
  obtain nid w1 where r1: "node_id (cs Agent) (he_hardware_id H) w = (nid, w1)" by force
  obtain dep w2 where r2: "active_deployment_id (he_svc H) (he_ota H) w1 = (dep, w2)" by force
  obtain dig w3 where r3: "active_digest (he_svc H) (he_ota H) w2 = (dig, w3)" by force
  obtain gen w4 where r4: "runtime_generation (he_runtime H) w3 = (gen, w4)" by force
  have "stored m w4 = stored m w"
    using node_id_keeps [OF L(1) r1, of m] metadata_readers_keep(3) [OF L(4) r2, of m]
      metadata_readers_keep(2) [OF L(4) r3, of m] runtime_generation_keeps [OF L(1,3) r4, of m] by simp
  with run r1 r2 r3 r4 L(2) show "stored m w' = stored m w"
    by (auto simp: heartbeat_body_def Let_def)
  show "hb_ota_validated body \<longleftrightarrow> state_from_byte st \<noteq> St_PendingVerify"
    and "hb_state body = state_as_str (state_from_byte st)"
    using run r1 r2 r3 r4 L(2) by (auto simp: heartbeat_body_def Let_def)
qed

text \<open>The posts of a pass: at most one, of a body that tells the device state.\<close>

definition truthful :: "'w heartbeat_env \<Rightarrow> u8 \<Rightarrow> bytes \<Rightarrow> bool" where
  "truthful H st json \<longleftrightarrow>
     (\<exists>body. he_to_json H body = Some json \<and> hb_state body = state_as_str (state_from_byte st) \<and>
        hb_ota_validated body = (state_from_byte st \<noteq> St_PendingVerify))"

lemma send_heartbeat_spec:
  assumes law: "heartbeat_law cs stored H" and run: "send_heartbeat H host tok d = (b, d')"
  obtains es where "sent stored es d d'"
    "es = [] \<or> (\<exists>json. es = [Post_Json host HEARTBEAT_PATH tok json] \<and> truthful H (hd_STATE d) json)"
proof -
  note L = heartbeat_lawD [OF law]
  obtain body w where body: "heartbeat_body H (hd_STATE d) (hd_world d) = (body, w)" by force
  note B = heartbeat_body_spec [OF law body]
  have s1: "sent stored [] d (d\<lparr>hd_world := w\<rparr>)"
    using B(1) by (rule sent_world)
  show thesis
  proof (cases "he_to_json H body")
    case None
    with run body s1 that [of "[]"] show thesis by (simp add: send_heartbeat_def)
  next
    case (Some json)
    obtain r d2 where e: "emit (Post_Json host HEARTBEAT_PATH tok json)
        (he_post_json H host HEARTBEAT_PATH tok json) (d\<lparr>hd_world := w\<rparr>) = (r, d2)" by force
    have "sent stored [Post_Json host HEARTBEAT_PATH tok json] d d2"
      using sent_trans [OF s1 sent_emit [OF L(6) e]] by simp
    moreover have "d' = d2" using run body Some e by (simp add: send_heartbeat_def)
    moreover have "truthful H (hd_STATE d) json" using B(2,3) Some by (auto simp: truthful_def)
    ultimately show thesis using that by blast
  qed
qed

definition post_of :: "'w heartbeat_env \<Rightarrow> u8 \<Rightarrow> bytes \<Rightarrow> bytes \<Rightarrow> wire \<Rightarrow> bool" where
  "post_of H st host tok e \<longleftrightarrow> (\<exists>json. e = Post_Json host HEARTBEAT_PATH tok json \<and> truthful H st json)"

lemma session_pass_spec:
  assumes law: "heartbeat_law cs stored H" and run: "session_pass H url tok host d = (b, d')"
    and ses: "url \<noteq> []" "tok \<noteq> []"
  obtains posts closes where "sent stored (posts @ closes) d d'" "closes = [] \<or> closes = [Close]"
    "posts = [] \<or> (\<exists>e c. posts = [e] \<and> post_of H (hd_STATE d) host tok e \<and>
       agent_view (stored Agent (hd_world d)) = Some c \<and> cfg_ctrl_url c = url \<and> cfg_token c = tok)"
proof -
  note L = heartbeat_lawD [OF law]
  obtain url' w1 where u: "ctrl_url (cs Agent) (hd_world d) = (url', w1)" by force
  let ?d1 = "d\<lparr>hd_world := w1\<rparr>"
  have s1: "sent stored [] d ?d1" by (rule sent_world) (rule ctrl_url_keeps [OF L(1) u])
  have close: "sent stored [Close] x (snd (emit Close (he_close H) x))" for x
    by (rule sent_emit [OF L(8)]) (rule prod.collapse [symmetric])
  show thesis
  proof (cases "url' = url")
    case False
    then have "d' = snd (emit Close (he_close H) ?d1)" using run u L(2) by (simp add: session_pass_def)
    with that [of "[]" "[Close]"] sent_trans [OF s1 close] show thesis by simp
  next
    case url: True
    obtain tok' w2 where t: "token (cs Agent) w1 = (tok', w2)" by force
    let ?d2 = "d\<lparr>hd_world := w2\<rparr>"
    have s2: "sent stored [] d ?d2"
      by (rule sent_world) (simp add: token_keeps [OF L(1) t] ctrl_url_keeps [OF L(1) u])
    show thesis
    proof (cases "tok' = tok")
      case False
      then have "d' = snd (emit Close (he_close H) ?d2)" using run u t url L(2) by (simp add: session_pass_def)
      with that [of "[]" "[Close]"] sent_trans [OF s2 close] show thesis by simp
    next
      case tok: True
      obtain c where c: "agent_view (stored Agent (hd_world d)) = Some c" "cfg_ctrl_url c = url" "cfg_token c = tok"
        using ctrl_url_stored [OF L(1) u] token_stored [OF L(1) t] ctrl_url_keeps [OF L(1) u] url tok ses by auto
      obtain b3 d3 where send: "send_heartbeat H host tok ?d2 = (b3, d3)" by force
      obtain es where es: "sent stored es ?d2 d3"
        "es = [] \<or> (\<exists>json. es = [Post_Json host HEARTBEAT_PATH tok json] \<and> truthful H (hd_STATE ?d2) json)"
        by (rule send_heartbeat_spec [OF law send])
      have s3: "sent stored es d d3" using sent_trans [OF s2 es(1)] by simp
      have posts: "es = [] \<or> (\<exists>e c. es = [e] \<and> post_of H (hd_STATE d) host tok e \<and>
          agent_view (stored Agent (hd_world d)) = Some c \<and> cfg_ctrl_url c = url \<and> cfg_token c = tok)"
        using es(2) c by (auto simp: post_of_def)
      obtain dr w4 where drain: "he_drain_response H (hd_world d3) = (dr, w4)" by force
      let ?d4 = "d3\<lparr>hd_world := w4\<rparr>"
      have s4: "sent stored es d ?d4"
        using sent_trans [OF s3 sent_world [of stored w4 d3]] reads_onlyD [OF L(7) drain] by simp
      have "d' = d3 \<or> d' = ?d4 \<or> d' = snd (emit Close (he_close H) ?d4)"
        using run u t url tok send drain L(2)
        by (auto simp: session_pass_def split: bool.splits result.splits if_splits)
      then show thesis
      proof (elim disjE)
        assume "d' = d3" then show thesis using that [of es "[]"] s3 posts by simp
      next
        assume "d' = ?d4" then show thesis using that [of es "[]"] s4 posts by simp
      next
        assume "d' = snd (emit Close (he_close H) ?d4)"
        then show thesis using that [of es "[Close]"] sent_trans [OF s4 close] posts by simp
      qed
    qed
  qed
qed
section \<open>Runs\<close>

fun is_post :: "wire \<Rightarrow> bool" where
  "is_post (Post_Json _ _ _ _) = True"
| "is_post _ = False"

text \<open>
  What a session was opened for stays a non-empty URL that names the session's host, and a
  non-empty token.
\<close>

fun loop_ok :: "hb_loop \<Rightarrow> bool" where
  "loop_ok Reconnect = True"
| "loop_ok (In_Session url tok host) \<longleftrightarrow> url \<noteq> [] \<and> tok \<noteq> [] \<and> (\<exists>port. split_host_port url = Some (host, port))"

text \<open>A post is legitimate when it follows the configuration stored when the pass began.\<close>

definition legitimate :: "'w heartbeat_env \<Rightarrow> u8 \<Rightarrow> snapshot option \<Rightarrow> wire \<Rightarrow> bool" where
  "legitimate H st s e \<longleftrightarrow>
     (\<exists>c host port. agent_view s = Some c \<and> cfg_token c \<noteq> [] \<and>
        split_host_port (cfg_ctrl_url c) = Some (host, port) \<and> post_of H st host (cfg_token c) e)"

text \<open>The events of one period: at most one post, a legitimate one, and one wait, the last.\<close>

definition period_events :: "'w heartbeat_env \<Rightarrow> u8 \<Rightarrow> snapshot option \<Rightarrow> wire list \<Rightarrow> bool" where
  "period_events H st s es \<longleftrightarrow>
     (\<exists>pre. es = pre @ [Wait_Period] \<and> list_all (\<lambda>e. e \<noteq> Wait_Period) pre \<and>
        length (filter is_post pre) \<le> 1 \<and> list_all (\<lambda>e. is_post e \<longrightarrow> legitimate H st s e) pre)"

definition period_result ::
  "(space_name \<Rightarrow> 'w \<Rightarrow> snapshot option) \<Rightarrow> 'w heartbeat_env \<Rightarrow> 'w heartbeat_device
   \<Rightarrow> hb_loop \<times> 'w heartbeat_device \<Rightarrow> bool" where
  "period_result stored H d r \<longleftrightarrow>
     loop_ok (fst r) \<and>
     (\<exists>es. sent stored es d (snd r) \<and> period_events H (hd_STATE d) (stored Agent (hd_world d)) es)"

lemma session_step_spec:
  assumes law: "heartbeat_law cs stored H" and s0: "sent stored pre d0 d"
    and pre: "list_all (\<lambda>e. e \<noteq> Wait_Period \<and> \<not> is_post e) pre"
    and ok: "loop_ok (In_Session url tok host)"
  shows "period_result stored H d0 (session_step H url tok host d)"
proof -
  obtain b d' where pass: "session_pass H url tok host d = (b, d')" by force
  obtain port where ses: "url \<noteq> []" "tok \<noteq> []" "split_host_port url = Some (host, port)"
    using ok by auto
  obtain posts closes where out: "sent stored (posts @ closes) d d'" "closes = [] \<or> closes = [Close]"
    "posts = [] \<or> (\<exists>e c. posts = [e] \<and> post_of H (hd_STATE d) host tok e \<and>
       agent_view (stored Agent (hd_world d)) = Some c \<and> cfg_ctrl_url c = url \<and> cfg_token c = tok)"
    by (rule session_pass_spec [OF law pass ses(1,2)])
  let ?es = "pre @ posts @ closes"
  have s: "sent stored (?es @ [Wait_Period]) d0 (wait_period d')"
    using sent_trans [OF sent_trans [OF s0 out(1)] sent_wait] by simp
  have nopost: "filter is_post pre = []" using pre by (induction pre) auto
  have "period_events H (hd_STATE d0) (stored Agent (hd_world d0)) (?es @ [Wait_Period])"
    unfolding period_events_def
  proof (intro exI conjI)
    show "list_all (\<lambda>e. e \<noteq> Wait_Period) ?es"
      using pre out(2,3) by (auto simp: list_all_iff post_of_def)
    show "length (filter is_post ?es) \<le> 1"
      using nopost out(2,3) by auto
    have "legitimate H (hd_STATE d0) (stored Agent (hd_world d0)) e" if "e \<in> set posts" for e
      using out(3) that s0 ses by (auto simp: legitimate_def sent_def)
    then show "list_all (\<lambda>e. is_post e \<longrightarrow> legitimate H (hd_STATE d0) (stored Agent (hd_world d0)) e) ?es"
      using pre out(2) by (auto simp: list_all_iff)
  qed (rule refl)
  with s ok show ?thesis
    unfolding period_result_def session_step_def pass by (cases b) auto
qed

lemma idle_period:
  assumes "sent stored pre d d'" and "list_all (\<lambda>e. e \<noteq> Wait_Period \<and> \<not> is_post e) pre"
  shows "period_result stored H d (Reconnect, wait_period d')"
proof -
  have "filter is_post pre = []" using assms(2) by (induction pre) auto
  then have "period_events H (hd_STATE d) (stored Agent (hd_world d)) (pre @ [Wait_Period])"
    using assms(2) by (auto simp: period_events_def list_all_iff)
  with sent_trans [OF assms(1) sent_wait] show ?thesis
    by (auto simp: period_result_def)
qed

lemma reconnect_step_spec:
  assumes law: "heartbeat_law cs stored H"
  shows "period_result stored H d (reconnect_step H d)"
proof -
  note L = heartbeat_lawD [OF law]
  obtain url w1 where u: "ctrl_url (cs Agent) (hd_world d) = (url, w1)" by force
  obtain tok w2 where t: "token (cs Agent) w1 = (tok, w2)" by force
  let ?d1 = "d\<lparr>hd_world := w1\<rparr>" and ?d2 = "d\<lparr>hd_world := w2\<rparr>"
  have s1: "sent stored [] d ?d1" by (rule sent_world) (rule ctrl_url_keeps [OF L(1) u])
  have s2: "sent stored [] d ?d2"
    by (rule sent_world) (simp add: token_keeps [OF L(1) t] ctrl_url_keeps [OF L(1) u])
  show ?thesis
  proof (cases "url = [] \<or> tok = [] \<or> split_host_port url = None")
    case True
    then show ?thesis
      using u t L(2) idle_period [OF s1] idle_period [OF s2] by (auto simp: reconnect_step_def Let_def)
  next
    case False
    then obtain host port where sp: "split_host_port url = Some (host, port)" by auto
    obtain r d3 where e: "emit (Connect host port) (he_connect H host port) ?d2 = (r, d3)" by force
    have s3: "sent stored [Connect host port] d d3"
      using sent_trans [OF s2 sent_emit [OF L(5) e]] by simp
    have ok: "loop_ok (In_Session url tok host)" using False sp by auto
    show ?thesis
      using False u t L(2) sp e idle_period [OF s3] session_step_spec [OF law s3 _ ok]
      by (cases r) (auto simp: reconnect_step_def)
  qed
qed

definition woken :: "'w period \<Rightarrow> 'w heartbeat_device \<Rightarrow> 'w heartbeat_device" where
  "woken p d = d\<lparr>hd_world := pd_others p (hd_world d), hd_STATE := pd_STATE p (hd_STATE d)\<rparr>"

lemma heartbeat_step_spec:
  assumes "heartbeat_law cs stored H" and "loop_ok (fst s)"
  shows "period_result stored H (woken p (snd s)) (heartbeat_step H p s)"
  using assms reconnect_step_spec [OF assms(1)] session_step_spec [OF assms(1) sent_refl]
  by (cases "fst s") (auto simp: heartbeat_step_def Let_def woken_def)

interpretation beats: step_invariant "heartbeat_step H"
  "\<lambda>s. heartbeat_law cs stored H \<and> loop_ok (fst s)" "\<lambda>_. True" for H cs stored
  by unfold_locales (auto dest: heartbeat_step_spec simp: period_result_def)
text \<open>The device before the first period, and what a run reaches.\<close>

definition hb_start :: "'w \<Rightarrow> hb_loop \<times> 'w heartbeat_device" where
  "hb_start w = (Reconnect, \<lparr>hd_world = w, hd_STATE = 0, hd_wire = []\<rparr>)"

lemma run_period:
  assumes "heartbeat_law cs stored H"
    and "s = run_steps (heartbeat_step H) ps (hb_start w0)"
    and "heartbeat_step H p s = (l, d')"
  obtains es where "sent stored es (woken p (snd s)) d'"
    "period_events H (hd_STATE (woken p (snd s))) (stored Agent (hd_world (woken p (snd s)))) es"
proof -
  have "loop_ok (fst s)"
    using beats.run_keeps [of ps cs stored H "hb_start w0"] assms(1,2) by (simp add: hb_start_def list_all_iff)
  from heartbeat_step_spec [OF assms(1) this, of p] assms(3) that show thesis
    by (auto simp: period_result_def)
qed

lemma period_posts:
  assumes "sent stored es d d'" and "period_events H (hd_STATE d) (stored Agent (hd_world d)) es"
    and "Post_Json host path tok json \<in> set (drop (length (hd_wire d)) (hd_wire d'))"
  shows "legitimate H (hd_STATE d) (stored Agent (hd_world d)) (Post_Json host path tok json)"
  using assms by (auto simp: sent_def period_events_def list_all_iff)

text \<open>A session, and so a heartbeat, takes a connection: some attempt of the run succeeded.\<close>

definition connects :: "(space_name \<Rightarrow> 'w \<Rightarrow> snapshot option) \<Rightarrow> 'w heartbeat_env \<Rightarrow> 'w \<Rightarrow> bool" where
  "connects stored H w0 \<longleftrightarrow>
     (\<exists>w host port. (\<forall>m. stored m w = stored m w0) \<and> fst (he_connect H host port w) = Ok ())"

lemma reconnect_step_connects:
  assumes law: "heartbeat_law cs stored H" and no: "\<not> connects stored H (hd_world d)"
    and run: "reconnect_step H d = (l, d')"
  shows "l = Reconnect \<and> filter is_post (hd_wire d') = filter is_post (hd_wire d)"
proof -
  note L = heartbeat_lawD [OF law]
  obtain url w1 where u: "ctrl_url (cs Agent) (hd_world d) = (url, w1)" by force
  obtain tok w2 where t: "token (cs Agent) w1 = (tok, w2)" by force
  have "\<forall>m. stored m w2 = stored m (hd_world d)"
    by (simp add: token_keeps [OF L(1) t] ctrl_url_keeps [OF L(1) u])
  then have "fst (he_connect H host port w2) \<noteq> Ok ()" for host port
    using no by (auto simp: connects_def)
  then have fails: "\<exists>e. fst (he_connect H host port w2) = Err e" for host port
    by (cases "fst (he_connect H host port w2)") auto
  show ?thesis
  proof (cases "url = [] \<or> tok = [] \<or> split_host_port url = None")
    case True
    then show ?thesis using run u t L(2)
      by (auto simp: reconnect_step_def Let_def wait_period_def split: if_splits)
  next
    case False
    then obtain host port where sp: "split_host_port url = Some (host, port)" by auto
    obtain w3 where c: "he_connect H host port w2 = (Err (), w3)"
      using fails [of host port] by (cases "he_connect H host port w2") auto
    show ?thesis
      using False run u t L(2) sp c by (auto simp: reconnect_step_def emit_def wait_period_def)
  qed
qed

lemma post_needs_connection:
  assumes law: "heartbeat_law cs stored H"
  shows "(\<forall>ps1 p ps2. ps = ps1 @ p # ps2 \<longrightarrow>
      \<not> connects stored H (hd_world (woken p (snd (run_steps (heartbeat_step H) ps1 (hb_start w0)))))) \<Longrightarrow>
    fst (run_steps (heartbeat_step H) ps (hb_start w0)) = Reconnect \<and>
    filter is_post (hd_wire (snd (run_steps (heartbeat_step H) ps (hb_start w0)))) = []"
proof (induction ps rule: rev_induct)
  case Nil
  show ?case by (simp add: hb_start_def)
next
  case (snoc p ps)
  let ?s = "run_steps (heartbeat_step H) ps (hb_start w0)"
  have s: "fst ?s = Reconnect" "filter is_post (hd_wire (snd ?s)) = []"
    using snoc by auto
  have no: "\<not> connects stored H (hd_world (woken p (snd ?s)))"
    using snoc.prems by auto
  obtain l d' where run: "reconnect_step H (woken p (snd ?s)) = (l, d')" by force
  have "heartbeat_step H p ?s = (l, d')"
    using s(1) run by (simp add: heartbeat_step_def woken_def Let_def)
  then show ?case
    using reconnect_step_connects [OF law no run] s(2) by (simp add: run_steps_append woken_def)
qed

section \<open>Properties\<close>


text \<open>A monitor of the wire: a post needs a wait since the last one.\<close>

fun paced :: "bool \<Rightarrow> wire list \<Rightarrow> bool" where
  "paced armed [] = True"
| "paced armed (e # es) =
     (if e = Wait_Period then paced True es
      else if is_post e then armed \<and> paced False es
      else paced armed es)"

lemma paced_quiet:
  "list_all (\<lambda>e. e \<noteq> Wait_Period) pre \<Longrightarrow> filter is_post pre = [] \<Longrightarrow>
   paced armed (pre @ Wait_Period # es) \<longleftrightarrow> paced True es"
  by (induction pre) (auto split: if_splits)

lemma paced_block:
  "list_all (\<lambda>e. e \<noteq> Wait_Period) pre \<Longrightarrow> length (filter is_post pre) \<le> 1 \<Longrightarrow>
   paced True (pre @ Wait_Period # es) \<longleftrightarrow> paced True es"
  by (induction pre) (auto simp: paced_quiet)

lemma is_post_wait: "is_post e \<Longrightarrow> e \<noteq> Wait_Period"
  by (cases e) simp_all

lemma no_wait: "list_all (\<lambda>e. e \<noteq> Wait_Period) pre \<Longrightarrow> filter (\<lambda>e. e = Wait_Period) pre = []"
  by (induction pre) simp_all

lemma run_wire:
  assumes law: "heartbeat_law cs stored H"
  shows "loop_ok (fst s) \<Longrightarrow>
    \<exists>es. hd_wire (snd (run_steps (heartbeat_step H) ps s)) = hd_wire (snd s) @ es \<and>
      length (filter (\<lambda>e. e = Wait_Period) es) = length ps \<and>
      length (filter is_post es) \<le> length ps \<and> paced True es"
proof (induction ps arbitrary: s)
  case Nil
  then show ?case by (intro exI [of _ "[]"]) simp
next
  case (Cons p ps)
  from heartbeat_step_spec [OF law Cons.prems, of p]
  obtain blk where ok: "loop_ok (fst (heartbeat_step H p s))"
    and w: "hd_wire (snd (heartbeat_step H p s)) = hd_wire (snd s) @ blk @ [Wait_Period]"
    and blk: "list_all (\<lambda>e. e \<noteq> Wait_Period) blk" "length (filter is_post blk) \<le> 1"
    by (auto simp: period_result_def period_events_def sent_def woken_def)
  obtain es where es: "hd_wire (snd (run_steps (heartbeat_step H) ps (heartbeat_step H p s))) =
        hd_wire (snd (heartbeat_step H p s)) @ es"
      "length (filter (\<lambda>e. e = Wait_Period) es) = length ps"
      "length (filter is_post es) \<le> length ps" "paced True es"
    using Cons.IH [OF ok] by blast
  show ?case
    using es w blk by (intro exI [of _ "blk @ Wait_Period # es"]) (simp add: no_wait paced_block)
qed

text \<open>
  C22: at most one heartbeat per period. A run of \<open>n\<close> periods waits exactly \<open>n\<close> times and sends at
  most \<open>n\<close> heartbeats, never two without a wait between them: the device cannot flood the
  controller, however often the connection drops or the server closes it.
\<close>

theorem heartbeat_rate_bounded:
  assumes "heartbeat_law cs stored H" and "run_steps (heartbeat_step H) ps (hb_start w0) = (l, d)"
  shows "length (filter (\<lambda>e. e = Wait_Period) (hd_wire d)) = length ps \<and>
    length (filter is_post (hd_wire d)) \<le> length ps \<and> paced True (hd_wire d)"
  using run_wire [OF assms(1), of "hb_start w0" ps] assms(2) by (simp add: hb_start_def)

subsection \<open>A device and its controller\<close>

definition demo_heartbeat :: "ram heartbeat_env" where
  "demo_heartbeat = \<lparr>he_agent = ram_space Agent, he_runtime = boot_rc, he_ota = ram_space Ota,
     he_svc = \<lparr>svc_bootstrap_state = (\<lambda>_ w. (Ok Production, w)), svc_begin_provisioning = (\<lambda>_ w. (Ok (), w)),
       svc_ready_for_agent = (\<lambda>_ w. (Ok (), w)), svc_production = (\<lambda>_ w. (Ok (), w)),
       svc_load_metadata = (\<lambda>_ w. (Err (), w)), svc_clear_staged = (\<lambda>_ w. (Ok (), w)),
       svc_staged_default = \<lparr>staged_stage = lit ''none'', staged_slot = [], staged_digest = [],
         staged_deployment_id = []\<rparr>,
       svc_pending_check = (\<lambda>_ w. (PC_Confirm, w)), svc_confirm_pending = (\<lambda>_ w. (Conf_Valid, w)),
       svc_reject_pending = (\<lambda>w. ((), w)),
       svc_on_boot = (\<lambda>_ w. (\<lparr>br_status = BS_Stable, br_storage_healthy = None\<rparr>, w))\<rparr>,
     he_hardware_id = lit ''a1'', he_connect = (\<lambda>_ _ w. (Ok (), w)), he_post_json = (\<lambda>_ _ _ _ w. (Ok (), w)),
     he_drain_response = (\<lambda>w. (Ok (200, True), w)), he_close = (\<lambda>w. ((), w)),
     he_local_address = (\<lambda>_. None), he_now = (\<lambda>_. Some 1000), he_uptime_ms = (\<lambda>_. 5),
     he_heap_free = (\<lambda>_. 1), he_stack_headroom = (\<lambda>_. 1), he_to_json = (\<lambda>b. Some (hb_node_id b))\<rparr>"

lemma demo_heartbeat_law: "heartbeat_law ram_space (\<lambda>n w. cells w n) demo_heartbeat"
  using ram_law by (simp add: heartbeat_law_def demo_heartbeat_def reads_only_def)

definition quiet_period :: "ram period" where
  "quiet_period = \<lparr>pd_others = (\<lambda>w. w), pd_STATE = (\<lambda>st. st)\<rparr>"

lemma sample_url: "split_host_port (lit ''https://core:8443'') = Some (lit ''core'', 8443)"
  by (simp add: split_host_port_def lit_def starts_with_def split_first_def u16_parse_def
      is_ascii_digit_def digit_val_def)

lemma demo_beat:
  "\<exists>d'. heartbeat_step demo_heartbeat quiet_period (hb_start sample_ram) =
     (In_Session (cfg_ctrl_url sample_config) (cfg_token sample_config) (lit ''core''), d') \<and>
     hd_wire d' = [Connect (lit ''core'') 8443,
       Post_Json (lit ''core'') HEARTBEAT_PATH (cfg_token sample_config) (lit ''node-7''), Wait_Period]"
proof -
  have rd: "ctrl_url (ram_space Agent) sample_ram = (cfg_ctrl_url sample_config, sample_ram)"
    "token (ram_space Agent) sample_ram = (cfg_token sample_config, sample_ram)"
    "node_id (ram_space Agent) (lit ''a1'') sample_ram = (cfg_node_id sample_config, sample_ram)"
    by (simp_all add: ctrl_url_def token_def node_id_def ram_load_config) (simp add: sample_config_def)
  have gen: "snd (runtime_generation boot_rc sample_ram) = sample_ram"
    by (simp add: runtime_generation_def boot_rc_def runtime_current_def ram_load split: option.split result.split)
  have fields: "cfg_ctrl_url sample_config = lit ''https://core:8443''" "cfg_node_id sample_config = lit ''node-7''"
    "cfg_token sample_config \<noteq> []"
    by (simp_all add: sample_config_def)
  show ?thesis
    using gen
    by (auto simp: heartbeat_step_def hb_start_def quiet_period_def reconnect_step_def session_step_def
        session_pass_def send_heartbeat_def heartbeat_body_def demo_heartbeat_def emit_def Let_def rd fields
        sample_url wait_period_def active_deployment_id_def active_digest_def split: prod.splits)
qed


theorem heartbeat_rate_bounded_witness:
  "\<exists>l d. run_steps (heartbeat_step demo_heartbeat) [quiet_period] (hb_start sample_ram) = (l, d) \<and>
     length (filter is_post (hd_wire d)) = 1 \<and> paced True (hd_wire d)"
proof -
  obtain l d where run: "run_steps (heartbeat_step demo_heartbeat) [quiet_period] (hb_start sample_ram) = (l, d)"
    by force
  moreover have "length (filter is_post (hd_wire d)) = 1"
    using run demo_beat by auto
  ultimately show ?thesis using heartbeat_rate_bounded [OF demo_heartbeat_law run] by simp
qed

end
