(* ===== verification/Improv.thy ===== *)
theory Improv
  imports Supervisor
begin

text \<open>
  \<open>src/provisioning.rs\<close>: the Improv Serial service of the init image, which lets a browser enter the
  Wi-Fi credentials over the serial line. The frame encoding and the byte parser are the crate
  \<open>improv-serial\<close>'s and stay parameters; a frame is kept as what it encodes.
\<close>

unbundle bit_operations_syntax

section \<open>The protocol's vocabulary\<close>

datatype improv_state = Authorized | Im_Provisioning | Provisioned

datatype improv_error = UnableToConnect | UnknownRpc

datatype rpc_command = Rpc_GetCurrentState | Rpc_GetDeviceInfo | Rpc_GetWifiNetworks | Rpc_GetNetworkState | Rpc_WifiSettings

record wifi_settings =
  ws_ssid :: bytes
  ws_password :: bytes

datatype parsed_command =
    GetCurrentState | GetDeviceInfo | GetWifiNetworks | GetNetworkState
  | WifiSettings wifi_settings | Unsupported u8

datatype frame =
    state_frame improv_state
  | error_frame improv_error
  | rpc_response_frame rpc_command "bytes list"

record device_info =
  firmware_name :: bytes
  firmware_version :: bytes
  chip_name :: bytes
  device_name :: bytes

record network =
  net_ssid :: bytes
  net_signal_strength :: int
  net_secured :: bool

text \<open>
  The Wi-Fi capability (\<open>WifiProvisioning\<close>): of the network handle only whether there is one matters
  here.
\<close>

record 'w wifi_provisioning =
  wifi_is_online :: "'w \<Rightarrow> bool"
  wifi_address :: "'w \<Rightarrow> bytes option"
  wifi_scan :: "'w \<Rightarrow> network list \<times> 'w"
  wifi_provision :: "bytes \<Rightarrow> bytes \<Rightarrow> 'w \<Rightarrow> bool \<times> 'w"
  wifi_network_handle :: "'w \<Rightarrow> bool"

text \<open>
  What \<open>run\<close> is handed: the capability, the application's port \<open>NetworkReady\<close>, an action of the
  application on its own state \<open>'s\<close> that may panic, the byte parser and the device's identity.
\<close>

record ('w, 'p, 's) improv_env =
  im_wifi :: "'w wifi_provisioning"
  im_on_network_ready :: "'s \<Rightarrow> ('w, 's) act"
  im_feed :: "u8 \<Rightarrow> 'p \<Rightarrow> parsed_command option \<times> 'p"
  im_device_info :: device_info

text \<open>
  What the client and the user see, in order: the frames handed to the serial transport (whose
  write errors are logged and ignored) and the status LED.
\<close>

datatype improv_event = Sent frame | Led status

record ('p, 's) improv_service =
  im_parser :: 'p
  im_state :: improv_state
  im_services :: 's
  im_events :: "improv_event list"

definition note_event :: "improv_event \<Rightarrow> ('p, 's) improv_service \<Rightarrow> ('p, 's) improv_service" where
  "note_event e s = s\<lparr>im_events := im_events s @ [e]\<rparr>"

definition send :: "frame \<Rightarrow> ('p, 's) improv_service \<Rightarrow> ('p, 's) improv_service" where
  "send f = note_event (Sent f)"

definition indicator_set :: "status \<Rightarrow> ('p, 's) improv_service \<Rightarrow> ('p, 's) improv_service" where
  "indicator_set st = note_event (Led st)"

section \<open>The handlers\<close>

text \<open>A question to the platform, which changes nothing.\<close>

definition act_ask :: "('w \<Rightarrow> 'a) \<Rightarrow> ('w, 'a) act" where
  "act_ask g = act_read (\<lambda>w. (g w, w))"

lemma wp_ask [wp_rules]: "wp (act_ask g) Q E d \<longleftrightarrow> Q (g (world d)) d"
  by (simp add: act_ask_def wp_rules)

definition idle_status :: "'w wifi_provisioning \<Rightarrow> ('w, status) act" where
  "idle_status wifi = act_ask (\<lambda>w. if wifi_is_online wifi w then S_Online else S_Ready)"

definition next_url :: "'w wifi_provisioning \<Rightarrow> ('w, bytes) act" where
  "next_url wifi = act_ask (\<lambda>w. case wifi_address wifi w of
     None \<Rightarrow> [] | Some address \<Rightarrow> lit ''https://'' @ address @ lit ''/'')"

text \<open>\<open>format!("{}", n)\<close> of a signed number.\<close>

definition fmt_int :: "int \<Rightarrow> bytes" where
  "fmt_int n = (if n < 0 then 45 # fmt_dec (nat (- n)) else fmt_dec (nat n))"

definition handle_current_state ::
  "('w, 'p, 's) improv_env \<Rightarrow> ('p, 's) improv_service \<Rightarrow> ('w, ('p, 's) improv_service) act" where
  "handle_current_state E s =
     (let s1 = send (state_frame (im_state s)) s
      in if im_state s = Provisioned
         then act_bind (next_url (im_wifi E)) (\<lambda>url.
           act_return (send (rpc_response_frame Rpc_GetCurrentState [url]) s1))
         else act_return s1)"

definition handle_device_info ::
  "('w, 'p, 's) improv_env \<Rightarrow> ('p, 's) improv_service \<Rightarrow> ('w, ('p, 's) improv_service) act" where
  "handle_device_info E s =
     (let info = im_device_info E
      in act_return (send (rpc_response_frame Rpc_GetDeviceInfo
           [firmware_name info, firmware_version info, chip_name info, device_name info]) s))"

definition network_frame :: "network \<Rightarrow> frame" where
  "network_frame n = rpc_response_frame Rpc_GetWifiNetworks
     [net_ssid n, fmt_int (net_signal_strength n), if net_secured n then lit ''YES'' else lit ''NO'']"

text \<open>One frame per network, then the empty one that ends the list.\<close>

definition handle_wifi_networks ::
  "('w, 'p, 's) improv_env \<Rightarrow> ('p, 's) improv_service \<Rightarrow> ('w, ('p, 's) improv_service) act" where
  "handle_wifi_networks E s =
     (let s1 = indicator_set S_Scanning s
      in act_bind (act_read (wifi_scan (im_wifi E))) (\<lambda>networks.
         let s2 = fold (\<lambda>n. send (network_frame n)) networks s1;
             s3 = send (rpc_response_frame Rpc_GetWifiNetworks []) s2
         in act_bind (idle_status (im_wifi E)) (\<lambda>st. act_return (indicator_set st s3))))"

definition handle_network_state ::
  "('w, 'p, 's) improv_env \<Rightarrow> ('p, 's) improv_service \<Rightarrow> ('w, ('p, 's) improv_service) act" where
  "handle_network_state E s =
     act_bind (act_ask (wifi_is_online (im_wifi E))) (\<lambda>online.
       let flags = (if online then 0x02 OR 0x01 else (0x02 :: u8))
       in if online
          then act_bind (next_url (im_wifi E)) (\<lambda>url.
            act_return (send (rpc_response_frame Rpc_GetNetworkState [fmt_dec (unat flags), url]) s))
          else act_return (send (rpc_response_frame Rpc_GetNetworkState [fmt_dec (unat flags)]) s))"

text \<open>
  The credentials: the services are started before the client is told, on a connection with a
  network handle; one without is logged and answered the same.
\<close>

definition handle_wifi_settings ::
  "('w, 'p, 's) improv_env \<Rightarrow> wifi_settings \<Rightarrow> ('p, 's) improv_service \<Rightarrow> ('w, ('p, 's) improv_service) act" where
  "handle_wifi_settings E settings s =
     (let s1 = send (state_frame Im_Provisioning) (indicator_set S_Connecting (s\<lparr>im_state := Im_Provisioning\<rparr>))
      in act_bind (act_read (wifi_provision (im_wifi E) (ws_ssid settings) (ws_password settings))) (\<lambda>connected.
         if connected then
           act_bind (act_ask (wifi_network_handle (im_wifi E))) (\<lambda>network.
           act_bind (if network then im_on_network_ready E (im_services s1) else act_return (im_services s1)) (\<lambda>self.
             let s2 = indicator_set S_Online (s1\<lparr>im_services := self, im_state := Provisioned\<rparr>);
                 s3 = send (state_frame Provisioned) s2
             in act_bind (next_url (im_wifi E)) (\<lambda>url.
               act_return (send (rpc_response_frame Rpc_WifiSettings [url]) s3))))
         else
           let s2 = indicator_set S_Failed (s1\<lparr>im_state := Authorized\<rparr>)
           in act_return (send (state_frame Authorized) (send (error_frame UnableToConnect) s2))))"

definition handle_command ::
  "('w, 'p, 's) improv_env \<Rightarrow> parsed_command \<Rightarrow> ('p, 's) improv_service \<Rightarrow> ('w, ('p, 's) improv_service) act" where
  "handle_command E c s = (case c of
     GetCurrentState \<Rightarrow> handle_current_state E s
   | GetDeviceInfo \<Rightarrow> handle_device_info E s
   | GetWifiNetworks \<Rightarrow> handle_wifi_networks E s
   | GetNetworkState \<Rightarrow> handle_network_state E s
   | WifiSettings settings \<Rightarrow> handle_wifi_settings E settings s
   | Unsupported command \<Rightarrow> act_return (send (error_frame UnknownRpc) s))"

section \<open>The service loop\<close>

definition feed_byte ::
  "('w, 'p, 's) improv_env \<Rightarrow> u8 \<Rightarrow> ('p, 's) improv_service \<Rightarrow> ('w, ('p, 's) improv_service) act" where
  "feed_byte E byte s =
     (case im_feed E byte (im_parser s) of
        (None, p) \<Rightarrow> act_return (s\<lparr>im_parser := p\<rparr>)
      | (Some command, p) \<Rightarrow> handle_command E command (s\<lparr>im_parser := p\<rparr>))"

fun feed_bytes ::
  "('w, 'p, 's) improv_env \<Rightarrow> bytes \<Rightarrow> ('p, 's) improv_service \<Rightarrow> ('w, ('p, 's) improv_service) act" where
  "feed_bytes E [] s = act_return s"
| "feed_bytes E (byte # buffer) s = act_bind (feed_byte E byte s) (feed_bytes E buffer)"

text \<open>One pass of the loop: a failed read is logged and skipped, a read of at most 64 bytes is fed.\<close>

definition improv_pass ::
  "('w, 'p, 's) improv_env \<Rightarrow> (bytes, unit) result \<Rightarrow> ('p, 's) improv_service \<Rightarrow> ('w, ('p, 's) improv_service) act" where
  "improv_pass E read s = (case read of Err _ \<Rightarrow> act_return s | Ok buffer \<Rightarrow> feed_bytes E buffer s)"

text \<open>The endless loop over the reads made so far.\<close>

fun improv_loop ::
  "('w, 'p, 's) improv_env \<Rightarrow> (bytes, unit) result list \<Rightarrow> ('p, 's) improv_service \<Rightarrow> ('w, ('p, 's) improv_service) act" where
  "improv_loop E [] s = act_return s"
| "improv_loop E (read # reads) s = act_bind (improv_pass E read s) (improv_loop E reads)"

definition improv_start :: "('w, 'p, 's) improv_env \<Rightarrow> 'p \<Rightarrow> 's \<Rightarrow> ('w, ('p, 's) improv_service) act" where
  "improv_start E parser_new services =
     act_bind (act_ask (wifi_is_online (im_wifi E))) (\<lambda>online.
     act_bind (idle_status (im_wifi E)) (\<lambda>st.
       act_return (indicator_set st
         \<lparr>im_parser = parser_new, im_state = (if online then Provisioned else Authorized),
          im_services = services, im_events = []\<rparr>)))"

definition improv_run ::
  "('w, 'p, 's) improv_env \<Rightarrow> 'p \<Rightarrow> 's \<Rightarrow> (bytes, unit) result list \<Rightarrow> ('w, ('p, 's) improv_service) act" where
  "improv_run E parser_new services reads = act_bind (improv_start E parser_new services) (improv_loop E reads)"

section \<open>Invariants of the loop\<close>

text \<open>
  What every command keeps holds after any reads; \<open>X\<close> is what holds when the application's port
  panics.
\<close>

locale improv_invariant =
  fixes E :: "('w, 'p, 's) improv_env"
    and K :: "('p, 's) improv_service \<Rightarrow> 'w device \<Rightarrow> bool"
    and X :: "exit_kind \<Rightarrow> 'w device \<Rightarrow> bool"
  assumes handler_keeps: "K s d \<Longrightarrow> wp (handle_command E c s) K X d"
    and parser_keeps: "K s d \<Longrightarrow> K (s\<lparr>im_parser := p\<rparr>) d"
begin

lemma feed_keeps: "K s d \<Longrightarrow> wp (feed_byte E b s) K X d"
  by (simp add: feed_byte_def wp_rules handler_keeps parser_keeps split: prod.split option.split)

lemma bytes_keep: "K s d \<Longrightarrow> wp (feed_bytes E bs s) K X d"
  by (induction bs arbitrary: s d) (auto simp: wp_rules intro: wp_mono [OF feed_keeps])

lemma pass_keeps: "K s d \<Longrightarrow> wp (improv_pass E r s) K X d"
  by (simp add: improv_pass_def wp_rules bytes_keep split: result.split)

lemma loop_keeps: "K s d \<Longrightarrow> wp (improv_loop E reads s) K X d"
  by (induction reads arbitrary: s d) (auto simp: wp_rules intro: wp_mono [OF pass_keeps])

end

text \<open>What the port and the capability's two operations keep of the device and of the services.\<close>

definition port_keeps ::
  "('w, 'p, 's) improv_env \<Rightarrow> ('s \<Rightarrow> 'w device \<Rightarrow> bool) \<Rightarrow> (exit_kind \<Rightarrow> 'w device \<Rightarrow> bool) \<Rightarrow> bool" where
  "port_keeps E I X \<longleftrightarrow> (\<forall>self d. I self d \<longrightarrow>
     wp (act_read (wifi_scan (im_wifi E))) (\<lambda>_. I self) X d \<and>
     (\<forall>ssid password. wp (act_read (wifi_provision (im_wifi E) ssid password)) (\<lambda>_. I self) X d) \<and>
     wp (im_on_network_ready E self) I X d)"

lemmas event_defs = send_def indicator_set_def note_event_def

lemma networks_sent:
  "fold (\<lambda>n. send (network_frame n)) ns s =
     s\<lparr>im_events := im_events s @ map (\<lambda>n. Sent (network_frame n)) ns\<rparr>"
  by (induction ns arbitrary: s) (simp_all add: event_defs)

lemma services_noted [simp]:
  "im_services (note_event e s) = im_services s" "im_services (send f s) = im_services s"
  "im_services (indicator_set st s) = im_services s"
  "im_services (fold (\<lambda>n. send (network_frame n)) ns s) = im_services s"
  by (simp_all add: event_defs networks_sent [unfolded send_def])

lemmas handler_defs = handle_current_state_def handle_device_info_def handle_wifi_networks_def
  handle_network_state_def handle_wifi_settings_def idle_status_def next_url_def

lemma improv_invariant_port:
  assumes "port_keeps E I X"
  shows "improv_invariant E (\<lambda>s. I (im_services s)) X"
proof
  show "wp (handle_command E c s) (\<lambda>s. I (im_services s)) X d" if "I (im_services s) d" for s d c
  proof -
    have wifi: "I (im_services s) (d\<lparr>world := snd (wifi_scan (im_wifi E) (world d))\<rparr>)"
      "I (im_services s) (d\<lparr>world := snd (wifi_provision (im_wifi E) ssid password (world d))\<rparr>)" for ssid password
      using assms that by (simp_all add: port_keeps_def wp_rules)
    then have port: "wp (im_on_network_ready E (im_services s)) I X
        (d\<lparr>world := snd (wifi_provision (im_wifi E) ssid password (world d))\<rparr>)" for ssid password
      using assms by (simp add: port_keeps_def)
    show ?thesis
      using that wifi port
      by (cases c) (auto simp: handle_command_def handler_defs Let_def wp_rules intro!: wp_mono [OF port])
  qed
qed simp

lemma improv_run_keeps:
  assumes "port_keeps E I X" and "I services d"
  shows "wp (improv_run E p services reads) (\<lambda>s. I (im_services s)) X d"
  using improv_invariant.loop_keeps [OF improv_invariant_port [OF assms(1)]] assms(2)
  by (simp add: improv_run_def improv_start_def idle_status_def wp_rules event_defs)

section \<open>What the client sees\<close>

text \<open>The state the client was last told, and what the LED shows.\<close>

fun told_state :: "improv_event list \<Rightarrow> improv_state option" where
  "told_state [] = None"
| "told_state (e # es) =
     (case told_state es of Some st \<Rightarrow> Some st
      | None \<Rightarrow> (case e of Sent (state_frame st) \<Rightarrow> Some st | _ \<Rightarrow> None))"

fun shown_led :: "improv_event list \<Rightarrow> status option" where
  "shown_led [] = None"
| "shown_led (e # es) =
     (case shown_led es of Some st \<Rightarrow> Some st | None \<Rightarrow> (case e of Led st \<Rightarrow> Some st | _ \<Rightarrow> None))"

lemma told_state_append: "told_state (xs @ ys) = (case told_state ys of Some st \<Rightarrow> Some st | None \<Rightarrow> told_state xs)"
  by (induction xs) (auto split: option.splits)

lemma shown_led_append: "shown_led (xs @ ys) = (case shown_led ys of Some st \<Rightarrow> Some st | None \<Rightarrow> shown_led xs)"
  by (induction xs) (auto split: option.splits)

text \<open>
  Settled: the state is not the transient one, the client was told it if it was told anything,
  and the LED shows a resting status, a failure only while waiting for credentials.
\<close>

definition settled_service :: "('p, 's) improv_service \<Rightarrow> bool" where
  "settled_service s \<longleftrightarrow>
     im_state s \<noteq> Im_Provisioning \<and>
     told_state (im_events s) \<in> {None, Some (im_state s)} \<and>
     shown_led (im_events s) \<in> {Some S_Ready, Some S_Online, Some S_Failed} \<and>
     \<not> (shown_led (im_events s) = Some S_Failed \<and> im_state s \<noteq> Authorized)"

lemma networks_told: "told_state (map (\<lambda>n. Sent (network_frame n)) ns) = None"
  by (induction ns) (simp_all add: network_frame_def)

lemma networks_led: "shown_led (map (\<lambda>n. Sent (network_frame n)) ns) = None"
  by (induction ns) simp_all

text \<open>What a scan appends, and how a connection attempt may end.\<close>

definition scanned :: "('p, 's) improv_service \<Rightarrow> ('p, 's) improv_service \<Rightarrow> bool" where
  "scanned s s' \<longleftrightarrow> (\<exists>networks. \<exists>st \<in> {S_Ready, S_Online}. s' = s\<lparr>im_events := im_events s @
      (Led S_Scanning # map (\<lambda>n. Sent (network_frame n)) networks @
       [Sent (rpc_response_frame Rpc_GetWifiNetworks []), Led st])\<rparr>)"

definition attempted :: "('p, 's) improv_service \<Rightarrow> ('p, 's) improv_service \<Rightarrow> bool" where
  "attempted s s' \<longleftrightarrow>
     (\<exists>self url. s' = s\<lparr>im_services := self, im_state := Provisioned, im_events := im_events s @
        [Led S_Connecting, Sent (state_frame Im_Provisioning), Led S_Online, Sent (state_frame Provisioned),
         Sent (rpc_response_frame Rpc_WifiSettings [url])]\<rparr>) \<or>
     s' = s\<lparr>im_state := Authorized, im_events := im_events s @
        [Led S_Connecting, Sent (state_frame Im_Provisioning), Led S_Failed,
         Sent (error_frame UnableToConnect), Sent (state_frame Authorized)]\<rparr>"

lemma scan_wp: "wp (handle_wifi_networks E s) (\<lambda>s' _. scanned s s') (\<lambda>_ _. False) d"
  by (auto simp: handle_wifi_networks_def idle_status_def Let_def wp_rules networks_sent scanned_def)
     (auto simp: event_defs)

lemma wp_leaves: "wp m (\<lambda>_ _. True) (\<lambda>e d'. m d = (Exits e, d')) d"
  by (auto simp: wp_def split: prod.split outcome.split)

lemma settings_wp:
  "wp (handle_wifi_settings E st s) (\<lambda>s' _. attempted s s')
     (\<lambda>e d'. \<exists>d1. im_on_network_ready E (im_services s) d1 = (Exits e, d')) d"
proof -
  have told: "attempted s (send (rpc_response_frame Rpc_WifiSettings [url]) (send (state_frame Provisioned)
      (indicator_set S_Online (send (state_frame Im_Provisioning) (indicator_set S_Connecting
        (s\<lparr>im_state := Im_Provisioning\<rparr>))\<lparr>im_services := self, im_state := Provisioned\<rparr>))))" for self url
    by (auto simp: attempted_def event_defs)
  have failed: "attempted s (send (state_frame Authorized) (send (error_frame UnableToConnect)
      (indicator_set S_Failed (send (state_frame Im_Provisioning) (indicator_set S_Connecting
        (s\<lparr>im_state := Im_Provisioning\<rparr>))\<lparr>im_state := Authorized\<rparr>))))"
    by (auto simp: attempted_def event_defs)
  have same: "im_services (send (state_frame Im_Provisioning) (indicator_set S_Connecting
      (s\<lparr>im_state := Im_Provisioning\<rparr>))) = im_services s"
    by (simp add: event_defs)
  have port: "wp (im_on_network_ready E (im_services s)) (\<lambda>_ _. True)
      (\<lambda>e d'. \<exists>d1. im_on_network_ready E (im_services s) d1 = (Exits e, d')) d0" for d0
    by (rule wp_mono [OF wp_leaves]) auto
  show ?thesis
    by (auto simp: handle_wifi_settings_def next_url_def Let_def wp_rules told failed same intro!: wp_mono [OF port])
qed

lemma scanned_settles: "settled_service s \<Longrightarrow> scanned s s' \<Longrightarrow> settled_service s'"
  by (auto simp: settled_service_def scanned_def told_state_append shown_led_append networks_told networks_led)

lemma attempted_settles: "attempted s s' \<Longrightarrow> settled_service s'"
  by (auto simp: settled_service_def attempted_def told_state_append shown_led_append)

lemma handle_settles:
  assumes "settled_service s"
  shows "wp (handle_command E c s) (\<lambda>s' _. settled_service s') (\<lambda>_ _. True) d"
proof (cases c)
  case GetWifiNetworks
  then show ?thesis
    using scanned_settles [OF assms] by (auto simp: handle_command_def intro: wp_mono [OF scan_wp])
next
  case (WifiSettings st)
  then show ?thesis
    by (auto simp: handle_command_def intro: wp_mono [OF settings_wp] attempted_settles)
qed (use assms in \<open>auto simp: handle_command_def handle_current_state_def handle_device_info_def
    handle_network_state_def next_url_def Let_def wp_rules event_defs settled_service_def told_state_append
    shown_led_append\<close>)

interpretation settles: improv_invariant E "\<lambda>s _. settled_service s" "\<lambda>_ _. True" for E
  by unfold_locales (erule handle_settles, simp add: settled_service_def)

text \<open>
  C23: whatever bytes arrive on the serial line and however the reads fail, once a read is
  processed the service is never left in the transient state, the client has last been told the
  state the service is in (if it was told one at all), and the LED shows ready, online, or, while
  credentials are awaited, the failure of the last attempt; a scan or a connection attempt never
  leaves its own indication behind. The service ends only in a panic of the application's port.
\<close>

theorem improv_client_in_sync:
  "case improv_run E p services reads d of
     (Returns s, _) \<Rightarrow>
       im_state s \<in> {Authorized, Provisioned} \<and>
       told_state (im_events s) \<in> {None, Some (im_state s)} \<and>
       (shown_led (im_events s) \<in> {Some S_Ready, Some S_Online} \<or>
        shown_led (im_events s) = Some S_Failed \<and> im_state s = Authorized)
   | (Exits e, d') \<Rightarrow> \<exists>self d1. im_on_network_ready E self d1 = (Exits e, d')"
proof -
  have calm: "wp (improv_run E p services reads) (\<lambda>s _. settled_service s) (\<lambda>_ _. True) d"
    by (auto simp: improv_run_def improv_start_def idle_status_def wp_rules intro!: settles.loop_keeps)
      (simp_all add: settled_service_def event_defs)
  have port: "port_keeps E (\<lambda>_ _. True) (\<lambda>e d'. \<exists>self d1. im_on_network_ready E self d1 = (Exits e, d'))"
    unfolding port_keeps_def by (auto simp: wp_rules intro: wp_mono [OF wp_leaves])
  from wp_conj [OF calm improv_run_keeps [OF port, where services = services and p = p]] show ?thesis
    by (auto simp: wp_def settled_service_def split: prod.splits outcome.splits)
       (metis improv_state.exhaust)+
qed

section \<open>Every command is answered\<close>

text \<open>
  The frame on which a client stops waiting for a command: the client of ESP Web Tools awaits the
  RPC result of a state request too when the device is already provisioned, the empty entry at the
  end of the network list, and the URL or the return to \<open>Authorized\<close> after credentials.
\<close>

fun closes :: "parsed_command \<Rightarrow> improv_state \<Rightarrow> frame \<Rightarrow> bool" where
  "closes GetCurrentState st f =
     (if st = Provisioned then (case f of rpc_response_frame Rpc_GetCurrentState [_] \<Rightarrow> True | _ \<Rightarrow> False)
      else f = state_frame st)"
| "closes GetDeviceInfo _ f = (case f of rpc_response_frame Rpc_GetDeviceInfo [_, _, _, _] \<Rightarrow> True | _ \<Rightarrow> False)"
| "closes GetWifiNetworks _ f = (f = rpc_response_frame Rpc_GetWifiNetworks [])"
| "closes GetNetworkState _ f = (case f of rpc_response_frame Rpc_GetNetworkState (_ # _) \<Rightarrow> True | _ \<Rightarrow> False)"
| "closes (WifiSettings _) _ f =
     (case f of rpc_response_frame Rpc_WifiSettings [_] \<Rightarrow> True | state_frame st \<Rightarrow> st = Authorized | _ \<Rightarrow> False)"
| "closes (Unsupported _) _ f = (f = error_frame UnknownRpc)"

fun frames_of :: "improv_event list \<Rightarrow> frame list" where
  "frames_of [] = []"
| "frames_of (Sent f # es) = f # frames_of es"
| "frames_of (Led _ # es) = frames_of es"

lemma frames_of_append: "frames_of (xs @ ys) = frames_of xs @ frames_of ys"
  by (induction xs rule: frames_of.induct) simp_all

lemma frames_of_networks: "frames_of (map (\<lambda>n. Sent (network_frame n)) ns) = map network_frame ns"
  by (induction ns) simp_all


end
