(* ===== verification/Boot_Init.thy ===== *)
theory Boot_Init
  imports Http_Config Improv
begin

text \<open>
  \<open>src/bin/init.rs\<close>: the boot of the disposable init image, which runs until the first agent has
  reached \<open>Production\<close>. It claims its spaces, checks the lifecycle, establishes the TLS identity,
  and only then brings up the radio and answers Improv on the serial line, with the provisioning
  supervisor as the port that starts the form.
\<close>

section \<open>The factory image of the build\<close>

text \<open>
  \<open>parse_u32_ascii\<close>: one or more ASCII digits, with \<open>checked_mul\<close> and \<open>checked_add\<close> on 32 bits.
\<close>

fun parse_u32_loop :: "u32 \<Rightarrow> bytes \<Rightarrow> u32 option" where
  "parse_u32_loop out [] = Some out"
| "parse_u32_loop out (byte # bytes) =
     (if \<not> is_ascii_digit byte then None
      else case u32_checked_mul out 10 of
        None \<Rightarrow> None
      | Some m \<Rightarrow>
          (case u32_checked_add m (ucast (byte - 48)) of
             None \<Rightarrow> None
           | Some out' \<Rightarrow> parse_u32_loop out' bytes))"

definition parse_u32_ascii :: "bytes \<Rightarrow> u32 option" where
  "parse_u32_ascii value = (if value = [] then None else parse_u32_loop 0 value)"

text \<open>The environment of the build (\<open>option_env!\<close>).\<close>

record build_env =
  EMBEWI_FACTORY_AGENT_SIZE :: "bytes option"
  EMBEWI_FACTORY_AGENT_DIGEST :: "bytes option"
  EMBEWI_FACTORY_AGENT_DEPLOYMENT :: "bytes option"

definition factory_agent :: "build_env \<Rightarrow> ('w, preloaded_agent) act" where
  "factory_agent env =
     (case Option.bind (EMBEWI_FACTORY_AGENT_SIZE env) parse_u32_ascii of
        None \<Rightarrow> act_exit Panicked
      | Some n \<Rightarrow>
          (case EMBEWI_FACTORY_AGENT_DIGEST env of
             None \<Rightarrow> act_exit Panicked
           | Some digest \<Rightarrow>
               act_return \<lparr>pa_size = n, pa_digest = digest,
                 pa_deployment_id = (case EMBEWI_FACTORY_AGENT_DEPLOYMENT env of
                   None \<Rightarrow> lit ''factory-agent'' | Some d \<Rightarrow> d)\<rparr>))"

section \<open>The boot\<close>

text \<open>
  The platform of the agent image, and what only this image uses: the creation of the TLS
  identity, the Wi-Fi capability with its reconnection, the parser of the Improv crate (its state
  kept as bytes, none at first), and the reads the serial line gives during the boot.
\<close>

record 'w init_platform =
  ip_base :: "'w platform"
  ip_ensure_identity :: "'w config_space \<Rightarrow> bytes \<Rightarrow> 'w \<Rightarrow> (unit, unit) result \<times> 'w"
  ip_reconnect_saved :: "'w \<Rightarrow> bool \<times> 'w"
  ip_wifi :: "'w wifi_provisioning"
  ip_feed :: "u8 \<Rightarrow> bytes \<Rightarrow> parsed_command option \<times> bytes"
  ip_serial :: "(bytes, unit) result list"
  ip_hardware_id :: bytes
  ip_chip_name :: bytes
  ip_version :: bytes
  ip_env :: build_env

record 'w init_spaces =
  init_hardware :: "'w config_space"
  init_agent :: "'w config_space"
  init_lifecycle :: "'w config_space"
  init_ota_space :: "'w config_space"
  init_tls :: "'w config_space"
  init_wifi :: "'w config_space"

definition init_claim_spaces :: "'w platform \<Rightarrow> ('w, 'w init_spaces) act" where
  "init_claim_spaces P =
     act_bind (claim_space P Hardware hardware_CONFIG_BUDGET) (\<lambda>hw.
     act_bind (claim_space P Agent agent_CONFIG_BUDGET) (\<lambda>ag.
     act_bind (claim_space P Lifecycle (foreign_budget P Lifecycle)) (\<lambda>lc.
     act_bind (claim_space P Ota (foreign_budget P Ota)) (\<lambda>ot.
     act_bind (claim_space P Tls (foreign_budget P Tls)) (\<lambda>tl.
     act_bind (claim_space P Wifi (foreign_budget P Wifi)) (\<lambda>wi.
     act_return \<lparr>init_hardware = hw, init_agent = ag, init_lifecycle = lc,
       init_ota_space = ot, init_tls = tl, init_wifi = wi\<rparr>))))))"

definition enter_provisioning :: "'w ota_service \<Rightarrow> 'w config_space \<Rightarrow> ('w, unit) act" where
  "enter_provisioning svc lifecycle =
     act_bind (act_expect (bootstrap_state_of svc lifecycle)) (\<lambda>s. case s of
       Factory \<Rightarrow> act_expect (begin_provisioning svc lifecycle)
     | Provisioning \<Rightarrow> act_return ()
     | ReadyForAgent \<Rightarrow> act_return ()
     | Production \<Rightarrow> act_exit Panicked)"

definition establish_identity :: "'w init_platform \<Rightarrow> 'w init_spaces \<Rightarrow> ('w, unit) act" where
  "establish_identity P sp =
     act_seq (act_call Tls_Init (tls_init (ip_base P)))
     (act_bind (act_read (node_id (init_agent sp) (ip_hardware_id P))) (\<lambda>identity_name.
        act_expect (act_call (Ensure_Identity identity_name)
          (ip_ensure_identity P (init_tls sp) identity_name))))"

text \<open>What \<open>provisioning::run\<close> is handed.\<close>

definition init_improv :: "'w init_platform \<Rightarrow> ('w, bytes, supervisor) improv_env" where
  "init_improv P = \<lparr>
     im_wifi = ip_wifi P,
     im_on_network_ready = on_network_ready (spawn_token (ip_base P)),
     im_feed = ip_feed P,
     im_device_info = \<lparr>firmware_name = lit ''embewi-init'', firmware_version = ip_version P,
       chip_name = ip_chip_name P, device_name = lit ''embewi-init-'' @ ip_hardware_id P\<rparr>\<rparr>"

text \<open>
  The serial service, which never returns: after the reads made so far it waits for the next.
\<close>

definition serve_improv :: "'w init_platform \<Rightarrow> supervisor \<Rightarrow> ('w, unit) act" where
  "serve_improv P supervisor =
     act_seq (act_call Serve_Improv (\<lambda>w. ((), w)))
     (act_bind (improv_run (init_improv P) [] supervisor (ip_serial P)) (\<lambda>_. act_exit Idles))"

text \<open>The network: the Wi-Fi manager, the saved network if there is one, and Improv for ever.\<close>

definition serve_init :: "'w init_platform \<Rightarrow> 'w init_spaces \<Rightarrow> ('w, unit) act" where
  "serve_init P sp =
     act_seq (act_call Wifi_Construct (wifi_construct (ip_base P) (init_wifi sp)))
     (act_bind (act_call Wifi_Reconnect (ip_reconnect_saved P)) (\<lambda>connected.
      act_bind (if connected then act_ask (wifi_network_handle (ip_wifi P)) else act_return False) (\<lambda>network.
      act_bind (if network then on_network_ready (spawn_token (ip_base P)) supervisor_new
          else act_return supervisor_new) (\<lambda>supervisor.
      serve_improv P supervisor))))"

definition init_main :: "'w init_platform \<Rightarrow> ('w, unit) act" where
  "init_main P =
     act_bind (act_expect (act_read (nvs_new (ip_base P)))) (\<lambda>_.
     act_bind (init_claim_spaces (ip_base P)) (\<lambda>sp.
     act_seq (enter_provisioning (ota (ip_base P)) (init_lifecycle sp))
     (act_seq (establish_identity P sp)
     (act_bind (factory_agent (ip_env P)) (\<lambda>agent_image.
        serve_init P sp)))))"

section \<open>Parsing\<close>

lemma digit_ucast: "is_ascii_digit b \<Longrightarrow> unat (ucast (b - 48) :: u32) = digit_val b"
proof -
  assume "is_ascii_digit b"
  then have "48 \<le> b" by (simp add: is_ascii_digit_def)
  then have "unat (b - 48) = unat b - 48" by (simp add: unat_sub)
  moreover have "unat (ucast (b - 48) :: u32) = unat (b - 48)"
    using u8_less_256 [of "b - 48"] by (simp add: unsigned_ucast_eq take_bit_eq_mod)
  ultimately show ?thesis by (simp add: digit_val_def)
qed

definition dec_from :: "nat \<Rightarrow> bytes \<Rightarrow> nat" where
  "dec_from acc ds = foldl (\<lambda>n b. 10 * n + digit_val b) acc ds"

lemma dec_from_simps [simp]: "dec_from acc [] = acc"
  "dec_from acc (d # ds) = dec_from (10 * acc + digit_val d) ds"
  by (simp_all add: dec_from_def)

lemma dec_from_ge: "acc \<le> dec_from acc ds"
proof (induction ds arbitrary: acc)
  case (Cons d ds)
  have "acc \<le> 10 * acc + digit_val d" by simp
  also have "\<dots> \<le> dec_from (10 * acc + digit_val d) ds" by (rule Cons.IH)
  finally show ?case by simp
qed simp

lemma parse_u32_loop_iff:
  "parse_u32_loop out ds = Some n \<longleftrightarrow>
   list_all is_ascii_digit ds \<and> dec_from (unat out) ds < 2 ^ 32 \<and> unat n = dec_from (unat out) ds"
proof (induction out ds rule: parse_u32_loop.induct)
  case (1 out)
  then show ?case using unsigned_less [of n, where 'a = nat] by (auto simp: word_unat_eq_iff)
next
  case (2 out b ds)
  let ?next = "10 * unat out + digit_val b"
  note ge = dec_from_ge [of ?next ds]
  show ?case
  proof (cases "is_ascii_digit b")
    case digit: True
    note d = digit_ucast [OF digit]
    show ?thesis
    proof (cases "?next < 2 ^ 32")
      case True
      have um: "unat (out * 10) = 10 * unat out"
        using True by (simp add: unat_word_ariths)
      have m: "u32_checked_mul out 10 = Some (out * 10)"
        using True um by (simp add: u32_checked_mul_Some)
      define out' where "out' = out * 10 + ucast (b - 48)"
      have v: "unat out' = ?next"
        using True um d by (simp add: out'_def unat_word_ariths)
      have o: "u32_checked_add (out * 10) (ucast (b - 48)) = Some out'"
        using True um d v by (simp add: u32_checked_add_Some)
      show ?thesis
        using "2.IH" [OF _ m o] digit m o v by (simp del: One_nat_def)
    next
      case False
      have "parse_u32_loop out (b # ds) = None"
      proof (cases "u32_checked_mul out 10")
        case (Some m)
        then have "unat m = 10 * unat out" by (simp add: u32_checked_mul_Some)
        with False d have "u32_checked_add m (ucast (b - 48)) = None"
          by (simp add: u32_checked_add_def)
        with Some digit show ?thesis by simp
      qed (use digit in simp)
      with False ge show ?thesis by simp
    qed
  qed simp
qed

text \<open>
  The size of the build's image is read exactly: on the non-empty digit strings whose value fits
  32 bits the parser returns it, and it rejects everything else, overflow included.
\<close>

lemma parse_u32_ascii_iff:
  "parse_u32_ascii s = Some n \<longleftrightarrow>
   s \<noteq> [] \<and> list_all is_ascii_digit s \<and> dec_val s < 2 ^ 32 \<and> unat n = dec_val s"
  by (auto simp: parse_u32_ascii_def parse_u32_loop_iff dec_val_def dec_from_def)

section \<open>What the init image relies on\<close>

definition init_law :: "'w reading \<Rightarrow> 'w init_platform \<Rightarrow> bool" where
  "init_law M P \<longleftrightarrow>
     platform_law M (ip_base P) \<and>
     op_keeps M {Lifecycle} (svc_begin_provisioning (ota (ip_base P)) (rd_space M Lifecycle)) \<and>
     (\<forall>w. fst (svc_begin_provisioning (ota (ip_base P)) (rd_space M Lifecycle) w) = Ok () \<longrightarrow>
        rd_life M (rd_stored M Lifecycle
          (snd (svc_begin_provisioning (ota (ip_base P)) (rd_space M Lifecycle) w))) = Some Provisioning) \<and>
     op_keeps M {} (tls_init (ip_base P)) \<and>
     (\<forall>name. op_keeps M {Tls} (ip_ensure_identity P (rd_space M Tls) name)) \<and>
     (\<forall>name w. fst (ip_ensure_identity P (rd_space M Tls) name w) = Ok () \<longrightarrow>
        rd_tls_ok M (rd_stored M Tls (snd (ip_ensure_identity P (rd_space M Tls) name w)))) \<and>
     op_keeps M {} (wifi_construct (ip_base P) (rd_space M Wifi)) \<and>
     op_keeps M {} (ip_reconnect_saved P) \<and> op_keeps M {} (wifi_scan (ip_wifi P)) \<and>
     (\<forall>ssid password. op_keeps M {Wifi} (wifi_provision (ip_wifi P) ssid password))"

lemma init_lawD:
  assumes "init_law M P"
  shows "platform_law M (ip_base P)"
    "op_keeps M {Lifecycle} (svc_begin_provisioning (ota (ip_base P)) (rd_space M Lifecycle))"
    "fst (svc_begin_provisioning (ota (ip_base P)) (rd_space M Lifecycle) w) = Ok () \<Longrightarrow>
        rd_life M (rd_stored M Lifecycle
          (snd (svc_begin_provisioning (ota (ip_base P)) (rd_space M Lifecycle) w))) = Some Provisioning"
    "op_keeps M {} (tls_init (ip_base P))"
    "op_keeps M {Tls} (ip_ensure_identity P (rd_space M Tls) name)"
    "fst (ip_ensure_identity P (rd_space M Tls) name w) = Ok () \<Longrightarrow>
        rd_tls_ok M (rd_stored M Tls (snd (ip_ensure_identity P (rd_space M Tls) name w)))"
    "op_keeps M {} (wifi_construct (ip_base P) (rd_space M Wifi))"
    "op_keeps M {} (ip_reconnect_saved P)" "op_keeps M {} (wifi_scan (ip_wifi P))"
    "op_keeps M {Wifi} (wifi_provision (ip_wifi P) ssid password)"
  using assms by (simp_all add: init_law_def)

text \<open>The calls that put the device on a network or on the serial line.\<close>

fun network_call :: "call \<Rightarrow> bool" where
  "network_call Wifi_Construct = True"
| "network_call Wifi_Reconnect = True"
| "network_call (Spawn _) = True"
| "network_call Serve_Improv = True"
| "network_call _ = False"

definition init_spaces_ok :: "'w reading \<Rightarrow> 'w init_spaces \<Rightarrow> bool" where
  "init_spaces_ok M sp \<longleftrightarrow>
     init_hardware sp = rd_space M Hardware \<and> init_agent sp = rd_space M Agent \<and>
     init_lifecycle sp = rd_space M Lifecycle \<and> init_ota_space sp = rd_space M Ota \<and>
     init_tls sp = rd_space M Tls \<and> init_wifi sp = rd_space M Wifi"

fun is_claim :: "call \<Rightarrow> bool" where
  "is_claim (Claim _) = True"
| "is_claim _ = False"

lemma claim_not_network: "is_claim c \<Longrightarrow> \<not> network_call c"
  by (cases c) simp_all

text \<open>The claims change nothing and leave only their own trace.\<close>

definition claims_run :: "'w reading \<Rightarrow> 'w device \<Rightarrow> 'w device \<Rightarrow> bool" where
  "claims_run M d d' \<longleftrightarrow> kept M {} (world d) (world d') \<and> (\<exists>cs. calls d' = calls d @ cs \<and> list_all is_claim cs)"

lemma claims_run_preorder: "preorder_on_devices (claims_run M)"
  unfolding preorder_on_devices_def
proof (intro conjI allI impI)
  show "claims_run M d d" for d by (auto simp: claims_run_def)
  show "claims_run M d d''" if "claims_run M d d'" "claims_run M d' d''" for d d' d''
    using that kept_trans [of M "{}" "world d" "world d'" "{}" "world d''" "{}"]
    unfolding claims_run_def by (metis append.assoc list_all_append empty_subsetI sup_bot.right_neutral)
qed

lemma claim_space_run:
  assumes "platform_law M P"
  shows "phase (claims_run M) (\<lambda>e. e = Panicked) (\<lambda>s. s = rd_space M n) (claim_space P n b)"
  unfolding claim_space_def
proof (rule phase_expect [OF claims_run_preorder refl])
  show "phase (claims_run M) (\<lambda>e. e = Panicked) (\<lambda>r. \<forall>a. r = Ok a \<longrightarrow> a = rd_space M n)
      (act_call (Claim n) (claim P n b))"
    using platform_lawD(4) [OF assms, of n b] platform_lawD(5) [OF assms, of n b]
    by (auto simp: phase_def wp_rules claims_run_def kept_op)
qed

lemma init_claim_spaces_run:
  assumes "platform_law M P"
  shows "phase (claims_run M) (\<lambda>e. e = Panicked) (init_spaces_ok M) (init_claim_spaces P)"
  unfolding init_claim_spaces_def
  by ((rule phase_bind [OF claims_run_preorder claim_space_run [OF assms]], simp only:)+,
      rule phase_return [OF claims_run_preorder], simp add: init_spaces_ok_def)

lemma enter_provisioning_law:
  assumes law: "init_law M P"
  shows "wp (enter_provisioning (ota (ip_base P)) (rd_space M Lifecycle))
     (\<lambda>_ d'. kept M {Lifecycle} (world d) (world d') \<and>
        rd_life M (rd_stored M Lifecycle (world d')) \<in> {Some Provisioning, Some ReadyForAgent} \<and>
        rd_life M (rd_stored M Lifecycle (world d)) \<noteq> Some Production \<and>
        (calls d' = calls d \<or> calls d' = calls d @ [Begin_Provisioning]))
     (\<lambda>e d'. e = Panicked \<and> kept M {Lifecycle} (world d) (world d') \<and>
        (calls d' = calls d \<or> calls d' = calls d @ [Begin_Provisioning]) \<and>
        (rd_life M (rd_stored M Lifecycle (world d)) = Some Production \<longrightarrow>
           calls d' = calls d \<and> kept M {} (world d) (world d'))) d"
proof -
  let ?svc = "ota (ip_base P)"
  note O = ota_lawD [OF platform_lawD(13) [OF init_lawD(1) [OF law]]]
  obtain r w1 where boot: "svc_bootstrap_state ?svc (rd_space M Lifecycle) (world d) = (r, w1)" by force
  have k1: "kept M {} (world d) w1"
    using kept_op [OF O(4), of "world d"] boot by simp
  have k1': "kept M {Lifecycle} (world d) w1"
    using k1 by (simp add: kept_def)
  let ?w2 = "snd (svc_begin_provisioning ?svc (rd_space M Lifecycle) w1)"
  have k2: "kept M {Lifecycle} (world d) ?w2"
    by (rule kept_trans [OF k1 kept_op [OF init_lawD(2) [OF law]]]) simp
  have life: "rd_life M (rd_stored M Lifecycle (world d)) = Some s"
    "rd_life M (rd_stored M Lifecycle w1) = Some s" if "r = Ok s" for s
    using O(6) [of "world d" s] boot that k1 by (simp_all add: kept_def)
  have begun: "rd_life M (rd_stored M Lifecycle ?w2) = Some Provisioning"
    if "fst (svc_begin_provisioning ?svc (rd_space M Lifecycle) w1) = Ok u" for u
    using init_lawD(3) [OF law] that by simp
  show ?thesis
    using k1 k1' k2 life begun
    unfolding enter_provisioning_def wp_bind wp_expect wp_bootstrap_state_of boot fst_conv snd_conv
    by (cases r; cases "result_ok r"; cases "the (result_ok r)")
       (auto simp: wp_rules begin_provisioning_def split: result.split)
qed
lemma node_id_world: "snd (node_id space hw w) = snd (load space w)"
  by (simp add: node_id_def load_config_def split: prod.split result.split option.split)

lemma establish_identity_law:
  assumes law: "init_law M P" and sp: "init_spaces_ok M sp"
  shows "wp (establish_identity P sp)
     (\<lambda>_ d'. kept M {Tls} (world d) (world d') \<and> rd_tls_ok M (rd_stored M Tls (world d')) \<and>
        (\<exists>name. calls d' = calls d @ [Tls_Init, Ensure_Identity name]))
     (\<lambda>e d'. e = Panicked \<and> kept M {Tls} (world d) (world d') \<and>
        (\<exists>name. calls d' = calls d @ [Tls_Init, Ensure_Identity name])) d"
proof -
  note cs = platform_lawD(1) [OF init_lawD(1) [OF law]]
  let ?w1 = "snd (tls_init (ip_base P) (world d))"
  obtain nm w2 where nm: "node_id (rd_space M Agent) (ip_hardware_id P) ?w1 = (nm, w2)" by force
  have "op_keeps M {} (load (rd_space M Agent))"
    by (rule platform_lawD(2) [OF init_lawD(1) [OF law]])
  then have "kept M {} ?w1 (snd (node_id (rd_space M Agent) (ip_hardware_id P) ?w1))"
    by (simp add: op_keeps_def node_id_world)
  then have k2: "kept M {} (world d) w2"
    using kept_trans [OF kept_op [OF init_lawD(4) [OF law], of "world d"]] nm by force
  let ?w3 = "snd (ip_ensure_identity P (rd_space M Tls) nm w2)"
  have k3: "kept M {Tls} (world d) ?w3"
    by (rule kept_trans [OF k2 kept_op [OF init_lawD(5) [OF law]]]) simp
  have ok: "rd_tls_ok M (rd_stored M Tls ?w3)"
    if "fst (ip_ensure_identity P (rd_space M Tls) nm w2) = Ok u" for u
    using init_lawD(6) [OF law] that by simp
  have sp': "init_agent sp = rd_space M Agent" "init_tls sp = rd_space M Tls"
    using sp by (simp_all add: init_spaces_ok_def)
  show ?thesis
    unfolding establish_identity_def wp_seq wp_call wp_bind wp_read sp'
    using k3 ok nm by (auto simp: wp_rules split: result.split)
qed

lemma factory_agent_law:
  "wp (factory_agent env) (\<lambda>a d'. d' = d) (\<lambda>e d'. e = Panicked \<and> d' = d) d"
  by (simp add: factory_agent_def wp_rules split: option.split)

lemma serve_init_law:
  assumes law: "init_law M P" and sp: "init_spaces_ok M sp"
  shows "wp (serve_init P sp) (\<lambda>_ _. False)
     (\<lambda>e d'. kept M {Wifi} (world d) (world d') \<and> (e = Idles \<or> e = Panicked) \<and>
        (\<exists>cs. calls d' = calls d @ Wifi_Construct # cs \<and> list_all network_call cs)) d"
proof -
  let ?S = "\<lambda>d'. kept M {Wifi} (world d) (world d') \<and>
    (\<exists>cs. calls d' = calls d @ Wifi_Construct # cs \<and> list_all network_call cs)"
  let ?E = "\<lambda>e d'. kept M {Wifi} (world d) (world d') \<and> (e = Idles \<or> e = Panicked) \<and>
        (\<exists>cs. calls d' = calls d @ Wifi_Construct # cs \<and> list_all network_call cs)"
  have go: "kept M {Wifi} (world d) (snd (f w))"
    if "kept M {Wifi} (world d) w" "op_keeps M F f" "F \<subseteq> {Wifi}" for w F f
    by (rule kept_trans [OF that(1) kept_op [OF that(2)]]) (use that(3) in auto)
  have ready: "wp (on_network_ready (spawn_token (ip_base P)) self) (\<lambda>_. ?S) ?E d'" if "?S d'" for self d'
  proof -
    have "kept M {Wifi} (world d) (snd (spawn_token (ip_base P) T_Http_Provisioning (world d')))"
      using go [OF _ platform_lawD(6) [OF init_lawD(1) [OF law]]] that by blast
    then show ?thesis
      using that by (auto simp: on_network_ready_def wp_rules split: prod.split result.split)
  qed
  have port: "port_keeps (init_improv P) (\<lambda>_. ?S) ?E"
    unfolding port_keeps_def init_improv_def
    using ready go [OF _ init_lawD(9) [OF law]] go [OF _ init_lawD(10) [OF law]]
    by (simp add: wp_rules)
  have serve: "wp (serve_improv P self) (\<lambda>_ _. False) ?E d'" if S: "?S d'" for self d'
  proof -
    have called: "?S (d'\<lparr>calls := calls d' @ [Serve_Improv]\<rparr>)" using S by auto
    show ?thesis
      unfolding serve_improv_def
      by (simp add: wp_rules, rule wp_mono [OF improv_run_keeps [OF port called]]) (simp_all add: wp_rules)
  qed
  have wi: "init_wifi sp = rd_space M Wifi"
    using sp by (simp add: init_spaces_ok_def)
  have k2: "kept M {Wifi} (world d)
      (snd (ip_reconnect_saved P (snd (wifi_construct (ip_base P) (rd_space M Wifi) (world d)))))"
    by (rule go [OF go [OF _ init_lawD(7) [OF law]] init_lawD(8) [OF law]]) simp_all
  have start: "wp (on_network_ready (spawn_token (ip_base P)) supervisor_new)
      (\<lambda>self. wp (serve_improv P self) (\<lambda>_ _. False) ?E) ?E d'" if S: "?S d'" for d'
    by (rule wp_mono [OF ready [OF S]]) (use serve in blast)+
  show ?thesis
    unfolding serve_init_def wp_seq [where m = "act_call Wifi_Construct _"] wp_call
      wp_bind [where m = "act_call Wifi_Reconnect _"] wp_bind [where m = "if _ then act_ask _ else _"]
      wp_bind [where m = "if _ then on_network_ready _ _ else _"] wi
    using k2 by (auto simp: wp_rules intro!: start serve)
qed
section \<open>Properties\<close>

text \<open>What a boot of the init image has done when it ends, in a panic or in the Improv loop.\<close>

definition init_post :: "'w reading \<Rightarrow> 'w device \<Rightarrow> exit_kind \<Rightarrow> 'w device \<Rightarrow> bool" where
  "init_post M d e d' \<longleftrightarrow>
     kept M {Lifecycle, Tls, Wifi} (world d) (world d') \<and> (e = Idles \<or> e = Panicked) \<and>
     (\<exists>pre. list_all (\<lambda>c. \<not> network_call c) pre \<and>
       (e = Panicked \<and> calls d' = calls d @ pre \<or>
        (\<exists>name post. calls d' = calls d @ pre @ [Tls_Init, Ensure_Identity name] @ Wifi_Construct # post \<and>
           list_all network_call post \<and> rd_tls_ok M (rd_stored M Tls (world d')) \<and>
           rd_life M (rd_stored M Lifecycle (world d')) \<in> {Some Provisioning, Some ReadyForAgent}))) \<and>
     (rd_life M (rd_stored M Lifecycle (world d)) = Some Production \<longrightarrow>
        e = Panicked \<and> kept M {} (world d) (world d') \<and> (\<exists>cs. calls d' = calls d @ cs \<and> list_all is_claim cs))"

text \<open>The device once the lifecycle is settled, and once the identity is.\<close>

definition lifecycle_settled :: "'w reading \<Rightarrow> 'w device \<Rightarrow> 'w device \<Rightarrow> bool" where
  "lifecycle_settled M d d2 \<longleftrightarrow>
     kept M {Lifecycle} (world d) (world d2) \<and>
     (\<exists>pre. calls d2 = calls d @ pre \<and> list_all (\<lambda>c. \<not> network_call c) pre) \<and>
     rd_life M (rd_stored M Lifecycle (world d2)) \<in> {Some Provisioning, Some ReadyForAgent} \<and>
     rd_life M (rd_stored M Lifecycle (world d)) \<noteq> Some Production"

definition identity_settled :: "'w reading \<Rightarrow> 'w device \<Rightarrow> 'w device \<Rightarrow> bool" where
  "identity_settled M d d3 \<longleftrightarrow>
     kept M {Lifecycle, Tls} (world d) (world d3) \<and>
     (\<exists>pre name. calls d3 = calls d @ pre @ [Tls_Init, Ensure_Identity name] \<and>
        list_all (\<lambda>c. \<not> network_call c) pre) \<and>
     rd_tls_ok M (rd_stored M Tls (world d3)) \<and>
     rd_life M (rd_stored M Lifecycle (world d3)) \<in> {Some Provisioning, Some ReadyForAgent} \<and>
     rd_life M (rd_stored M Lifecycle (world d)) \<noteq> Some Production"

lemma kept_widen: "kept M F u v \<Longrightarrow> F \<subseteq> G \<Longrightarrow> kept M G u v"
  by (auto simp: kept_def)

lemma init_post_panic:
  assumes "kept M {Lifecycle, Tls, Wifi} (world d) (world d')" and "calls d' = calls d @ pre"
    and "list_all (\<lambda>c. \<not> network_call c) pre" and "rd_life M (rd_stored M Lifecycle (world d)) \<noteq> Some Production"
  shows "init_post M d Panicked d'"
  using assms by (auto simp: init_post_def)

lemma identity_settled_panic:
  assumes "identity_settled M d d3"
  shows "init_post M d Panicked d3"
proof -
  obtain pre name where pre: "calls d3 = calls d @ (pre @ [Tls_Init, Ensure_Identity name])"
    "list_all (\<lambda>c. \<not> network_call c) pre"
    using assms by (auto simp: identity_settled_def)
  show ?thesis
    by (rule init_post_panic [OF _ pre(1)])
       (use assms pre in \<open>auto simp: identity_settled_def intro: kept_widen\<close>)
qed

lemma init_serve_post:
  fixes M :: "'w reading"
  assumes law: "init_law M P" and sp: "init_spaces_ok M sp" and d3: "identity_settled M d d3"
  shows "wp (serve_init P sp) (\<lambda>_ _. False) (init_post M d) d3"
proof (rule wp_mono [OF serve_init_law [OF law sp]])
  fix e and d4 :: "'w device"
  assume e: "kept M {Wifi} (world d3) (world d4) \<and> (e = Idles \<or> e = Panicked) \<and>
    (\<exists>cs. calls d4 = calls d3 @ Wifi_Construct # cs \<and> list_all network_call cs)"
  obtain pre name where pre: "calls d3 = calls d @ pre @ [Tls_Init, Ensure_Identity name]"
    "list_all (\<lambda>c. \<not> network_call c) pre"
    using d3 by (auto simp: identity_settled_def)
  have k: "kept M {Lifecycle, Tls, Wifi} (world d) (world d4)"
    using d3 e by (auto simp: identity_settled_def intro: kept_trans)
  have same: "rd_stored M Tls (world d4) = rd_stored M Tls (world d3)"
    "rd_stored M Lifecycle (world d4) = rd_stored M Lifecycle (world d3)"
    using e by (simp_all add: kept_def)
  show "init_post M d e d4"
    using k same e pre d3 unfolding init_post_def identity_settled_def by auto
qed simp

lemma init_identity_post:
  fixes M :: "'w reading"
  assumes law: "init_law M P" and sp: "init_spaces_ok M sp" and d2: "lifecycle_settled M d d2"
  shows "wp (establish_identity P sp) (\<lambda>_. identity_settled M d) (init_post M d) d2"
proof (rule wp_mono [OF establish_identity_law [OF law sp]])
  obtain pre where pre: "calls d2 = calls d @ pre" "list_all (\<lambda>c. \<not> network_call c) pre"
    using d2 by (auto simp: lifecycle_settled_def)
  have k: "kept M {Lifecycle, Tls} (world d) w" if "kept M {Tls} (world d2) w" for w
    using d2 that by (auto simp: lifecycle_settled_def intro: kept_trans)
  show "identity_settled M d d3"
    if "kept M {Tls} (world d2) (world d3) \<and> rd_tls_ok M (rd_stored M Tls (world d3)) \<and>
        (\<exists>name. calls d3 = calls d2 @ [Tls_Init, Ensure_Identity name])" for d3 :: "'w device"
  proof -
    have "rd_stored M Lifecycle (world d3) = rd_stored M Lifecycle (world d2)"
      using that by (simp add: kept_def)
    then show ?thesis
      using that k [of "world d3"] pre d2 by (auto simp: identity_settled_def lifecycle_settled_def)
  qed
  show "init_post M d e d3"
    if "e = Panicked \<and> kept M {Tls} (world d2) (world d3) \<and>
        (\<exists>name. calls d3 = calls d2 @ [Tls_Init, Ensure_Identity name])" for e and d3 :: "'w device"
  proof -
    from that obtain name where nm: "calls d3 = calls d2 @ [Tls_Init, Ensure_Identity name]"
      and e: "e = Panicked" by blast
    have "init_post M d Panicked d3"
    proof (rule init_post_panic)
      show "kept M {Lifecycle, Tls, Wifi} (world d) (world d3)"
        using k [of "world d3"] that by (auto intro: kept_widen)
      show "calls d3 = calls d @ (pre @ [Tls_Init, Ensure_Identity name])"
        using nm pre by simp
    qed (use pre d2 in \<open>auto simp: lifecycle_settled_def\<close>)
    with e show ?thesis by simp
  qed
qed

lemma init_lifecycle_post:
  fixes M :: "'w reading"
  assumes law: "init_law M P" and k0: "kept M {} (world d) w0"
    and d1: "claims_run M (d\<lparr>world := w0\<rparr>) d1"
  shows "wp (enter_provisioning (ota (ip_base P)) (rd_space M Lifecycle)) (\<lambda>_. lifecycle_settled M d)
    (init_post M d) d1"
proof (rule wp_mono [OF enter_provisioning_law [OF law]])
  obtain cs where cs: "calls d1 = calls d @ cs" "list_all is_claim cs"
    using d1 by (auto simp: claims_run_def)
  have quiet: "list_all (\<lambda>c. \<not> network_call c) cs"
    using cs(2) by (induction cs) (auto simp: claim_not_network)
  have k1: "kept M {} (world d) (world d1)"
    using d1 kept_trans [OF k0, of "{}" "world d1" "{}"] by (simp add: claims_run_def)
  have k2: "kept M F (world d) w" if "kept M F (world d1) w" for F w
    by (rule kept_trans [OF k1 that]) simp
  have life: "rd_stored M Lifecycle (world d1) = rd_stored M Lifecycle (world d)"
    using k1 by (simp add: kept_def)
  show "lifecycle_settled M d d2"
    if "kept M {Lifecycle} (world d1) (world d2) \<and>
        rd_life M (rd_stored M Lifecycle (world d2)) \<in> {Some Provisioning, Some ReadyForAgent} \<and>
        rd_life M (rd_stored M Lifecycle (world d1)) \<noteq> Some Production \<and>
        (calls d2 = calls d1 \<or> calls d2 = calls d1 @ [Begin_Provisioning])" for d2 :: "'w device"
    using that k2 [of "{Lifecycle}" "world d2"] cs(1) quiet life by (auto simp: lifecycle_settled_def)
  show "init_post M d e d2"
    if "e = Panicked \<and> kept M {Lifecycle} (world d1) (world d2) \<and>
        (calls d2 = calls d1 \<or> calls d2 = calls d1 @ [Begin_Provisioning]) \<and>
        (rd_life M (rd_stored M Lifecycle (world d1)) = Some Production \<longrightarrow>
           calls d2 = calls d1 \<and> kept M {} (world d1) (world d2))" for e and d2 :: "'w device"
  proof -
    have "kept M {Lifecycle, Tls, Wifi} (world d) (world d2)"
      using k2 [of "{Lifecycle}" "world d2"] that by (auto intro: kept_widen)
    moreover have "init_post M d Panicked d2"
      if k: "kept M {Lifecycle, Tls, Wifi} (world d) (world d2)" and b: "calls d2 = calls d1 @ bs"
        and bs: "list_all (\<lambda>c. \<not> network_call c) bs"
        and p: "rd_life M (rd_stored M Lifecycle (world d)) = Some Production \<longrightarrow>
          bs = [] \<and> kept M {} (world d) (world d2)" for bs
    proof -
      have "calls d2 = calls d @ (cs @ bs)" using b cs by simp
      moreover have "list_all (\<lambda>c. \<not> network_call c) (cs @ bs)" using quiet bs by simp
      ultimately show ?thesis
        using k p cs(2) unfolding init_post_def by (metis append.right_neutral)
    qed
    ultimately show ?thesis
      using that k2 [of "{}" "world d2"] life by auto
  qed
qed

lemma init_main_spec:
  fixes M :: "'w reading"
  assumes law: "init_law M P"
  shows "wp (init_main P) (\<lambda>_ _. False) (init_post M d) d"
proof -
  note pl = init_lawD(1) [OF law]
  let ?w0 = "snd (nvs_new (ip_base P) (world d))"
  let ?d0 = "d\<lparr>world := ?w0\<rparr>"
  have k0: "kept M {} (world d) ?w0"
    by (rule kept_op [OF platform_lawD(3) [OF pl]])
  have panic: "init_post M d Panicked d1" if "claims_run M ?d0 d1" for d1 :: "'w device"
  proof -
    from that obtain cs where cs: "calls d1 = calls d @ cs" "list_all is_claim cs"
      by (auto simp: claims_run_def)
    have quiet: "list_all (\<lambda>c. \<not> network_call c) cs"
      using cs(2) by (induction cs) (auto simp: claim_not_network)
    have "kept M {} (world d) (world d1)"
      using that kept_trans [OF k0, of "{}" "world d1" "{}"] by (simp add: claims_run_def)
    with cs quiet kept_widen [OF this, of "{Lifecycle, Tls, Wifi}"] show ?thesis
      by (auto simp: init_post_def)
  qed
  have rest: "wp (act_seq (enter_provisioning (ota (ip_base P)) (init_lifecycle sp))
     (act_seq (establish_identity P sp)
     (act_bind (factory_agent (ip_env P)) (\<lambda>agent_image. serve_init P sp)))) (\<lambda>_ _. False) (init_post M d) d1"
    if sp: "init_spaces_ok M sp" and d1: "claims_run M ?d0 d1" for sp and d1 :: "'w device"
  proof -
    have serve: "wp (act_bind (factory_agent (ip_env P)) (\<lambda>agent_image. serve_init P sp))
        (\<lambda>_ _. False) (init_post M d) d3" if "identity_settled M d d3" for d3 :: "'w device"
      unfolding wp_bind
    proof (rule wp_mono [OF factory_agent_law])
      show "wp (serve_init P sp) (\<lambda>_ _. False) (init_post M d) d4" if "d4 = d3" for d4
        using init_serve_post [OF law sp \<open>identity_settled M d d3\<close>] that by simp
      show "init_post M d e d4" if "e = Panicked \<and> d4 = d3" for e d4
        using that \<open>identity_settled M d d3\<close> identity_settled_panic by blast
    qed
    have ident: "wp (act_seq (establish_identity P sp)
        (act_bind (factory_agent (ip_env P)) (\<lambda>agent_image. serve_init P sp)))
        (\<lambda>_ _. False) (init_post M d) d2" if "lifecycle_settled M d d2" for d2 :: "'w device"
      unfolding wp_seq by (rule wp_mono [OF init_identity_post [OF law sp that]]) (rule serve)
    have lc: "init_lifecycle sp = rd_space M Lifecycle" using sp by (simp add: init_spaces_ok_def)
    show ?thesis
      unfolding wp_seq [where m = "enter_provisioning _ _"] lc
      by (rule wp_mono [OF init_lifecycle_post [OF law k0 d1]]) (rule ident)
  qed
  have "wp (init_claim_spaces (ip_base P)) (\<lambda>sp. wp (act_seq (enter_provisioning (ota (ip_base P)) (init_lifecycle sp))
     (act_seq (establish_identity P sp)
     (act_bind (factory_agent (ip_env P)) (\<lambda>agent_image. serve_init P sp)))) (\<lambda>_ _. False) (init_post M d))
     (init_post M d) ?d0"
    by (rule wp_mono [OF phase_run [OF init_claim_spaces_run [OF pl]]]) (use rest panic in blast)+
  moreover have "init_post M d Panicked ?d0"
    by (rule panic) (simp add: claims_run_def)
  ultimately show ?thesis
    unfolding init_main_def wp_bind [where m = "act_expect _"] wp_bind [where m = "init_claim_spaces _"]
    by (simp add: wp_expect wp_read split: result.split)
qed
text \<open>
  C26: the TLS identity comes before the network. The init image never returns; every call that puts
  the device on a network or answers the serial line comes after the identity was created or
  verified, and then the stored identity is valid and the lifecycle is \<open>Provisioning\<close> or
  \<open>ReadyForAgent\<close>. When anything before that fails, the boot panics with no network call made.
\<close>

theorem init_identity_before_network:
  assumes "init_law M P" and "init_main P d = (out, d')" and "calls d = []"
  shows "(out = Exits Panicked \<and> list_all (\<lambda>c. \<not> network_call c) (calls d')) \<or>
    ((out = Exits Idles \<or> out = Exits Panicked) \<and>
     (\<exists>pre name post. calls d' = pre @ [Tls_Init, Ensure_Identity name] @ Wifi_Construct # post \<and>
        list_all (\<lambda>c. \<not> network_call c) pre \<and> list_all network_call post \<and>
        rd_tls_ok M (rd_stored M Tls (world d')) \<and>
        rd_life M (rd_stored M Lifecycle (world d')) \<in> {Some Provisioning, Some ReadyForAgent}))"
  using init_main_spec [OF assms(1), of d] assms(2,3)
  by (cases out) (auto simp: wp_def init_post_def)

text \<open>
  C27: the init image never runs on a device in production. Whatever is stored, if the lifecycle is
  \<open>Production\<close> the boot panics having made nothing but claims, and no stored value has changed.
\<close>

theorem init_never_in_production:
  assumes "init_law M P" and "init_main P d = (out, d')" and "calls d = []"
    and "rd_life M (rd_stored M Lifecycle (world d)) = Some Production"
  shows "out = Exits Panicked \<and> list_all is_claim (calls d') \<and>
    (\<forall>m. rd_stored M m (world d') = rd_stored M m (world d))"
  using init_main_spec [OF assms(1), of d] assms(2-4)
  by (cases out) (auto simp: wp_def init_post_def kept_def)

subsection \<open>A factory device\<close>

definition init_base :: "ram platform" where
  "init_base = demo_platform\<lparr>ota := init_ota\<rparr>"

lemma init_base_law: "platform_law init_reading init_base"
proof -
  have O: "ota_law init_reading init_ota 15000"
  proof -
    have rest: "svc_on_boot init_ota = svc_on_boot demo_ota" "svc_pending_check init_ota = svc_pending_check demo_ota"
      "svc_confirm_pending init_ota = svc_confirm_pending demo_ota"
      by (simp_all add: init_ota_def)
    have same: "snd (svc_on_boot demo_ota sp w) = w" "snd (svc_pending_check demo_ota dl w) = w"
      "snd (svc_confirm_pending demo_ota sp w) = w" for sp dl w
      by (simp_all add: demo_ota_def)
    have act: "rd_active init_reading = (\<lambda>_. Some (RuntimeApi 1 0))"
      by (simp add: init_reading_def demo_reading_def)
    show ?thesis
      unfolding ota_law_def op_keeps_def rest kept_def act
      by (auto simp: same init_ota_ops life_commit_keeps life_stored_byte dest!: life_commit_Ok split: if_splits)
  qed
  show ?thesis
    using demo_platform_law O
    unfolding platform_law_def init_base_def init_reading_def op_keeps_def kept_def workload_law_def
    by (simp add: demo_platform_def demo_reading_def)
qed

definition demo_init :: "ram init_platform" where
  "demo_init = \<lparr>ip_base = init_base,
     ip_ensure_identity = (\<lambda>space name. life_commit 1 space),
     ip_reconnect_saved = (\<lambda>w. (False, w)),
     ip_wifi = \<lparr>wifi_is_online = (\<lambda>w. False), wifi_address = (\<lambda>w. Some (lit ''10.0.0.9'')),
       wifi_scan = (\<lambda>w. ([], w)), wifi_provision = (\<lambda>ssid password w. (True, w)),
       wifi_network_handle = (\<lambda>w. True)\<rparr>,
     ip_feed = (\<lambda>b st. (if b = 0 then Some (WifiSettings \<lparr>ws_ssid = st, ws_password = []\<rparr>) else None, st @ [b])),
     ip_serial = [Err (), Ok (lit ''lan'' @ [0])],
     ip_hardware_id = lit ''a1'', ip_chip_name = lit ''esp32c3'', ip_version = lit ''0.1.0'',
     ip_env = \<lparr>EMBEWI_FACTORY_AGENT_SIZE = Some (lit ''4096''),
       EMBEWI_FACTORY_AGENT_DIGEST = Some [7], EMBEWI_FACTORY_AGENT_DEPLOYMENT = None\<rparr>\<rparr>"

lemma demo_init_law: "init_law init_reading demo_init"
proof -
  have act: "rd_active init_reading = (\<lambda>_. Some (RuntimeApi 1 0))"
    "rd_tls_ok init_reading = (\<lambda>s. s \<noteq> None)"
    by (simp_all add: init_reading_def demo_reading_def)
  have ops: "tls_init init_base = (\<lambda>w. ((), w))" "wifi_construct init_base = (\<lambda>_ w. ((), w))"
    "ota init_base = init_ota"
    by (simp_all add: init_base_def demo_platform_def)
  show ?thesis
    using init_base_law
    unfolding init_law_def op_keeps_def kept_def
    by (auto simp: demo_init_def init_ota_ops life_commit_keeps life_stored_byte act ops dest!: life_commit_Ok)
qed

lemma demo_init_parts:
  "ip_base demo_init = init_base" "ip_ensure_identity demo_init = (\<lambda>space name. life_commit 1 space)"
  "ip_reconnect_saved demo_init = (\<lambda>w. (False, w))" "ip_hardware_id demo_init = lit ''a1''"
  "ip_env demo_init = \<lparr>EMBEWI_FACTORY_AGENT_SIZE = Some (lit ''4096''),
     EMBEWI_FACTORY_AGENT_DIGEST = Some [7], EMBEWI_FACTORY_AGENT_DEPLOYMENT = None\<rparr>"
  by (simp_all add: demo_init_def)

text \<open>The credentials come over the serial line after a failed read, and the form is started.\<close>

lemma demo_serves:
  "wp (serve_improv demo_init supervisor_new) (\<lambda>_ _. False)
     (\<lambda>e d'. e = Idles \<and> world d' = world d \<and> calls d' = calls d @ [Serve_Improv, Spawn T_Http_Provisioning]) d"
proof -
  have bytes: "lit ''lan'' @ [0] = [108, 97, 110, 0 :: u8]" by (simp add: lit_def)
  show ?thesis
    unfolding demo_init_def init_base_def demo_platform_def bytes
    by (simp add: serve_improv_def init_improv_def improv_run_def improv_start_def improv_pass_def feed_byte_def
        handle_command_def handler_defs Let_def on_network_ready_def supervisor_new_def wp_rules)
qed

lemma demo_init_boot:
  "wp (init_main demo_init) (\<lambda>_ _. False)
     (\<lambda>e d'. e = Idles \<and> Ensure_Identity (lit ''embewi-a1'') \<in> set (calls d') \<and>
        Spawn T_Http_Provisioning \<in> set (calls d') \<and>
        (\<forall>m. m \<noteq> Wifi \<longrightarrow> cells (world d') m = cells init_ram m)) (powered ram_empty)"
proof -
  have life: "life_commit b (ram_space n) w = (Ok (), ram_put n [b] w)" if "faults w = []" for b n w
    using that by (simp add: life_commit_def ram_commit)
  have w: "ram_empty\<lparr>faults := []\<rparr> = ram_empty" "\<not> ram_faulty ram_empty"
    by (simp_all add: ram_empty_def ram_faulty_def)
  have name: "node_id (ram_space Agent) (lit ''a1'') (ram_put Lifecycle [1] ram_empty) =
      (lit ''embewi-a1'', ram_put Lifecycle [1] ram_empty)"
    by (simp add: node_id_def ram_load_config agent_config_default_def lit_def)
  have size: "parse_u32_ascii (lit ''4096'') = Some 4096"
    by (simp add: parse_u32_ascii_iff dec_val_def digit_val_def is_ascii_digit_def lit_def)
  show ?thesis
    by (simp add: init_main_def demo_init_parts init_base_def demo_platform_def init_claim_spaces_def
        claim_space_def enter_provisioning_def begin_provisioning_def establish_identity_def factory_agent_def
        serve_init_def wp_rules init_ota_ops life w life_stored_def name size Let_def)
      (rule wp_mono [OF demo_serves], simp, simp add: init_ram_def ram_with_def ram_put_def)
qed

theorem init_identity_before_network_witness:
  "\<exists>d'. init_main demo_init (powered ram_empty) = (Exits Idles, d') \<and>
     Ensure_Identity (lit ''embewi-a1'') \<in> set (calls d') \<and>
     (life_stored (cells (world d') Lifecycle) = Provisioning \<or>
      life_stored (cells (world d') Lifecycle) = ReadyForAgent)"
proof -
  obtain d' where run: "init_main demo_init (powered ram_empty) = (Exits Idles, d')"
    and nm: "Ensure_Identity (lit ''embewi-a1'') \<in> set (calls d')"
    using boot_run [OF demo_init_boot] by metis
  from init_identity_before_network [OF demo_init_law run] nm run show ?thesis by auto
qed

theorem init_never_in_production_witness:
  "\<exists>d'. init_main demo_init (powered (ram_with Lifecycle [3] ram_empty)) = (Exits Panicked, d') \<and>
     list_all is_claim (calls d')"
proof -
  obtain out d' where run: "init_main demo_init (powered (ram_with Lifecycle [3] ram_empty)) = (out, d')"
    by force
  have "rd_life init_reading (rd_stored init_reading Lifecycle
      (world (powered (ram_with Lifecycle [3] ram_empty)))) = Some Production"
    by (simp add: ram_with_def life_stored_byte)
  from init_never_in_production [OF demo_init_law run _ this] run show ?thesis by simp
qed
subsection \<open>The form behind the link\<close>

text \<open>
  A client that is told \<open>Provisioned\<close> shows the link to the device's page. What holds between two
  commands: the page is served whenever that was said, by the one task the supervisor spawned.
\<close>

definition connected_has_handle :: "'w wifi_provisioning \<Rightarrow> bool" where
  "connected_has_handle wifi \<longleftrightarrow> (\<forall>ssid password w.
     fst (wifi_provision wifi ssid password w) \<longrightarrow> wifi_network_handle wifi (snd (wifi_provision wifi ssid password w)))"

definition form_behind_link :: "supervisor \<Rightarrow> 'w device \<Rightarrow> ('p, supervisor) improv_service \<Rightarrow> 'w device \<Rightarrow> bool" where
  "form_behind_link self d s d' \<longleftrightarrow>
     (im_state s = Provisioned \<or> told_state (im_events s) = Some Provisioned \<longrightarrow> ip_services_started (im_services s)) \<and>
     (ip_services_started self \<longrightarrow> ip_services_started (im_services s)) \<and>
     calls d' = calls d @
       (if ip_services_started self \<or> \<not> ip_services_started (im_services s) then [] else [Spawn T_Http_Provisioning])"

lemma im_wifi_init: "im_wifi (init_improv P) = ip_wifi P"
  by (simp add: init_improv_def)

lemma form_behind_link_kept:
  assumes wifi: "connected_has_handle (ip_wifi P)"
  shows "improv_invariant (init_improv P) (form_behind_link self d) (\<lambda>_ _. True)"
proof
  fix s :: "(bytes, supervisor) improv_service" and d' :: "'a device" and c
  assume K: "form_behind_link self d s d'"
  have quiet: "form_behind_link self d (s\<lparr>im_events := im_events s @ es\<rparr>) (d'\<lparr>world := w\<rparr>)"
    if "told_state es = None \<or> told_state es = Some (im_state s)" for es w
    using K that by (auto simp: form_behind_link_def told_state_append)
  show "wp (handle_command (init_improv P) c s) (form_behind_link self d) (\<lambda>_ _. True) d'"
  proof (cases c)
    case (WifiSettings st)
    have ready: "wp (on_network_ready (spawn_token (ip_base P)) (im_services s))
        (\<lambda>self' d2. ip_services_started self' \<and> calls d2 = calls d1 @
          (if ip_services_started (im_services s) then [] else [Spawn T_Http_Provisioning])) (\<lambda>_ _. True) d1" for d1
      by (rule wp_mono [OF on_network_ready_spec]) auto
    show ?thesis
      using K wifi unfolding WifiSettings handle_command_def
      by (auto simp: handle_wifi_settings_def init_improv_def connected_has_handle_def next_url_def Let_def wp_rules
          form_behind_link_def event_defs told_state_append intro!: wp_mono [OF ready])
  next
    case GetWifiNetworks
    then show ?thesis
      using quiet by (auto simp: handle_command_def init_improv_def handle_wifi_networks_def idle_status_def Let_def
        wp_rules networks_sent told_state_append networks_told) (auto simp: event_defs told_state_append networks_told)
  qed (use quiet [of _ "world d'"] in \<open>auto simp: handle_command_def init_improv_def handler_defs Let_def wp_rules event_defs\<close>)
qed (simp add: form_behind_link_def)



end
