(* ===== verification/Tasks.thy ===== *)
theory Tasks
  imports Http_Mounts Http_Config Heartbeat Boot_Init
begin

text \<open>
  \<open>src/composition/tasks.rs\<close>: the tasks the supervisors spawn. An Embassy task cannot be generic,
  so each of these builds the platform's concrete types and hands them to the portable function of
  its component; here it builds the record of parameters that function's model takes. The
  configuration of the log stream, whose loop is the crate \<open>iobewi-log-stream\<close>, is here too.
\<close>

section \<open>What the crates supply\<close>

text \<open>
  The static handles (identity, metadata, entropy, indicator), the clock of \<open>iobewi-ntp\<close>, the HTTP
  client, the diagnostics, the JSON functions, and the engines of the OTA and TLS crates.
\<close>

record ('w, 't, 'r, 'p, 'n, 'c, 'e, 's) esp_crates =
  ESP_DEVICE_IDENTITY :: bytes
  ESP_DEVICE_METADATA :: "bytes \<times> u32"
  ESP_OTA_METADATA :: bytes
  ESP_ENTROPY :: "'w \<Rightarrow> (nat \<Rightarrow> u8) \<times> 'w"
  ESP_STATUS_INDICATOR :: "u8 list"
  time_now :: "'w \<Rightarrow> u64 option"
  time_is_set :: "'w \<Rightarrow> bool"
  nvs_is_healthy :: "'w \<Rightarrow> bool"
  constant_time_eq :: "bytes \<Rightarrow> bytes \<Rightarrow> bool"
  ota_engine_of :: "('w, 't, 'r, 'p) ota_engine"
  ota_service_of :: "'w ota_service"
  tls_crates_of :: "('w, 'n, 'c, 'e, 's) tls_crates"
  client_post_json :: "bytes \<Rightarrow> bytes \<Rightarrow> bytes \<Rightarrow> bytes \<Rightarrow> 'w \<Rightarrow> (unit, unit) result \<times> 'w"
  client_drain_response :: "'w \<Rightarrow> (nat \<times> bool, unit) result \<times> 'w"
  client_close :: "'w \<Rightarrow> unit \<times> 'w"
  client_local_address :: "'w \<Rightarrow> bytes option"
  diagnostics_uptime_ms :: "'w \<Rightarrow> u64"
  diagnostics_heap_free :: "'w \<Rightarrow> u32"
  diagnostics_stack_headroom :: "'w \<Rightarrow> u32"
  heartbeat_json :: "heartbeat \<Rightarrow> bytes option"
  info_json :: "info \<Rightarrow> bytes option"
  health_json :: "health \<Rightarrow> bytes option"
  view_json :: "config_view \<Rightarrow> bytes option"
  push_of_json :: "bytes \<Rightarrow> config_push option"
  token_of_json :: "bytes \<Rightarrow> bytes option"
  port_of_json :: "bytes \<Rightarrow> u32 option"

section \<open>The log stream\<close>

record 'w agent_log_config =
  alc_space :: "'w config_space"
  alc_identity :: bytes

definition log_node_id :: "'w agent_log_config \<Rightarrow> 'w \<Rightarrow> bytes \<times> 'w" where
  "log_node_id self = node_id (alc_space self) (alc_identity self)"

definition log_timestamp :: "('w \<Rightarrow> u64 option) \<Rightarrow> 'w \<Rightarrow> u64" where
  "log_timestamp now w = (case now w of None \<Rightarrow> 0 | Some t \<Rightarrow> t)"

definition log_workload :: bytes where
  "log_workload = FW_NAME"

definition log_ctrl_url :: "'w agent_log_config \<Rightarrow> 'w \<Rightarrow> bytes \<times> 'w" where
  "log_ctrl_url self = ctrl_url (alc_space self)"

definition log_token :: "'w agent_log_config \<Rightarrow> 'w \<Rightarrow> bytes \<times> 'w" where
  "log_token self = token (alc_space self)"

definition API_PREFIX :: bytes where
  "API_PREFIX = lit ''/v1alpha1''"

definition log_path :: bytes where
  "log_path = API_PREFIX @ lit ''/logs''"

text \<open>What \<open>iobewi_log_stream::run\<close> is called with.\<close>

record 'w log_stream =
  ls_config :: "'w agent_log_config"
  ls_transport :: "'w secure_connector"
  ls_entropy :: "'w \<Rightarrow> (nat \<Rightarrow> u8) \<times> 'w"

definition run_log_stream ::
  "('w, 't, 'r, 'p, 'n, 'c, 'e, 's) esp_crates \<Rightarrow> 'w config_space \<Rightarrow> 'w config_space \<Rightarrow> 'w log_stream" where
  "run_log_stream K agent_cfg tls_cfg =
     (let config = \<lparr>alc_space = agent_cfg, alc_identity = ESP_DEVICE_IDENTITY K\<rparr>;
          transport = client_transport tls_cfg (time_is_set K)
      in \<lparr>ls_config = config, ls_transport = transport, ls_entropy = ESP_ENTROPY K\<rparr>)"

section \<open>The heartbeat\<close>

definition run_heartbeat ::
  "('w, 't, 'r, 'p, 'n, 'c, 'e, 's) esp_crates \<Rightarrow> 'w config_space \<Rightarrow> 'w runtime_config \<Rightarrow> 'w config_space
   \<Rightarrow> 'w config_space \<Rightarrow> 'w heartbeat_env" where
  "run_heartbeat K agent_cfg runtime ota_cfg tls_cfg =
     (let transport = client_transport tls_cfg (time_is_set K)
      in \<lparr>he_agent = agent_cfg, he_runtime = runtime, he_ota = ota_cfg, he_svc = ota_service_of K,
          he_hardware_id = ESP_DEVICE_IDENTITY K,
          he_connect = transport_connect (tls_crates_of K) transport,
          he_post_json = client_post_json K, he_drain_response = client_drain_response K,
          he_close = client_close K, he_local_address = client_local_address K, he_now = time_now K,
          he_uptime_ms = diagnostics_uptime_ms K, he_heap_free = diagnostics_heap_free K,
          he_stack_headroom = diagnostics_stack_headroom K, he_to_json = heartbeat_json K\<rparr>)"

section \<open>The HTTPS servers\<close>

text \<open>The listener: the session configuration of the stored identity, and its two buffers.\<close>

record ('w, 's) tls_listener =
  li_server_config :: "'w \<Rightarrow> 's option \<times> 'w"
  li_rx :: nat
  li_tx :: nat

definition tls_listener_new ::
  "('w, 't, 'r, 'p, 'n, 'c, 'e, 's) esp_crates \<Rightarrow> 'w config_space \<Rightarrow> ('w, 's) tls_listener" where
  "tls_listener_new K tls_cfg =
     \<lparr>li_server_config = esp_tls_server_config (tls_crates_of K) tls_cfg, li_rx = 1024, li_tx = 1024\<rparr>"

definition run_http_api ::
  "('w, 't, 'r, 'p, 'n, 'c, 'e, 's) esp_crates \<Rightarrow> 'w config_space \<Rightarrow> 'w config_space \<Rightarrow> 'w config_space
   \<Rightarrow> 'w runtime_config \<Rightarrow> 'w config_space \<Rightarrow> 'w workload_service \<Rightarrow> control
   \<Rightarrow> ('w, 's) tls_listener \<times> ('w, 't, 'r, 'p, 'e) http_services" where
  "run_http_api K agent_cfg app_cfg tls_cfg runtime ota_cfg workload control =
     (let listener = tls_listener_new K tls_cfg;
          backend = agent_tls_backend (tls_crates_of K) (constant_time_eq K) tls_cfg agent_cfg;
          source = \<lparr>src_active_slot = boot_active_slot (oe_active_slot (ota_engine_of K)),
            src_boot_info = boot_info (oe_boot_info (ota_engine_of K)),
            src_chip_name = fst (ESP_DEVICE_METADATA K), src_ram_size = snd (ESP_DEVICE_METADATA K),
            src_partition_layout = ESP_OTA_METADATA K, src_hardware_id = ESP_DEVICE_IDENTITY K\<rparr>;
          uploads = agent_ota_backend (ota_engine_of K) (constant_time_eq K)
            (fst (ESP_DEVICE_METADATA K)) (ESP_OTA_METADATA K) ota_cfg agent_cfg
      in (listener,
          \<lparr>hs_api = \<lparr>ap_ct_eq = constant_time_eq K, ap_agent = agent_cfg, ap_app = app_cfg, ap_ota = ota_cfg,
             ap_runtime = runtime, ap_ota_service = ota_service_of K, ap_source = source,
             ap_healthy = nvs_is_healthy K, ap_info_json = info_json K, ap_health_json = health_json K,
             ap_view_json = view_json K, ap_push_of_json = push_of_json K,
             ap_token_of_json = token_of_json K, ap_port_of_json = port_of_json K\<rparr>,
           hs_ota_backend = uploads, hs_workload = workload, hs_control = control,
           hs_tls_backend = backend\<rparr>))"

definition run_http_provisioning ::
  "('w, 't, 'r, 'p, 'n, 'c, 'e, 's) esp_crates \<Rightarrow> templates \<Rightarrow> 'w config_space \<Rightarrow> 'w config_space
   \<Rightarrow> 'w config_space \<Rightarrow> 'w config_space \<Rightarrow> 'w config_space \<Rightarrow> preloaded_agent
   \<Rightarrow> ('w, 's) tls_listener \<times> 'w form_server" where
  "run_http_provisioning K T agent_cfg hardware_cfg tls_cfg lifecycle ota_cfg agent_image =
     (let listener = tls_listener_new K tls_cfg;
          factory = esp_factory_ota (ota_engine_of K) ota_cfg
      in (listener,
          \<lparr>fs_agent = agent_cfg, fs_hardware = hardware_cfg, fs_lifecycle = lifecycle,
           fs_ota = ota_service_of K, fs_factory = factory, fs_factory_agent = agent_image,
           fs_hardware_id = ESP_DEVICE_IDENTITY K, fs_entropy = ESP_ENTROPY K,
           fs_pins = ESP_STATUS_INDICATOR K, fs_templates = T\<rparr>))"

section \<open>The supervisors' fields\<close>

text \<open>
  \<open>ApplicationSupervisor\<close>: the handles \<open>main\<close> gave it, of which the flag is all that changes
  (\<open>Supervisor\<close> models when the tasks are spawned; here is with what).
\<close>

record 'w application_supervisor =
  sup_agent_config :: "'w config_space"
  sup_app_config :: "'w config_space"
  sup_tls_config :: "'w config_space"
  sup_runtime_config :: "'w runtime_config"
  sup_ota_config :: "'w config_space"
  sup_workload :: "'w workload_service"
  sup_workload_control :: control
  sup_ip_services_started :: bool

definition application_supervisor_new ::
  "'w spaces \<Rightarrow> 'w workload_service \<Rightarrow> control \<Rightarrow> 'w application_supervisor" where
  "application_supervisor_new sp workload control =
     \<lparr>sup_agent_config = agent_config_space sp, sup_app_config = app_config sp, sup_tls_config = tls_config sp,
      sup_runtime_config = runtime_cfg sp, sup_ota_config = ota_config sp, sup_workload = workload,
      sup_workload_control = control, sup_ip_services_started = False\<rparr>"

text \<open>What the clock synchronisation is started with; its durations are in seconds.\<close>

record sync_options =
  sync_server :: bytes
  sync_resync_period :: nat
  sync_retry_period :: nat
  sync_exchange_timeout :: nat
  sync_plausible_epoch_floor :: u64

definition time_sync_options :: sync_options where
  "time_sync_options = \<lparr>sync_server = lit ''pool.ntp.org'', sync_resync_period = 3600, sync_retry_period = 15,
     sync_exchange_timeout = 10, sync_plausible_epoch_floor = 1700000000\<rparr>"

record ('w, 't, 'r, 'p, 'e) ip_services =
  ips_http :: "('w, 't, 'r, 'p, 'e) http_services"
  ips_time_sync :: sync_options
  ips_heartbeat :: "'w heartbeat_env"
  ips_log :: "'w log_stream"

definition spawned_services ::
  "('w, 't, 'r, 'p, 'n, 'c, 'e, 's) esp_crates \<Rightarrow> 'w application_supervisor \<Rightarrow> ('w, 't, 'r, 'p, 'e) ip_services" where
  "spawned_services K self =
     \<lparr>ips_http = snd (run_http_api K (sup_agent_config self) (sup_app_config self) (sup_tls_config self)
        (sup_runtime_config self) (sup_ota_config self) (sup_workload self) (sup_workload_control self)),
      ips_time_sync = time_sync_options,
      ips_heartbeat = run_heartbeat K (sup_agent_config self) (sup_runtime_config self) (sup_ota_config self)
        (sup_tls_config self),
      ips_log = run_log_stream K (sup_agent_config self) (sup_tls_config self)\<rparr>"

definition wire_ip_services ::
  "('w, 't, 'r, 'p, 'n, 'c, 'e, 's) esp_crates \<Rightarrow> 'w spaces \<Rightarrow> 'w workload_service \<Rightarrow> control
   \<Rightarrow> ('w, 't, 'r, 'p, 'e) ip_services" where
  "wire_ip_services K sp workload control = spawned_services K (application_supervisor_new sp workload control)"

lemma wire_ip_services_eq:
  "wire_ip_services K sp workload control =
     \<lparr>ips_http = snd (run_http_api K (agent_config_space sp) (app_config sp) (tls_config sp)
        (runtime_cfg sp) (ota_config sp) workload control),
      ips_time_sync = time_sync_options,
      ips_heartbeat = run_heartbeat K (agent_config_space sp) (runtime_cfg sp) (ota_config sp) (tls_config sp),
      ips_log = run_log_stream K (agent_config_space sp) (tls_config sp)\<rparr>"
  by (simp add: wire_ip_services_def spawned_services_def application_supervisor_new_def)

text \<open>\<open>ProvisioningSupervisor\<close>, of the init image, and its one task.\<close>

record 'w provisioning_supervisor =
  psup_agent_config :: "'w config_space"
  psup_hardware_config :: "'w config_space"
  psup_tls_config :: "'w config_space"
  psup_lifecycle_config :: "'w config_space"
  psup_ota_config :: "'w config_space"
  psup_factory_agent :: preloaded_agent
  psup_ip_services_started :: bool

definition provisioning_supervisor_new :: "'w init_spaces \<Rightarrow> preloaded_agent \<Rightarrow> 'w provisioning_supervisor" where
  "provisioning_supervisor_new sp agent_image =
     \<lparr>psup_agent_config = init_agent sp, psup_hardware_config = init_hardware sp, psup_tls_config = init_tls sp,
      psup_lifecycle_config = init_lifecycle sp, psup_ota_config = init_ota_space sp,
      psup_factory_agent = agent_image, psup_ip_services_started = False\<rparr>"

definition spawned_form ::
  "('w, 't, 'r, 'p, 'n, 'c, 'e, 's) esp_crates \<Rightarrow> templates \<Rightarrow> 'w provisioning_supervisor \<Rightarrow> 'w form_server" where
  "spawned_form K T self =
     snd (run_http_provisioning K T (psup_agent_config self) (psup_hardware_config self) (psup_tls_config self)
       (psup_lifecycle_config self) (psup_ota_config self) (psup_factory_agent self))"

definition wire_provisioning ::
  "('w, 't, 'r, 'p, 'n, 'c, 'e, 's) esp_crates \<Rightarrow> templates \<Rightarrow> 'w init_spaces \<Rightarrow> preloaded_agent \<Rightarrow> 'w form_server" where
  "wire_provisioning K T sp agent_image = spawned_form K T (provisioning_supervisor_new sp agent_image)"

section \<open>What the tasks rely on\<close>

text \<open>
  The law of the crates, over a reading of the device: each clause is the documented behaviour of
  one crate, of the kind the component's own law asks for (\<open>api_law\<close>, \<open>heartbeat_law\<close>,
  \<open>form_law\<close>, \<open>tls_law\<close>), stated of the crates instead of the records built from them.
\<close>

definition crates_law ::
  "'w reading \<Rightarrow> (bytes \<Rightarrow> u32 \<Rightarrow> 'w \<Rightarrow> bytes) \<Rightarrow> (snapshot option \<Rightarrow> bool)
   \<Rightarrow> ('w, 't, 'r, 'p, 'n, 'c, 'e, 's) esp_crates \<Rightarrow> bool" where
  "crates_law M slot_hash ca_ok K \<longleftrightarrow>
     config_space_law (rd_space M) (rd_stored M) \<and> ct_eq_law (constant_time_eq K) \<and>
     entropy_law (ESP_ENTROPY K) (rd_stored M) \<and> tls_law M ca_ok (tls_crates_of K) \<and>
     reads_only (rd_stored M) (svc_load_metadata (ota_service_of K) (rd_space M Ota)) \<and>
     reads_only (rd_stored M) (oe_active_slot (ota_engine_of K)) \<and>
     reads_only (rd_stored M) (oe_boot_info (ota_engine_of K)) \<and>
     (\<forall>h p t j. reads_only (rd_stored M) (client_post_json K h p t j)) \<and>
     reads_only (rd_stored M) (client_drain_response K) \<and> reads_only (rd_stored M) (client_close K) \<and>
     (\<forall>b push. push_of_json K b = Some push \<longrightarrow> push_ok push) \<and>
     (\<forall>b t. token_of_json K b = Some t \<longrightarrow> utf8 t) \<and>
     factory_law (rd_stored M) slot_hash (esp_factory_ota (ota_engine_of K) (rd_space M Ota)) \<and>
     writes_only (rd_stored M) {} (svc_bootstrap_state (ota_service_of K) (rd_space M Lifecycle)) \<and>
     writes_only (rd_stored M) {Lifecycle} (svc_ready_for_agent (ota_service_of K) (rd_space M Lifecycle)) \<and>
     (\<forall>w s. fst (svc_bootstrap_state (ota_service_of K) (rd_space M Lifecycle) w) = Ok s \<longrightarrow>
        rd_life M (rd_stored M Lifecycle w) = Some s) \<and>
     (\<forall>w. fst (svc_ready_for_agent (ota_service_of K) (rd_space M Lifecycle) w) = Ok () \<longrightarrow>
        rd_life M (rd_stored M Lifecycle (snd (svc_ready_for_agent (ota_service_of K) (rd_space M Lifecycle) w))) =
          Some ReadyForAgent)"

lemma crates_lawD:
  assumes "crates_law M slot_hash ca_ok K"
  shows "config_space_law (rd_space M) (rd_stored M)" "ct_eq_law (constant_time_eq K)"
    "tls_law M ca_ok (tls_crates_of K)" "push_of_json K b = Some push \<Longrightarrow> push_ok push"
    "token_of_json K b = Some t \<Longrightarrow> utf8 t"
  using assms unfolding crates_law_def by blast+

lemma op_keeps_reads: "op_keeps M {} f \<Longrightarrow> reads_only (rd_stored M) f"
  by (simp add: op_keeps_def kept_def reads_only_def)

lemma boot_source_reads:
  "reads_only stored f \<Longrightarrow> reads_only stored (boot_active_slot f)"
  "reads_only stored g \<Longrightarrow> reads_only stored (boot_info g)"
  by (auto simp: reads_only_def boot_active_slot_def boot_info_def split: prod.split) (metis snd_conv)

text \<open>The records the tasks build keep the laws of the components they are handed to.\<close>

lemma wired_api_law:
  assumes law: "crates_law M slot_hash ca_ok K" and sp: "spaces_ok M sp"
  shows "api_law (rd_space M) (rd_stored M) (hs_api (ips_http (wire_ip_services K sp workload control)))"
proof -
  have "info_law (rd_stored M)
      (ap_source (hs_api (ips_http (wire_ip_services K sp workload control)))) (ota_service_of K) (rd_space M Ota)"
    using law boot_source_reads [of "rd_stored M"]
    by (simp add: info_law_def wire_ip_services_eq run_http_api_def Let_def crates_law_def)
  then show ?thesis
    using sp crates_lawD(1,2) [OF law] crates_lawD(4,5) [OF law]
    by (simp add: api_law_def spaces_ok_def wire_ip_services_eq run_http_api_def Let_def)
qed

lemma wired_heartbeat_law:
  assumes law: "crates_law M slot_hash ca_ok K" and sp: "spaces_ok M sp"
  shows "heartbeat_law (rd_space M) (rd_stored M) (ips_heartbeat (wire_ip_services K sp workload control))"
proof -
  have "reads_only (rd_stored M)
      (transport_connect (tls_crates_of K) (client_transport (rd_space M Tls) (time_is_set K)) h p)" for h p
    by (rule op_keeps_reads [OF tls_lawD(9) [OF crates_lawD(3) [OF law]]])
  then show ?thesis
    using sp law
    by (simp add: heartbeat_law_def spaces_ok_def wire_ip_services_eq run_heartbeat_def Let_def crates_law_def)
qed

lemma wired_form_law:
  assumes law: "crates_law M slot_hash ca_ok K" and sp: "init_spaces_ok M sp"
  shows "form_law M slot_hash (wire_provisioning K T sp img)"
  using sp law
  by (simp add: form_law_def init_spaces_ok_def wire_provisioning_def spawned_form_def provisioning_supervisor_new_def run_http_provisioning_def Let_def crates_law_def)

end
