(* ===== verification/Services.thy ===== *)
theory Services
  imports Tasks
begin

text \<open>
  The services of the agent image together, as the supervisor wires them on the spaces \<open>main\<close>
  claimed: no route of the whole router serves a stranger, a rotated token reaches every service
  at once, and the heartbeat contacts nobody before the clock and the controller's CA are there.
\<close>

section \<open>Strangers\<close>

text \<open>
  The law of the mounted routes: each asks its backend first and, when the token is refused,
  answers \<open>401\<close> and does nothing more (\<open>composition/ota.rs\<close>: the upload service is bound to the
  agent's authorization policy; \<open>http/api.rs\<close>: the TLS service owns authentication).
\<close>

definition asks_first ::
  "('w \<Rightarrow> bool \<times> 'w) \<Rightarrow> ('w server \<Rightarrow> response \<times> 'w server) \<Rightarrow> bool" where
  "asks_first auth f \<longleftrightarrow> (\<forall>s w. auth (srv_world s) = (False, w) \<longrightarrow>
     status (fst (f s)) = UNAUTHORIZED \<and> (snd (f s) = s \<or> snd (f s) = s\<lparr>srv_world := w\<rparr>))"

definition mounts_law :: "('w, 't, 'r, 'p, 'e, 'q, 'v) mounts \<Rightarrow> bool" where
  "mounts_law R \<longleftrightarrow>
     (\<forall>b tok q. asks_first (ob_authorize b (unwrap_or_default tok)) (mt_ota_routes R b tok q)) \<and>
     (\<forall>wl auth ct tok v. asks_first (auth (unwrap_or_default tok)) (mt_workload_routes R wl auth ct tok v)) \<and>
     (\<forall>b tok req_body. asks_first (tb_authorize b (unwrap_or_default tok))
        (tls_route (mt_cert_response R b) tok req_body)) \<and>
     (\<forall>b tok req_body. asks_first (tb_authorize b (unwrap_or_default tok))
        (tls_route (mt_ca_response R b) tok req_body))"

lemma mounts_lawD:
  assumes "mounts_law R"
  shows "asks_first (ob_authorize b (unwrap_or_default tok)) (mt_ota_routes R b tok q)"
    "asks_first (auth (unwrap_or_default tok)) (mt_workload_routes R wl auth ct tok v)"
    "asks_first (tb_authorize tb (unwrap_or_default tok)) (tls_route (mt_cert_response R tb) tok req_body)"
    "asks_first (tb_authorize tb (unwrap_or_default tok)) (tls_route (mt_ca_response R tb) tok req_body)"
  using assms by (simp_all add: mounts_law_def)

text \<open>Every backend of the wired services authorizes with the agent's stored token.\<close>

lemma wired_authorize:
  fixes K :: "('w, 't, 'r, 'p, 'n, 'c, 'e, 's) esp_crates"
  defines "auth \<equiv> \<lambda>sp. is_authorized (constant_time_eq K) (agent_config_space sp)"
  shows "ob_authorize (hs_ota_backend (ips_http (wire_ip_services K sp workload control))) = auth sp"
    "tb_authorize (hs_tls_backend (ips_http (wire_ip_services K sp workload control))) = auth sp"
    "workload_authorize (ap_ct_eq (hs_api (ips_http (wire_ip_services K sp workload control))))
       (ap_agent (hs_api (ips_http (wire_ip_services K sp workload control)))) = auth sp"
  unfolding auth_def
  by (auto simp: wire_ip_services_eq run_http_api_def Let_def agent_ota_backend_def agent_tls_backend_def
      ota_authorize_def tls_authorize_def workload_authorize_def fun_eq_iff)

definition stranger :: "'w reading \<Rightarrow> 'w \<Rightarrow> ('q, 'v) full_request \<Rightarrow> bool" where
  "stranger M w req \<longleftrightarrow> \<not> token_accepted (rd_stored M Agent w) (unwrap_or_default (full_bearer req))"

lemma refused_by_backend:
  assumes law: "crates_law M slot_hash ca_ok K" and sp: "spaces_ok M sp"
    and no: "\<not> token_accepted (rd_stored M Agent (srv_world s)) t"
    and asks: "asks_first (is_authorized (constant_time_eq K) (agent_config_space sp) t) f"
  shows "status (fst (f s)) = UNAUTHORIZED \<and> untouched (rd_stored M) s (snd (f s))"
proof -
  note L = crates_lawD [OF law]
  have ag: "agent_config_space sp = rd_space M Agent" using sp by (simp add: spaces_ok_def)
  obtain b w where run: "is_authorized (constant_time_eq K) (rd_space M Agent) t (srv_world s) = (b, w)" by force
  have "\<not> b"
    using is_authorized_True [OF L(1,2)] run no by (cases b) (auto simp: token_accepted_def)
  then have "status (fst (f s)) = UNAUTHORIZED" "snd (f s) = s \<or> snd (f s) = s\<lparr>srv_world := w\<rparr>"
    using asks run ag unfolding asks_first_def by auto
  then show ?thesis
    using is_authorized_keeps [OF L(1) run] by (auto simp: untouched_def)
qed

lemma serve_full_refuses:
  assumes law: "crates_law M slot_hash ca_ok K" and sp: "spaces_ok M sp" and mounts: "mounts_law R"
    and no: "stranger M (srv_world s) req"
  shows "status (fst (serve_full R (ips_http (wire_ip_services K sp workload control)) req s)) = UNAUTHORIZED \<and>
    untouched (rd_stored M) s (snd (serve_full R (ips_http (wire_ip_services K sp workload control)) req s))"
proof -
  let ?hs = "ips_http (wire_ip_services K sp workload control)"
  note no = no [unfolded stranger_def]
  note R = mounts_lawD [OF mounts] and A = wired_authorize [of K sp workload control]
  note refused = refused_by_backend [OF law sp no]
  show ?thesis
  proof (cases "full_target req")
    case (Own r)
    have "\<exists>s'. serve_request (hs_api ?hs) \<lparr>bearer = full_bearer req, target = r\<rparr> s = (unauthorized, s') \<and>
        untouched (rd_stored M) s s'"
      by (rule serve_refuses [OF wired_api_law [OF law sp]]) (use no in \<open>simp add: presented_def\<close>)
    then show ?thesis using Own by (auto simp: serve_full_def unauthorized_def json_error_def)
  next
    case (Ota_Routes q)
    then show ?thesis
      using refused [OF R(1) [of "hs_ota_backend ?hs" "full_bearer req" q, unfolded A]]
      by (simp add: serve_full_def)
  next
    case (Workload_Routes v)
    then show ?thesis
      using refused [OF R(2) [of "is_authorized (constant_time_eq K) (agent_config_space sp)" "full_bearer req"]]
      by (simp add: serve_full_def A)
  next
    case (Post_Cert b)
    then show ?thesis
      using refused [OF R(3) [of "hs_tls_backend ?hs" "full_bearer req" b, unfolded A]]
      by (simp add: serve_full_def)
  next
    case (Post_Ca b)
    then show ?thesis
      using refused [OF R(4) [of "hs_tls_backend ?hs" "full_bearer req" b, unfolded A]]
      by (simp add: serve_full_def)
  qed
qed

definition full_step ::
  "('w, 't, 'r, 'p, 'e, 'q, 'v) mounts \<Rightarrow> ('w, 't, 'r, 'p, 'e) http_services \<Rightarrow> ('q, 'v) full_request
   \<Rightarrow> 'w server \<Rightarrow> 'w server" where
  "full_step R hs req s = snd (serve_full R hs req s)"

interpretation visits: step_invariant "full_step R (ips_http (wire_ip_services K sp workload control))"
  "\<lambda>s. crates_law M slot_hash ca_ok K \<and> spaces_ok M sp \<and> mounts_law R \<and> untouched (rd_stored M) s0 s"
  "stranger M (srv_world s0)"
  for R :: "('w, 't, 'r, 'p, 'e, 'q, 'v) mounts" and K sp workload control M slot_hash ca_ok s0
proof (unfold_locales, elim conjE, intro conjI)
  fix req :: "('q, 'v) full_request" and s
  assume "stranger M (srv_world s0) req" and law: "crates_law M slot_hash ca_ok K" "spaces_ok M sp" "mounts_law R"
    and s: "untouched (rd_stored M) s0 s"
  then have "stranger M (srv_world s) req" by (simp add: stranger_def untouched_def)
  from serve_full_refuses [OF law this]
  show "untouched (rd_stored M) s0 (full_step R (ips_http (wire_ip_services K sp workload control)) req s)"
    using untouched_trans [OF s] by (simp add: full_step_def)
qed

section \<open>Properties\<close>

text \<open>
  C13: no route serves a stranger. On the spaces the boot claimed, a request that does not present the
  stored token is answered \<open>401\<close> on every route of the router, those of the OTA, Workload and TLS
  crates included, and after any sequence of such requests every stored value, the device state
  and the reboot are as they were.
\<close>

theorem router_refuses_strangers:
  assumes "platform_law M P" and "claim_spaces P d = (Returns sp, d')"
    and "crates_law M slot_hash ca_ok K" and "mounts_law R"
    and "hs = ips_http (wire_ip_services K sp workload control)"
    and "list_all (stranger M (srv_world s)) reqs"
  shows "untouched (rd_stored M) s (run_steps (full_step R hs) reqs s) \<and>
    (\<forall>req \<in> set reqs. status (fst (serve_full R hs req s)) = UNAUTHORIZED)"
proof -
  have sp: "spaces_ok M sp"
    using phase_run [OF claim_spaces_early [OF assms(1)], of d] assms(2) by (simp add: wp_def)
  have "untouched (rd_stored M) s (run_steps (full_step R hs) reqs s)"
    using visits.run_keeps [of M s reqs slot_hash ca_ok K sp R s workload control] assms sp by simp
  then show ?thesis
    using serve_full_refuses [OF assms(3) sp assms(4), of s _ workload control] assms(5,6)
    by (simp add: list_all_iff)
qed

subsection \<open>A device on the in-memory provider\<close>

definition demo_engine :: "(ram, unit, unit, unit) ota_engine" where
  "demo_engine = \<lparr>oe_prepare = (\<lambda>_ _ _ _ _ _ w. (Ok (), w)), oe_activate_staged = (\<lambda>_. fo_activate_staged demo_factory),
     oe_in_progress = (\<lambda>w. (False, w)), oe_received = (\<lambda>w. (0, w)), oe_written = (\<lambda>w. (0, w)),
     oe_params_match = (\<lambda>_ w. (True, w)), oe_write_target = (\<lambda>w. (Err (), w)),
     oe_begin = (\<lambda>_ _ _ _ w. (Ok (), w)), oe_chunk = (\<lambda>_ w. (True, w)), oe_finish = (\<lambda>_ w. (Err FE_NotWriting, w)),
     oe_parse_digest = fo_parse_digest demo_factory, oe_hash_preloaded = fo_hash_preloaded demo_factory,
     oe_publish = (\<lambda>_. fo_publish demo_factory), oe_active_slot = (\<lambda>w. (lit ''ota_0'', w)),
     oe_boot_info = (\<lambda>w. (\<lparr>be_slot = lit ''ota_0'', be_seq = 1, be_state = lit ''valid''\<rparr>, w))\<rparr>"

text \<open>A TLS service that keeps what it is given, and a connector that is fail-closed.\<close>

definition demo_tls :: "(ram, unit, unit, unit, bytes) tls_crates" where
  "demo_tls = \<lparr>tc_entropy = (), tc_crypto_new = (\<lambda>_. ()),
     tc_service_new = (\<lambda>_. \<lparr>ts_ensure_server_identity = (\<lambda>space name w. life_commit 1 space w),
       ts_server_identity_valid = (\<lambda>_ w. (cells w Tls \<noteq> None, w)),
       ts_save_cert = (\<lambda>space _ _ w. life_commit 1 space w), ts_save_ca = (\<lambda>space _ w. life_commit 2 space w),
       ts_server_config = (\<lambda>_ w. (None, w))\<rparr>),
     tc_init = (\<lambda>_ w. ((), w)),
     tc_connect = (\<lambda>_ clock _ _ w. (if clock w \<and> cells w Tls \<noteq> None then Ok () else Err (), w))\<rparr>"

definition demo_crates :: "(ram, unit, unit, unit, unit, unit, unit, bytes) esp_crates" where
  "demo_crates = \<lparr>ESP_DEVICE_IDENTITY = lit ''a1'', ESP_DEVICE_METADATA = (lit ''esp32s3'', 524288),
     ESP_OTA_METADATA = lit ''dual'', ESP_ENTROPY = (\<lambda>w. (\<lambda>_. 171, w)), ESP_STATUS_INDICATOR = [2, 48],
     time_now = (\<lambda>_. Some 1000), time_is_set = (\<lambda>_. True), nvs_is_healthy = (\<lambda>_. True),
     constant_time_eq = (=), ota_engine_of = demo_engine, ota_service_of = init_ota, tls_crates_of = demo_tls,
     client_post_json = (\<lambda>_ _ _ _ w. (Ok (), w)), client_drain_response = (\<lambda>w. (Ok (200, True), w)),
     client_close = (\<lambda>w. ((), w)), client_local_address = (\<lambda>_. None),
     diagnostics_uptime_ms = (\<lambda>_. 5), diagnostics_heap_free = (\<lambda>_. 1), diagnostics_stack_headroom = (\<lambda>_. 1),
     heartbeat_json = (\<lambda>b. Some (hb_node_id b)), info_json = (\<lambda>i. Some (info_node_id i)),
     health_json = (\<lambda>h. Some (health_status h)), view_json = (\<lambda>_. Some []),
     push_of_json = (\<lambda>b. if b = [] then None else Some sample_push), token_of_json = from_utf8,
     port_of_json = (\<lambda>_. None)\<rparr>"

lemma demo_tls_law: "tls_law init_reading (\<lambda>s. s \<noteq> None) demo_tls"
proof -
  have same: "rd_active init_reading w = rd_active init_reading w'" "rd_tls_ok init_reading s \<longleftrightarrow> s \<noteq> None" for w w' s
    by (simp_all add: init_reading_def demo_reading_def)
  show ?thesis
    unfolding tls_law_def op_keeps_def kept_def demo_tls_def esp_tls_service_def
    by (auto simp: life_commit_keeps same intro: same(1) dest!: life_commit_Ok split: if_splits)
qed

lemma demo_crates_law: "crates_law init_reading (\<lambda>_ _ _. [7]) (\<lambda>s. s \<noteq> None) demo_crates"
proof -
  have fo: "esp_factory_ota demo_engine space = demo_factory" for space
    by (simp add: esp_factory_ota_def demo_engine_def demo_factory_def)
  have eng: "snd (oe_active_slot demo_engine w) = w" "snd (oe_boot_info demo_engine w) = w" for w
    by (simp_all add: demo_engine_def)
  have meta: "svc_load_metadata init_ota = svc_load_metadata demo_ota"
    by (simp add: init_ota_def)
  have "reads_only (\<lambda>n w. cells w n) (svc_load_metadata demo_ota (ram_space Ota))"
    by (simp add: reads_only_def demo_ota_def)
  then show ?thesis
    using ram_law sample_push_ok demo_tls_law demo_factory_law
    unfolding crates_law_def
    by (auto simp: demo_crates_def ct_eq_law_def entropy_law_def fo meta eng reads_only_def
        writes_only_def init_ota_ops life_commit_keeps life_stored_byte dest!: life_commit_Ok split: if_splits)
qed

text \<open>Routes that ask their backend and then act on it.\<close>

definition demo_mounts :: "(ram, unit, unit, unit, unit, bytes, bytes) mounts" where
  "demo_mounts = \<lparr>mt_ota_routes = (\<lambda>b tok q s. case ob_authorize b (unwrap_or_default tok) (srv_world s) of
       (ok, w) \<Rightarrow> (if ok then json_ok [] else unauthorized, s\<lparr>srv_world := w\<rparr>)),
     mt_workload_routes = (\<lambda>wl auth ct tok v s. case auth (unwrap_or_default tok) (srv_world s) of
       (ok, w) \<Rightarrow> (if ok then json_ok [] else unauthorized, s\<lparr>srv_world := w\<rparr>)),
     mt_cert_response = (\<lambda>b t req_body w. case tb_authorize b t w of
       (ok, w') \<Rightarrow> if ok then (json_ok [], snd (tb_save_cert b req_body req_body w')) else (unauthorized, w')),
     mt_ca_response = (\<lambda>b t req_body w. case tb_authorize b t w of
       (ok, w') \<Rightarrow> if ok then (json_ok [], snd (tb_save_ca b req_body w')) else (unauthorized, w'))\<rparr>"

lemma demo_mounts_law: "mounts_law demo_mounts"
  by (auto simp: mounts_law_def asks_first_def demo_mounts_def tls_route_def unauthorized_def json_error_def)

lemma demo_claims:
  obtains sp d' where "claim_spaces init_base (powered demo_ram) = (Returns sp, d')" "spaces_ok init_reading sp"
proof -
  have "wp (claim_spaces init_base) (\<lambda>_ _. True) (\<lambda>_ _. False) (powered demo_ram)"
    by (simp add: claim_spaces_def claim_space_def init_base_def demo_platform_def wp_rules demo_facts)
  with phase_run [OF claim_spaces_early [OF init_base_law], of "powered demo_ram"] show thesis
    by (cases "claim_spaces init_base (powered demo_ram)")
       (auto simp: wp_def intro: that split: outcome.splits)
qed

theorem router_refuses_strangers_witness:
  "\<exists>sp d'. claim_spaces init_base (powered demo_ram) = (Returns sp, d') \<and>
     status (fst (serve_full demo_mounts (ips_http (wire_ip_services demo_crates sp demo_workload No_Supervisor))
       \<lparr>full_bearer = Some (lit ''guess''), full_target = Post_Cert (lit ''pem'')\<rparr> demo_server)) = UNAUTHORIZED"
proof -
  obtain sp d' where claims: "claim_spaces init_base (powered demo_ram) = (Returns sp, d')"
    by (rule demo_claims)
  have "cfg_token sample_config \<noteq> lit ''guess''"
    by (simp add: sample_config_def lit_def)
  then have "list_all (stranger init_reading (srv_world demo_server))
      [\<lparr>full_bearer = Some (lit ''guess''), full_target = Post_Cert (lit ''pem'')\<rparr> :: (bytes, bytes) full_request]"
    by (simp add: stranger_def token_accepted_def unwrap_or_default_def demo_server_def)
  from router_refuses_strangers [OF init_base_law claims demo_crates_law demo_mounts_law refl this] claims
  show ?thesis by auto
qed

section \<open>One rotation reaches every service\<close>

lemma token_of_view:
  assumes "config_space_law cs stored" and "agent_view (stored n w) = Some c"
  shows "fst (token (cs n) w) \<in> {cfg_token c, []}"
proof -
  obtain t w' where run: "token (cs n) w = (t, w')" by force
  show ?thesis
    using token_stored [OF assms(1) run] assms(2) run by (cases "t = []") auto
qed

lemma authorized_by_view:
  assumes "config_space_law cs stored" and "ct_eq_law ct" and "agent_view (stored n w) = Some c"
    and "fst (is_authorized ct (cs n) x w)"
  shows "x = cfg_token c"
proof -
  obtain w' where "is_authorized ct (cs n) x w = (True, w')"
    using assms(4) by (cases "is_authorized ct (cs n) x w") auto
  from is_authorized_True [OF assms(1,2) this] assms(3) show ?thesis by auto
qed

text \<open>
  C14: one rotation reaches every service. After a \<open>200\<close> of \<open>POST /token\<close>, and for as long as
  nothing else writes the agent's space, the OTA, Workload and TLS routes accept no token but the
  new one; the heartbeat, in whatever state its loop was, posts under the new token or not at
  all, from its next period on; and the log stream reads the new token, or the empty one when the
  flash cannot be read. No service holds on to the old credential.
\<close>

theorem rotated_token_reaches_services:
  assumes "platform_law M P" and "claim_spaces P d = (Returns sp, d')"
    and law: "crates_law M slot_hash ca_ok K"
    and sv: "sv = wire_ip_services K sp workload control"
    and run: "serve_full R (ips_http sv) \<lparr>full_bearer = tok, full_target = Own (Post_Token b)\<rparr> s = (r, s')"
    and ok: "status r = OK"
    and hb: "hb = run_steps (heartbeat_step (ips_heartbeat sv)) ps (hb_start w0)"
    and beat: "heartbeat_step (ips_heartbeat sv) p hb = (l, hd')"
    and since: "rd_stored M Agent (pd_others p (hd_world (snd hb))) = rd_stored M Agent (srv_world s')"
      "rd_stored M Agent w = rd_stored M Agent (srv_world s')"
  shows "\<exists>t. token_of_json K b = Some t \<and> 8 \<le> length t \<and>
    (\<forall>host path u json. Post_Json host path u json \<in> set (drop (length (hd_wire (snd hb))) (hd_wire hd')) \<longrightarrow> u = t) \<and>
    fst (log_token (ls_config (ips_log sv)) w) \<in> {t, []} \<and>
    (\<forall>x. fst (ob_authorize (hs_ota_backend (ips_http sv)) x w) \<longrightarrow> x = t) \<and>
    (\<forall>x. fst (tb_authorize (hs_tls_backend (ips_http sv)) x w) \<longrightarrow> x = t) \<and>
    (\<forall>x. fst (workload_authorize (ap_ct_eq (hs_api (ips_http sv))) (ap_agent (hs_api (ips_http sv))) x w) \<longrightarrow> x = t)"
proof -
  note L = crates_lawD [OF law]
  have sp: "spaces_ok M sp"
    using phase_run [OF claim_spaces_early [OF assms(1)], of d] assms(2) by (simp add: wp_def)
  then have ag: "agent_config_space sp = rd_space M Agent" by (simp add: spaces_ok_def)
  have req: "serve_request (hs_api (ips_http sv)) \<lparr>bearer = tok, target = Post_Token b\<rparr> s = (r, s')"
    using run by (simp add: serve_full_def)
  obtain t c where t: "ap_token_of_json (hs_api (ips_http sv)) b = Some t" "8 \<le> length t"
    and new: "agent_view (rd_stored M Agent (srv_world s')) = Some c" "cfg_token c = t"
    by (rule post_token_OK [OF wired_api_law [OF law sp, of workload control, folded sv] req ok])
  have view: "agent_view (rd_stored M Agent w) = Some c" using new(1) since(2) by simp
  obtain es where es: "sent (rd_stored M) es (woken p (snd hb)) hd'"
    "period_events (ips_heartbeat sv) (hd_STATE (woken p (snd hb)))
       (rd_stored M Agent (hd_world (woken p (snd hb)))) es"
    by (rule run_period [OF wired_heartbeat_law [OF law sp, of workload control, folded sv] hb beat])
  have posts: "u = t"
    if "Post_Json host path u json \<in> set (drop (length (hd_wire (snd hb))) (hd_wire hd'))" for host path u json
    using period_posts [OF es, of host path u json] that new since(1)
    by (auto simp: woken_def legitimate_def post_of_def)
  have log: "fst (log_token (ls_config (ips_log sv)) w) \<in> {t, []}"
    using token_of_view [OF L(1), of Agent w c] view new(2) ag
    by (simp add: sv wire_ip_services_eq run_log_stream_def Let_def log_token_def)
  have auth: "x = t" if "fst (is_authorized (constant_time_eq K) (agent_config_space sp) x w)" for x
    using authorized_by_view [OF L(1,2) view, of x] that new(2) ag by simp
  have json: "token_of_json K b = Some t"
    using t(1) by (simp add: sv wire_ip_services_eq run_http_api_def Let_def)
  show ?thesis
    using json t(2) posts log auth unfolding sv wired_authorize by blast
qed

text \<open>
  C21: the device contacts nobody before it can check whom. If a run of the heartbeat ever sends a
  heartbeat, then in some period of it the clock was set and the stored CA usable, with the values
  stored as that period found them: a device with no CA, or whose clock was never synchronised,
  sends nothing, whatever the network does.
\<close>

theorem heartbeat_fail_closed:
  assumes "platform_law M P" and "claim_spaces P d = (Returns sp, d')"
    and law: "crates_law M slot_hash ca_ok K"
    and "H = ips_heartbeat (wire_ip_services K sp workload control)"
    and "run_steps (heartbeat_step H) ps (hb_start w0) = (l, hd')"
    and "Post_Json host path tok json \<in> set (hd_wire hd')"
  shows "\<exists>ps1 p ps2 w. ps = ps1 @ p # ps2 \<and>
    (\<forall>m. rd_stored M m w =
       rd_stored M m (pd_others p (hd_world (snd (run_steps (heartbeat_step H) ps1 (hb_start w0)))))) \<and>
    time_is_set K w \<and> ca_ok (rd_stored M Tls w)"
proof -
  have sp: "spaces_ok M sp"
    using phase_run [OF claim_spaces_early [OF assms(1)], of d] assms(2) by (simp add: wp_def)
  have hlaw: "heartbeat_law (rd_space M) (rd_stored M) H"
    using wired_heartbeat_law [OF law sp] assms(4) by simp
  have "filter is_post (hd_wire hd') \<noteq> []"
    using assms(6) by (auto simp: filter_empty_conv intro: bexI [rotated])
  then obtain ps1 p ps2 where ps: "ps = ps1 @ p # ps2"
    and c: "connects (rd_stored M) H (hd_world (woken p (snd (run_steps (heartbeat_step H) ps1 (hb_start w0)))))"
    using post_needs_connection [OF hlaw, of ps w0] assms(5) by auto
  obtain w h port where w: "\<forall>m. rd_stored M m w =
      rd_stored M m (hd_world (woken p (snd (run_steps (heartbeat_step H) ps1 (hb_start w0)))))"
    and conn: "fst (he_connect H h port w) = Ok ()"
    using c unfolding connects_def by blast
  have "tls_config sp = rd_space M Tls" using sp by (simp add: spaces_ok_def)
  then have "fst (transport_connect (tls_crates_of K) (client_transport (rd_space M Tls) (time_is_set K)) h port w) = Ok ()"
    using conn assms(4) by (simp add: wire_ip_services_eq run_heartbeat_def Let_def)
  from tls_lawD(10) [OF crates_lawD(3) [OF law] this]
  have ready: "time_is_set K w" "ca_ok (rd_stored M Tls w)" by simp_all
  have "hd_world (woken p x) = pd_others p (hd_world x)" for x by (simp add: woken_def)
  then show ?thesis using ps w ready by metis
qed

subsection \<open>Both on the device in memory\<close>

lemma wired_beat:
  assumes sp: "spaces_ok init_reading sp"
  shows "\<exists>l d'. heartbeat_step (ips_heartbeat (wire_ip_services demo_crates sp demo_workload No_Supervisor))
       quiet_period (hb_start demo_ram) = (l, d') \<and>
     Post_Json (lit ''core'') HEARTBEAT_PATH (cfg_token sample_config) (lit ''node-7'') \<in> set (hd_wire d')"
proof -
  have view: "agent_view (cells demo_ram Agent) = Some sample_config" and f: "faults demo_ram = []"
    by (simp_all add: demo_ram_def bare_ram_def ram_with_def agent_view_def agent_config_decode_layout
        sample_config_valid)
  have rd: "ctrl_url (ram_space Agent) demo_ram = (cfg_ctrl_url sample_config, demo_ram)"
    "token (ram_space Agent) demo_ram = (cfg_token sample_config, demo_ram)"
    "node_id (ram_space Agent) (lit ''a1'') demo_ram = (cfg_node_id sample_config, demo_ram)"
    by (simp_all add: ctrl_url_def token_def node_id_def ram_load_config view f) (simp add: sample_config_def)
  have spaces: "agent_config_space sp = ram_space Agent" "rc_space (runtime_cfg sp) = ram_space Runtime"
    "ota_config sp = ram_space Ota" "tls_config sp = ram_space Tls"
    using sp by (simp_all add: spaces_ok_def)
  have gen: "snd (runtime_generation (runtime_cfg sp) demo_ram) = demo_ram"
    by (simp add: runtime_generation_def runtime_current_def spaces ram_load f split: option.split result.split)
  have fields: "cfg_ctrl_url sample_config = lit ''https://core:8443''" "cfg_node_id sample_config = lit ''node-7''"
    "cfg_token sample_config \<noteq> []"
    by (simp_all add: sample_config_def)
  have tls: "transport_connect demo_tls (client_transport space (\<lambda>_. True)) h p demo_ram = (Ok (), demo_ram)"
    for space h p
    using demo_facts(5) [of demo_ram]
    by (auto simp: transport_connect_def client_transport_def demo_tls_def)
  have svc: "svc_load_metadata init_ota = (\<lambda>_ w. (Err (), w))"
    by (simp add: init_ota_def demo_ota_def)
  show ?thesis
    using gen
    by (auto simp: heartbeat_step_def hb_start_def quiet_period_def reconnect_step_def session_step_def
        session_pass_def send_heartbeat_def heartbeat_body_def demo_crates_def emit_def Let_def rd fields spaces
        sample_url wait_period_def active_deployment_id_def active_digest_def wire_ip_services_eq
        run_heartbeat_def tls svc split: prod.splits)
qed

theorem heartbeat_fail_closed_witness:
  "\<exists>sp d'. claim_spaces init_base (powered demo_ram) = (Returns sp, d') \<and>
     (\<exists>w :: ram. cells w Tls \<noteq> None \<and> cells w Tls = cells demo_ram Tls)"
proof -
  obtain sp d' where claims: "claim_spaces init_base (powered demo_ram) = (Returns sp, d')"
    and sp: "spaces_ok init_reading sp"
    by (rule demo_claims)
  let ?H = "ips_heartbeat (wire_ip_services demo_crates sp demo_workload No_Supervisor)"
  obtain l hd' where beat: "heartbeat_step ?H quiet_period (hb_start demo_ram) = (l, hd')"
    and post: "Post_Json (lit ''core'') HEARTBEAT_PATH (cfg_token sample_config) (lit ''node-7'') \<in> set (hd_wire hd')"
    using wired_beat [OF sp] by blast
  have "run_steps (heartbeat_step ?H) [quiet_period] (hb_start demo_ram) = (l, hd')"
    using beat by simp
  from heartbeat_fail_closed [OF init_base_law claims demo_crates_law refl this post]
  obtain ps1 p ps2 w where split: "[quiet_period] = ps1 @ p # ps2"
    and same: "\<forall>m. rd_stored init_reading m w = rd_stored init_reading m
      (pd_others p (hd_world (snd (run_steps (heartbeat_step ?H) ps1 (hb_start demo_ram)))))"
    and "rd_stored init_reading Tls w \<noteq> None"
    by (elim exE conjE) (rule that)
  then have "cells w Tls \<noteq> None" by simp
  moreover have "ps1 = []" "p = quiet_period" using split by (cases ps1; simp)+
  ultimately have "cells w Tls = cells demo_ram Tls" "cells w Tls \<noteq> None"
    using same by (simp_all add: quiet_period_def hb_start_def)
  then show ?thesis using claims by blast
qed

theorem rotated_token_reaches_services_witness:
  "\<exists>sp d' s'. claim_spaces init_base (powered demo_ram) = (Returns sp, d') \<and>
     serve_full demo_mounts (ips_http (wire_ip_services demo_crates sp demo_workload No_Supervisor))
       \<lparr>full_bearer = Some (lit ''0123456789abcdef''), full_target = Own (Post_Token (lit ''fedcba9876543210''))\<rparr>
       demo_server = (json_ok (lit ''{\"status\":\"rotated\"}''), s') \<and>
     \<not> fst (ob_authorize (hs_ota_backend (ips_http (wire_ip_services demo_crates sp demo_workload No_Supervisor)))
       (lit ''0123456789abcdef'') (srv_world s'))"
proof -
  let ?new = "lit ''fedcba9876543210''" and ?old = "lit ''0123456789abcdef''"
  obtain sp d' where claims: "claim_spaces init_base (powered demo_ram) = (Returns sp, d')"
    and sp: "spaces_ok init_reading sp"
    by (rule demo_claims)
  let ?sv = "wire_ip_services demo_crates sp demo_workload No_Supervisor"
  have ag: "agent_config_space sp = ram_space Agent" using sp by (simp add: spaces_ok_def)
  have u8: "utf8 ?new" by (auto simp: lit_def intro!: ascii_utf8)
  have auth: "is_authorized (=) (ram_space Agent) ?old sample_ram = (True, sample_ram)"
    by (simp add: is_authorized_def token_def ram_load_config) (simp add: sample_config_def lit_def)
  obtain w' where rot: "rotate_token (ram_space Agent) ?new sample_ram = (Ok (), w')"
    using ram_rotate [of sample_ram sample_config, OF _ _ u8]
    by (cases "rotate_token (ram_space Agent) ?new sample_ram") simp
  let ?s' = "demo_server\<lparr>srv_world := w'\<rparr>"
  have run: "serve_full demo_mounts (ips_http ?sv)
      \<lparr>full_bearer = Some ?old, full_target = Own (Post_Token ?new)\<rparr> demo_server =
      (json_ok (lit ''{\"status\":\"rotated\"}''), ?s')"
    using auth rot u8 ag
    by (simp add: serve_full_def serve_request_def post_token_def token_handler_def guarded_def demo_server_def
        unwrap_or_default_def wire_ip_services_eq run_http_api_def Let_def demo_crates_def)
  obtain l hd' where beat: "heartbeat_step (ips_heartbeat ?sv) quiet_period (hb_start w') = (l, hd')" by force
  have hb: "hb_start w' = run_steps (heartbeat_step (ips_heartbeat ?sv)) [] (hb_start w')" by simp
  have "\<exists>t. token_of_json demo_crates ?new = Some t \<and>
      (\<forall>x. fst (ob_authorize (hs_ota_backend (ips_http ?sv)) x w') \<longrightarrow> x = t)"
    using rotated_token_reaches_services [OF init_base_law claims demo_crates_law refl run _ hb beat, of w']
    by (auto simp: json_ok_def quiet_period_def hb_start_def)
  moreover have "token_of_json demo_crates ?new = Some ?new" using u8 by (simp add: demo_crates_def)
  moreover have "?old \<noteq> ?new" by (simp add: lit_def)
  ultimately show ?thesis using claims run by auto
qed

end
