(* ===== verification/Config_Life.thy ===== *)
theory Config_Life
  imports Services
begin

text \<open>
  The life of a pushed configuration across a reboot: \<open>http/api.rs\<close> stores it,
  \<open>RuntimeConfig::new\<close> in \<open>main\<close> (\<open>src/bin/main.rs\<close>) takes the active snapshot once at the boot,
  and \<open>GET /config\<close> shows both. The two boots are \<open>claim_spaces\<close> on the storage each of them finds.
\<close>

section \<open>The snapshot of a boot\<close>

lemma wp_claim_space:
  assumes law: "platform_law M P"
    and cont: "\<And>d'. (\<And>m. rd_stored M m (world d') = rd_stored M m (world d)) \<Longrightarrow> Q (rd_space M n) d'"
  shows "wp (claim_space P n b) Q (\<lambda>_ _. True) d"
proof -
  have kept: "kept M {} (world d) (snd (claim P n b (world d)))"
    by (rule kept_op [OF platform_lawD(4) [OF law]])
  show ?thesis
  proof (cases "fst (claim P n b (world d))")
    case (Ok s)
    with platform_lawD(5) [OF law Ok] kept show ?thesis
      by (auto simp: claim_space_def wp_rules kept_def intro!: cont)
  qed (simp add: claim_space_def wp_rules)
qed

lemma claim_spaces_active:
  assumes law: "platform_law M P"
  shows "wp (claim_spaces P) (\<lambda>sp d'. runtime_view_of (rd_stored M Runtime (world d)) =
     Some (active_generation (runtime_cfg sp), active (runtime_cfg sp))) (\<lambda>_ _. True) d"
proof -
  have read: "wp (act_expect (act_read (runtime_config_new (rd_space M Runtime))))
      (\<lambda>rc d''. runtime_view_of (rd_stored M Runtime (world d')) = Some (active_generation rc, active rc))
      (\<lambda>_ _. True) d'" for d'
  proof (cases "runtime_config_new (rd_space M Runtime) (world d')")
    case (Pair r w)
    show ?thesis
    proof (cases r)
      case (Ok rc)
      from runtime_config_new_Ok [OF platform_lawD(1) [OF law] Pair [unfolded Ok]] Pair Ok
      show ?thesis by (simp add: wp_rules)
    qed (simp add: Pair wp_rules)
  qed
  have seen: "wp (act_expect (act_read (runtime_config_new (rd_space M Runtime)))) Q (\<lambda>_ _. True) d'"
    if "\<And>rc d''. runtime_view_of (rd_stored M Runtime (world d')) = Some (active_generation rc, active rc)
      \<Longrightarrow> Q rc d''" for Q d'
    by (rule wp_mono [OF read]) (use that in auto)
  show ?thesis
    unfolding claim_spaces_def wp_bind
    by (rule wp_claim_space [OF law])+
       (rule seen, (rule wp_claim_space [OF law])+, simp only: wp_return spaces.simps)
qed

lemma boot_snapshot:
  assumes "platform_law M P" and "claim_spaces P d = (Returns sp, d')"
  shows "spaces_ok M sp"
    and "runtime_view_of (rd_stored M Runtime (world d)) =
      Some (active_generation (runtime_cfg sp), active (runtime_cfg sp))"
  using phase_run [OF claim_spaces_early [OF assms(1)], of d] claim_spaces_active [OF assms(1), of d] assms(2)
  by (simp_all add: wp_def)
section \<open>Requests that push nothing\<close>

definition pushes_config :: "request \<Rightarrow> bool" where
  "pushes_config req \<longleftrightarrow> (\<exists>b. target req = Post_Config b)"

lemma pushes_config_space: "route_space (target req) = Some Runtime \<longleftrightarrow> pushes_config req"
  by (auto simp: pushes_config_def route_space_def split: route.splits)

lemma runtime_space_kept:
  assumes "api_law cs stored ap" and "list_all (\<lambda>req. \<not> pushes_config req) reqs"
  shows "stored Runtime (srv_world (run_steps (serve_step ap) reqs s)) = stored Runtime (srv_world s)"
  using assms(2)
proof (induction reqs arbitrary: s)
  case (Cons req reqs)
  then have "route_space (target req) \<noteq> Some Runtime" by (simp add: pushes_config_space)
  then show ?case
    using Cons serve_confined [OF assms(1), of req s] by (auto simp: serve_step_def confined_def)
qed simp

lemma get_config_OK:
  assumes law: "api_law cs stored ap"
    and run: "serve_request ap \<lparr>bearer = tok, target = Get_Config\<rparr> s = (r, s')"
    and ok: "status r = OK" and now: "runtime_view_of (stored Runtime (srv_world s)) = Some (g, m)"
  shows "r = json_ok (unwrap_or_default (ap_view_json ap
    \<lparr>view_generation = g, view_active_generation = active_generation (ap_runtime ap),
     view_active = active (ap_runtime ap), view_nvs = m\<rparr>))"
proof -
  have cs: "config_space_law cs stored" "rc_space (ap_runtime ap) = cs Runtime"
    using law by (simp_all add: api_law_def)
  have g: "guarded ap tok (view_handler ap) s = (r, s')"
    using run by (simp add: serve_request_def get_config_def)
  from ok have "status r \<noteq> UNAUTHORIZED" by simp
  then obtain w where w: "\<forall>m. stored m w = stored m (srv_world s)"
    and h: "view_handler ap (s\<lparr>srv_world := w\<rparr>) = (r, s')"
    by (rule guarded_passes [OF law g])
  show ?thesis
  proof (cases "runtime_current (ap_runtime ap) w")
    case (Pair q w')
    show ?thesis
    proof (cases q)
      case (Ok p)
      from runtime_current_Ok [OF cs Pair [unfolded Ok]] w now have "p = (g, m)" by simp
      with h Pair Ok show ?thesis by (simp add: view_handler_def runtime_view_def)
    next
      case (Err e)
      with h Pair ok show ?thesis by (auto simp: view_handler_def runtime_view_def json_error_def)
    qed
  qed
qed

section \<open>Property\<close>

text \<open>
  C16: a pushed configuration takes effect at the next boot, and only then. After a \<open>200\<close> of
  \<open>POST /config\<close> the stored map is the old one with the push merged in, at the generation the
  answer names. Whatever else is asked of the API before the reboot, every \<open>GET /config\<close> it
  answers shows the new map as stored and, as active, still the map the running boot found. The
  next boot that claims the spaces on that storage runs with the new map, at that generation.
\<close>

theorem pushed_config_takes_effect_at_boot:
  assumes "platform_law M P" and "claim_spaces P d = (Returns sp, d')"
    and law: "crates_law M slot_hash ca_ok K"
    and hs: "hs = ips_http (wire_ip_services K sp workload control)"
    and run: "serve_full R hs \<lparr>full_bearer = tok, full_target = Own (Post_Config b)\<rparr> s = (r, s1)"
    and ok: "status r = OK"
    and others: "list_all (\<lambda>req. \<not> pushes_config req) reqs"
    and s2: "s2 = run_steps (serve_step (hs_api hs)) reqs s1"
    and reboot: "platform_law M P'" "rd_stored M Runtime (world e) = rd_stored M Runtime (srv_world s2)"
      "claim_spaces P' e = (Returns sp', e')"
  shows "\<exists>push g0 old g new. push_of_json K b = Some push \<and> r = saved_answer g \<and>
    runtime_view_of (rd_stored M Runtime (srv_world s)) = Some (g0, old) \<and>
    (\<forall>k. bt_get new k = merge_spec (bt_get old) (bt_get (push_data push)) k) \<and>
    runtime_view_of (rd_stored M Runtime (world d)) =
      Some (active_generation (runtime_cfg sp), active (runtime_cfg sp)) \<and>
    (\<forall>tok' r' s3. serve_full R hs \<lparr>full_bearer = tok', full_target = Own Get_Config\<rparr> s2 = (r', s3) \<longrightarrow>
       status r' = OK \<longrightarrow> r' = json_ok (unwrap_or_default (view_json K
         \<lparr>view_generation = g, view_active_generation = active_generation (runtime_cfg sp),
          view_active = active (runtime_cfg sp), view_nvs = new\<rparr>))) \<and>
    active_generation (runtime_cfg sp') = g \<and> active (runtime_cfg sp') = new"
proof -
  note boot = boot_snapshot [OF assms(1,2)] and next_boot = boot_snapshot [OF reboot(1,3)]
  have api: "api_law (rd_space M) (rd_stored M) (hs_api hs)"
    unfolding hs by (rule wired_api_law [OF law boot(1)])
  have fields: "ap_runtime (hs_api hs) = runtime_cfg sp" "ap_push_of_json (hs_api hs) = push_of_json K"
    "ap_view_json (hs_api hs) = view_json K"
    by (simp_all add: hs wire_ip_services_eq run_http_api_def Let_def)
  have "serve_request (hs_api hs) \<lparr>bearer = tok, target = Post_Config b\<rparr> s = (r, s1)"
    using run by (simp add: serve_full_def)
  from post_config_OK [OF api this ok] obtain push g0 old g new where
    push: "push_of_json K b = Some push" "r = saved_answer g"
    and merge: "runtime_view_of (rd_stored M Runtime (srv_world s)) = Some (g0, old)"
      "runtime_view_of (rd_stored M Runtime (srv_world s1)) = Some (g, new)"
      "\<forall>k. bt_get new k = merge_spec (bt_get old) (bt_get (push_data push)) k"
    unfolding fields by blast
  have now: "runtime_view_of (rd_stored M Runtime (srv_world s2)) = Some (g, new)"
    using merge(2) runtime_space_kept [OF api others, of s1] by (simp add: s2)
  have get: "r' = json_ok (unwrap_or_default (view_json K
      \<lparr>view_generation = g, view_active_generation = active_generation (runtime_cfg sp),
       view_active = active (runtime_cfg sp), view_nvs = new\<rparr>))"
    if "serve_full R hs \<lparr>full_bearer = tok', full_target = Own Get_Config\<rparr> s2 = (r', s3)" "status r' = OK"
    for tok' r' s3
    using get_config_OK [OF api _ that(2) now] that(1) by (simp add: serve_full_def fields)
  have "active_generation (runtime_cfg sp') = g \<and> active (runtime_cfg sp') = new"
    using next_boot(2) now reboot(2) by simp
  with push merge(1,3) boot(2) get show ?thesis by blast
qed
subsection \<open>Two boots of the device in memory\<close>

lemma ram_claims:
  assumes f: "faults w = []" and v: "runtime_view_of (cells w Runtime) = Some (g, m)"
  obtains sp d' where "claim_spaces init_base (powered w) = (Returns sp, d')"
    "spaces_ok init_reading sp"
    "runtime_cfg sp = \<lparr>rc_space = ram_space Runtime, active_generation = g, active = m\<rparr>"
proof -
  have new: "runtime_config_new (ram_space Runtime) w =
      (Ok \<lparr>rc_space = ram_space Runtime, active_generation = g, active = m\<rparr>, w)"
    using v by (auto simp: runtime_config_new_def runtime_view_of_def ram_load f split: option.splits)
  have "wp (claim_spaces init_base)
      (\<lambda>sp _. runtime_cfg sp = \<lparr>rc_space = ram_space Runtime, active_generation = g, active = m\<rparr>)
      (\<lambda>_ _. False) (powered w)"
    by (simp add: claim_spaces_def claim_space_def init_base_def demo_platform_def wp_rules new)
  then show thesis
    using that boot_snapshot(1) [OF init_base_law, of "powered w"]
    by (cases "claim_spaces init_base (powered w)") (auto simp: wp_def split: outcome.splits)
qed

theorem pushed_config_takes_effect_at_boot_witness:
  "\<exists>sp s1 sp' e'. serve_full demo_mounts (ips_http (wire_ip_services demo_crates sp demo_workload No_Supervisor))
       \<lparr>full_bearer = Some (lit ''0123456789abcdef''), full_target = Own (Post_Config (lit ''{}''))\<rparr>
       demo_server = (saved_answer 1, s1) \<and> active (runtime_cfg sp) = [] \<and>
     claim_spaces init_base (powered (srv_world s1)) = (Returns sp', e') \<and>
     (\<forall>k. bt_get (active (runtime_cfg sp')) k = merge_spec (\<lambda>_. None) (bt_get sample_map) k)"
proof -
  let ?tok = "Some (lit ''0123456789abcdef'')"
  have empty: "runtime_view_of (cells sample_ram Runtime) = Some (0, [])" and f: "faults sample_ram = []"
    by (simp_all add: sample_ram_def ram_with_def runtime_view_of_def)
  obtain sp d' where boot: "claim_spaces init_base (powered sample_ram) = (Returns sp, d')"
    and sp: "spaces_ok init_reading sp"
    and rc: "runtime_cfg sp = \<lparr>rc_space = ram_space Runtime, active_generation = 0, active = []\<rparr>"
    by (rule ram_claims [OF f empty])
  let ?hs = "ips_http (wire_ip_services demo_crates sp demo_workload No_Supervisor)"
  obtain w' where push: "runtime_apply boot_rc sample_push sample_ram = (Ok 1, w')"
    and new: "runtime_view_of (cells w' Runtime) = Some (1, sample_map)" and f': "faults w' = []"
    by (rule sample_apply_on [OF f]) (simp add: sample_ram_def ram_with_def)
  let ?s1 = "demo_server\<lparr>srv_world := w'\<rparr>"
  have auth: "is_authorized (=) (ram_space Agent) (lit ''0123456789abcdef'') sample_ram = (True, sample_ram)"
    by (simp add: is_authorized_def token_def ram_load_config) (simp add: sample_config_def lit_def)
  have ag: "agent_config_space sp = ram_space Agent" using sp by (simp add: spaces_ok_def)
  have run: "serve_full demo_mounts ?hs
      \<lparr>full_bearer = ?tok, full_target = Own (Post_Config (lit ''{}''))\<rparr> demo_server = (saved_answer 1, ?s1)"
    using auth push ag rc
    by (simp add: serve_full_def serve_request_def post_config_def config_handler_def guarded_def demo_server_def
        unwrap_or_default_def wire_ip_services_eq run_http_api_def Let_def demo_crates_def boot_rc_def
        saved_answer_def)
  obtain sp' e' where reboot: "claim_spaces init_base (powered w') = (Returns sp', e')"
    by (rule ram_claims [OF f' new])
  have same: "rd_stored init_reading Runtime (world (powered w')) = rd_stored init_reading Runtime (srv_world ?s1)"
    by simp
  have "status (saved_answer 1) = OK" by (simp add: saved_answer_def json_ok_def)
  from pushed_config_takes_effect_at_boot [where reqs = "[]", OF init_base_law boot demo_crates_law refl run this _ _
      init_base_law same reboot]
  obtain push g0 old g new where json: "push_of_json demo_crates (lit ''{}'') = Some push"
    and old: "runtime_view_of (cells (srv_world demo_server) Runtime) = Some (g0, old)"
    and merge: "\<forall>k. bt_get new k = merge_spec (bt_get old) (bt_get (push_data push)) k"
    and act: "active (runtime_cfg sp') = new"
    by auto
  have "push_data push = sample_map" using json by (auto simp: demo_crates_def lit_def sample_push_def split: if_splits)
  moreover have "old = []" using old empty by (simp add: demo_server_def)
  ultimately have "\<forall>k. bt_get (active (runtime_cfg sp')) k = merge_spec (\<lambda>_. None) (bt_get sample_map) k"
    using merge act by (simp add: bt_get_empty)
  then show ?thesis using run reboot rc
    by (intro exI [of _ sp] exI [of _ ?s1] exI [of _ sp'] exI [of _ e']) simp
qed

end
