(* ===== verification/Boot_Wiring.thy ===== *)
theory Boot_Wiring
  imports Tasks
begin

text \<open>
  The parameters of the two boots that are code of the repository: \<open>src/bin/main.rs\<close> and
  \<open>src/bin/init.rs\<close> call the TLS service through \<open>src/esp_tls.rs\<close>, which builds it from the crates'
  constructors, and read the device's identity from the same static handles as the tasks. The laws
  the boots rely on hold of the platform so built, whatever the platform's own TLS fields are.
\<close>

section \<open>The platforms built\<close>

definition agent_platform ::
  "('w, 't, 'r, 'p, 'n, 'c, 'e, 's) esp_crates \<Rightarrow> 'w platform \<Rightarrow> 'w platform" where
  "agent_platform K P = P\<lparr>
     server_identity_valid := esp_tls_server_identity_valid (tls_crates_of K),
     tls_init := esp_tls_init (tls_crates_of K) (time_now K)\<rparr>"

definition init_image_platform ::
  "('w, 't, 'r, 'p, 'n, 'c, 'e, 's) esp_crates \<Rightarrow> 'w init_platform \<Rightarrow> 'w init_platform" where
  "init_image_platform K I = I\<lparr>
     ip_base := agent_platform K (ip_base I),
     ip_ensure_identity := esp_tls_ensure_server_identity (tls_crates_of K),
     ip_hardware_id := ESP_DEVICE_IDENTITY K,
     ip_chip_name := fst (ESP_DEVICE_METADATA K)\<rparr>"

lemma agent_platform_parts [simp]:
  "ota (agent_platform K P) = ota P" "wifi_construct (agent_platform K P) = wifi_construct P"
  "spawn_token (agent_platform K P) = spawn_token P"
  "server_identity_valid (agent_platform K P) = esp_tls_server_identity_valid (tls_crates_of K)"
  "tls_init (agent_platform K P) = esp_tls_init (tls_crates_of K) (time_now K)"
  by (simp_all add: agent_platform_def)

section \<open>Their laws\<close>

lemma agent_platform_law:
  assumes "platform_law M P" and "tls_law M ca_ok (tls_crates_of K)"
  shows "platform_law M (agent_platform K P)"
  using assms(1) tls_lawD(4,5) [OF assms(2)]
  unfolding platform_law_def by (simp add: agent_platform_def)

lemma init_image_platform_law:
  assumes "init_law M I" and "tls_law M ca_ok (tls_crates_of K)"
  shows "init_law M (init_image_platform K I)"
  using agent_platform_law [OF init_lawD(1) [OF assms(1)] assms(2)] init_lawD(2-3,7-10) [OF assms(1)]
    tls_lawD(1-3) [OF assms(2)]
  unfolding init_law_def by (simp add: init_image_platform_def)

end
