(* ===== verification/Power_Cut.thy ===== *)
theory Power_Cut
  imports Boot_Init Http_Config
begin

text \<open>
  The power may fail at any moment. The supply allows a number of operations on the device; the
  one that would come after them, and every later one, changes nothing and reports a failure where
  it can. So a boot or a request under a supply of \<open>n\<close> ends with the device as the cut after its
  first \<open>n\<close> operations leaves it. An operation is a load or a commit of the agent's own spaces, or
  one call of a crate.

  The laws of the platform hold of it under any supply: whatever is proved from them of a boot or
  of the form holds of one that is cut off.
\<close>

section \<open>Operations under a supply\<close>

type_synonym 'w mains = "'w \<times> nat"

definition cut_op :: "('w \<Rightarrow> 'a) \<Rightarrow> ('w \<Rightarrow> 'a \<times> 'w) \<Rightarrow> 'w mains \<Rightarrow> 'a \<times> 'w mains" where
  "cut_op off f s =
     (case snd s of
        0 \<Rightarrow> (off (fst s), s)
      | Suc n \<Rightarrow> (case f (fst s) of (a, w') \<Rightarrow> (a, (w', n))))"

text \<open>Without power, what can fail fails, and what cannot has no effect.\<close>

definition cut_try :: "('w \<Rightarrow> ('a, unit) result \<times> 'w) \<Rightarrow> 'w mains \<Rightarrow> ('a, unit) result \<times> 'w mains" where
  "cut_try f = cut_op (\<lambda>_. Err ()) f"

definition cut_read :: "('w \<Rightarrow> 'a \<times> 'w) \<Rightarrow> 'w mains \<Rightarrow> 'a \<times> 'w mains" where
  "cut_read f = cut_op (\<lambda>w. fst (f w)) f"

lemma cut_op_cases:
  obtains (dead) "cut_op off f s = (off (fst s), s)"
  | (alive) "cut_op off f s = (fst (f (fst s)), (snd (f (fst s)), snd s - 1))"
  by (cases "snd s") (auto simp: cut_op_def split: prod.split)

lemma cut_try_Ok:
  assumes "fst (cut_try f s) = Ok a"
  shows "fst (f (fst s)) = Ok a" "fst (snd (cut_try f s)) = snd (f (fst s))"
  using assms by (cases "snd s"; simp add: cut_try_def cut_op_def split: prod.splits)+

lemma cut_read_result [simp]: "fst (cut_read f s) = fst (f (fst s))"
  by (cases "snd s") (simp_all add: cut_read_def cut_op_def split: prod.split)

lemma cut_after [simp]: "fst (snd (cut_op off f (w, 0))) = w"
  by (simp add: cut_op_def)

text \<open>A predicate of the device that an operation keeps is kept by it under any supply.\<close>

lemma maintains_cut: "maintains J f \<Longrightarrow> maintains (\<lambda>s. J (fst s)) (cut_op off f)"
  unfolding maintains_def by (metis cut_op_cases fst_conv snd_conv)

lemma maintains_cuts:
  "maintains J f \<Longrightarrow> maintains (\<lambda>s. J (fst s)) (cut_read f)"
  "maintains J g \<Longrightarrow> maintains (\<lambda>s. J (fst s)) (cut_try g)"
  by (simp_all add: cut_read_def cut_try_def maintains_cut)

section \<open>The platform under a supply\<close>

definition cut_space :: "'w config_space \<Rightarrow> 'w mains config_space" where
  "cut_space sp = \<lparr>load = cut_try (load sp), commit = (\<lambda>bs. cut_try (commit sp bs))\<rparr>"

text \<open>The space behind one under a supply: what the crates are handed.\<close>

definition with_power :: "('w mains \<Rightarrow> 'a \<times> 'w mains) \<Rightarrow> 'w \<Rightarrow> 'a \<times> 'w" where
  "with_power f w = (case f (w, 1) of (a, s) \<Rightarrow> (a, fst s))"

definition uncut_space :: "'w mains config_space \<Rightarrow> 'w config_space" where
  "uncut_space sp = \<lparr>load = with_power (load sp), commit = (\<lambda>bs. with_power (commit sp bs))\<rparr>"

lemma with_power_cut: "with_power (cut_try f) = f"
  by (simp add: with_power_def cut_try_def cut_op_def fun_eq_iff split: prod.split)

lemma uncut_cut [simp]: "uncut_space (cut_space sp) = sp"
  by (simp add: uncut_space_def cut_space_def with_power_cut)

definition cut_service :: "'w ota_service \<Rightarrow> 'w mains ota_service" where
  "cut_service svc = \<lparr>
     svc_bootstrap_state = (\<lambda>sp. cut_try (svc_bootstrap_state svc (uncut_space sp))),
     svc_begin_provisioning = (\<lambda>sp. cut_try (svc_begin_provisioning svc (uncut_space sp))),
     svc_ready_for_agent = (\<lambda>sp. cut_try (svc_ready_for_agent svc (uncut_space sp))),
     svc_production = (\<lambda>sp. cut_try (svc_production svc (uncut_space sp))),
     svc_load_metadata = (\<lambda>sp. cut_try (svc_load_metadata svc (uncut_space sp))),
     svc_clear_staged = (\<lambda>sp. cut_try (svc_clear_staged svc (uncut_space sp))),
     svc_staged_default = svc_staged_default svc,
     svc_pending_check = (\<lambda>deadline. cut_read (svc_pending_check svc deadline)),
     svc_confirm_pending = (\<lambda>sp. cut_read (svc_confirm_pending svc (uncut_space sp))),
     svc_reject_pending = cut_read (svc_reject_pending svc),
     svc_on_boot = (\<lambda>sp. cut_read (svc_on_boot svc (uncut_space sp)))\<rparr>"

definition cut_workload :: "'w workload_service \<Rightarrow> 'w mains workload_service" where
  "cut_workload wl = \<lparr>wl_active = cut_read (wl_active wl), wl_satisfies = wl_satisfies wl,
     wl_storage_ok = wl_storage_ok wl, wl_recover = cut_read (wl_recover wl)\<rparr>"

definition on_claim :: "('w config_space, unit) result \<times> 'w \<Rightarrow> ('w mains config_space, unit) result \<times> 'w" where
  "on_claim x = (case x of (Ok sp, w) \<Rightarrow> (Ok (cut_space sp), w) | (Err e, w) \<Rightarrow> (Err e, w))"

definition cut_platform :: "'w platform \<Rightarrow> 'w mains platform" where
  "cut_platform P = \<lparr>
     nvs_new = cut_try (nvs_new P),
     claim = (\<lambda>n b. cut_try (\<lambda>w. on_claim (claim P n b w))),
     foreign_budget = foreign_budget P,
     spawn_token = (\<lambda>t. cut_try (spawn_token P t)),
     workload_probe = cut_read (\<lambda>w. (cut_workload (fst (workload_probe P w)), snd (workload_probe P w))),
     region_dbus = region_dbus P, reclaimed_base = reclaimed_base P,
     wifi_is_provisioned = (\<lambda>sp. cut_read (wifi_is_provisioned P (uncut_space sp))),
     server_identity_valid = (\<lambda>sp. cut_read (server_identity_valid P (uncut_space sp))),
     ota = cut_service (ota P), selfcheck_deadline = selfcheck_deadline P,
     tls_init = cut_read (tls_init P),
     wifi_construct = (\<lambda>sp. cut_read (wifi_construct P (uncut_space sp))),
     wifi_maintain = (\<lambda>sp. cut_read (wifi_maintain P (uncut_space sp)))\<rparr>"

definition cut_wifi :: "'w wifi_provisioning \<Rightarrow> 'w mains wifi_provisioning" where
  "cut_wifi W = \<lparr>
     wifi_is_online = (\<lambda>s. wifi_is_online W (fst s)), wifi_address = (\<lambda>s. wifi_address W (fst s)),
     wifi_scan = cut_op (\<lambda>_. []) (wifi_scan W),
     wifi_provision = (\<lambda>ssid password. cut_op (\<lambda>_. False) (wifi_provision W ssid password)),
     wifi_network_handle = (\<lambda>s. wifi_network_handle W (fst s))\<rparr>"

definition cut_init :: "'w init_platform \<Rightarrow> 'w mains init_platform" where
  "cut_init I = \<lparr>
     ip_base = cut_platform (ip_base I),
     ip_ensure_identity = (\<lambda>sp name. cut_try (ip_ensure_identity I (uncut_space sp) name)),
     ip_reconnect_saved = cut_read (ip_reconnect_saved I),
     ip_wifi = cut_wifi (ip_wifi I), ip_feed = ip_feed I, ip_serial = ip_serial I,
     ip_hardware_id = ip_hardware_id I, ip_chip_name = ip_chip_name I, ip_version = ip_version I,
     ip_env = ip_env I\<rparr>"

definition cut_factory :: "'w factory_ota \<Rightarrow> 'w mains factory_ota" where
  "cut_factory fo = \<lparr>
     fo_parse_digest = fo_parse_digest fo,
     fo_hash_preloaded = (\<lambda>n. cut_try (fo_hash_preloaded fo n)),
     fo_publish = (\<lambda>d n h slot. cut_try (fo_publish fo d n h slot)),
     fo_activate_staged = (\<lambda>d. cut_read (fo_activate_staged fo d))\<rparr>"

definition cut_form :: "'w form_server \<Rightarrow> 'w mains form_server" where
  "cut_form F = \<lparr>
     fs_agent = cut_space (fs_agent F), fs_hardware = cut_space (fs_hardware F),
     fs_lifecycle = cut_space (fs_lifecycle F), fs_ota = cut_service (fs_ota F),
     fs_factory = cut_factory (fs_factory F), fs_factory_agent = fs_factory_agent F,
     fs_hardware_id = fs_hardware_id F, fs_entropy = cut_read (fs_entropy F), fs_pins = fs_pins F,
     fs_templates = fs_templates F\<rparr>"

definition cut_reading :: "'w reading \<Rightarrow> 'w mains reading" where
  "cut_reading M = \<lparr>
     rd_space = (\<lambda>n. cut_space (rd_space M n)), rd_stored = (\<lambda>n s. rd_stored M n (fst s)),
     rd_active = (\<lambda>s. rd_active M (fst s)), rd_wifi_ok = rd_wifi_ok M, rd_tls_ok = rd_tls_ok M,
     rd_life = rd_life M, rd_satisfies = rd_satisfies M\<rparr>"

lemma cut_reading_simps [simp]:
  "rd_space (cut_reading M) n = cut_space (rd_space M n)" "rd_stored (cut_reading M) n s = rd_stored M n (fst s)"
  "rd_active (cut_reading M) s = rd_active M (fst s)" "rd_wifi_ok (cut_reading M) = rd_wifi_ok M"
  "rd_tls_ok (cut_reading M) = rd_tls_ok M" "rd_life (cut_reading M) = rd_life M"
  "rd_satisfies (cut_reading M) = rd_satisfies M"
  by (simp_all add: cut_reading_def)

section \<open>The laws hold under any supply\<close>

lemma kept_cut [simp]: "kept (cut_reading M) F s s' \<longleftrightarrow> kept M F (fst s) (fst s')"
  by (simp add: kept_def)

lemma op_keeps_cut: "op_keeps M F f \<Longrightarrow> op_keeps (cut_reading M) F (cut_op off f)"
  unfolding op_keeps_def kept_cut by (metis cut_op_cases fst_conv snd_conv kept_refl)

lemma op_keeps_cuts:
  "op_keeps M F f \<Longrightarrow> op_keeps (cut_reading M) F (cut_read f)"
  "op_keeps M F g \<Longrightarrow> op_keeps (cut_reading M) F (cut_try g)"
  by (simp_all add: cut_read_def cut_try_def op_keeps_cut)

lemma writes_only_cut:
  "writes_only (rd_stored M) F f \<Longrightarrow> writes_only (rd_stored (cut_reading M)) F (cut_op off f)"
  unfolding writes_only_def cut_reading_simps by (metis cut_op_cases fst_conv snd_conv)

lemma writes_only_cuts:
  "writes_only (rd_stored M) F f \<Longrightarrow> writes_only (rd_stored (cut_reading M)) F (cut_read f)"
  "writes_only (rd_stored M) F g \<Longrightarrow> writes_only (rd_stored (cut_reading M)) F (cut_try g)"
  by (simp_all add: cut_read_def cut_try_def writes_only_cut)

lemma cut_space_law:
  assumes law: "config_space_law (rd_space M) (rd_stored M)"
  shows "config_space_law (rd_space (cut_reading M)) (rd_stored (cut_reading M))"
proof -
  have load: "(\<forall>m. rd_stored M m (fst s') = rd_stored M m (fst s)) \<and> (\<forall>x. r = Ok x \<longrightarrow> x = rd_stored M n (fst s))"
    if "cut_try (load (rd_space M n)) s = (r, s')" for n s r s'
    using that law_load_stored [OF law, of n "fst s"] law_load_Ok [OF law, of n "fst s"]
    by (cases "snd s") (auto simp: cut_try_def cut_op_def split: prod.splits)
  have commit: "(\<forall>m. m \<noteq> n \<longrightarrow> rd_stored M m (fst s') = rd_stored M m (fst s)) \<and>
      (\<forall>g. r = Ok g \<longrightarrow> rd_stored M n (fst s') = Some \<lparr>data = bs, generation = g\<rparr>) \<and>
      (\<forall>e. r = Err e \<longrightarrow> rd_stored M n (fst s') = rd_stored M n (fst s) \<or>
        (\<exists>g. rd_stored M n (fst s') = Some \<lparr>data = bs, generation = g\<rparr>))"
    if "cut_try (commit (rd_space M n) bs) s = (r, s')" for n bs s r s'
  proof (cases "snd s")
    case 0
    with that show ?thesis by (auto simp: cut_try_def cut_op_def)
  next
    case (Suc k)
    then have run: "commit (rd_space M n) bs (fst s) = (r, fst s')"
      using that by (auto simp: cut_try_def cut_op_def split: prod.splits)
    show ?thesis
      using law_commit_other [OF law run] law_commit_Ok [OF law] law_commit_Err [OF law] run by blast
  qed
  show ?thesis
    unfolding config_space_law_def load_law_def commit_law_def
    using load commit by (simp add: cut_space_def)
qed
lemma cut_ota_law:
  assumes "ota_law M svc deadline"
  shows "ota_law (cut_reading M) (cut_service svc) deadline"
proof -
  note O = ota_lawD [OF assms]
  have read: "rd_life M (rd_stored M Lifecycle (fst s)) = Some st"
    if "fst (cut_try (svc_bootstrap_state svc (rd_space M Lifecycle)) s) = Ok st" for s st
    using O(6) cut_try_Ok(1) [OF that] by simp
  have wrote: "rd_life M (rd_stored M Lifecycle
      (fst (snd (cut_try (svc_production svc (rd_space M Lifecycle)) s)))) = Some Production"
    if "fst (cut_try (svc_production svc (rd_space M Lifecycle)) s) = Ok ()" for s
    using O(7) cut_try_Ok [OF that] by simp
  show ?thesis
    unfolding ota_law_def
    using O(1-5) read wrote by (simp add: cut_service_def op_keeps_cuts)
qed

lemma cut_workload_law: "workload_law M wl \<Longrightarrow> workload_law (cut_reading M) (cut_workload wl)"
  by (simp add: workload_law_def cut_workload_def op_keeps_cuts)

lemma cut_claim:
  assumes "platform_law M P"
  shows "op_keeps (cut_reading M) {} (claim (cut_platform P) n b)"
    and "fst (claim (cut_platform P) n b s) = Ok sp \<Longrightarrow> sp = cut_space (rd_space M n)"
proof -
  have claims: "snd (on_claim (claim P n b w)) = snd (claim P n b w)"
    "fst (on_claim (claim P n b w)) = Ok sp \<Longrightarrow> sp = cut_space (rd_space M n)" for w sp
    using platform_lawD(5) [OF assms, of n b w]
    by (auto simp: on_claim_def split: prod.splits result.splits)
  have "op_keeps M {} (\<lambda>w. on_claim (claim P n b w))"
    using platform_lawD(4) [OF assms, of n b] by (simp add: op_keeps_def claims(1))
  then show "op_keeps (cut_reading M) {} (claim (cut_platform P) n b)"
    by (simp add: cut_platform_def op_keeps_cuts)
  show "fst (claim (cut_platform P) n b s) = Ok sp \<Longrightarrow> sp = cut_space (rd_space M n)"
    using cut_try_Ok(1) [of "\<lambda>w. on_claim (claim P n b w)" s sp] claims(2)
    by (simp add: cut_platform_def)
qed

lemma cut_platform_law:
  assumes "platform_law M P"
  shows "platform_law (cut_reading M) (cut_platform P)"
proof -
  note L = platform_lawD [OF assms]
  have probe: "op_keeps M {} (\<lambda>w. (cut_workload (fst (workload_probe P w)), snd (workload_probe P w)))"
    using L(7) by (simp add: op_keeps_def)
  have loads: "op_keeps (cut_reading M) {} (load (cut_space (rd_space M n)))" for n
    using op_keeps_cuts(2) [OF L(2)] by (simp add: cut_space_def)
  show ?thesis
    unfolding platform_law_def
  proof (intro conjI allI impI)
    show "config_space_law (rd_space (cut_reading M)) (rd_stored (cut_reading M))"
      by (rule cut_space_law [OF L(1)])
    show "sp = rd_space (cut_reading M) n" if "fst (claim (cut_platform P) n b s) = Ok sp" for n b s sp
      using cut_claim(2) [OF assms that] by simp
    show "rd_wifi_ok (cut_reading M) (rd_stored (cut_reading M) Wifi s)"
      if "fst (wifi_is_provisioned (cut_platform P) (rd_space (cut_reading M) Wifi) s)" for s
      using that L(11) by (simp add: cut_platform_def)
    show "rd_tls_ok (cut_reading M) (rd_stored (cut_reading M) Tls s)"
      if "fst (server_identity_valid (cut_platform P) (rd_space (cut_reading M) Tls) s)" for s
      using that L(12) by (simp add: cut_platform_def)
    show "ota_law (cut_reading M) (ota (cut_platform P)) (selfcheck_deadline (cut_platform P))"
      using cut_ota_law [OF L(13)] by (simp add: cut_platform_def)
    show "workload_law (cut_reading M) (fst (workload_probe (cut_platform P) s))" for s
      using cut_workload_law [OF L(8)] by (simp add: cut_platform_def)
  qed (use loads cut_claim(1) [OF assms] L(3,6,9,10) probe in \<open>simp_all add: cut_platform_def op_keeps_cuts\<close>)
qed

lemma cut_init_law:
  assumes "init_law M I"
  shows "init_law (cut_reading M) (cut_init I)"
proof -
  note L = init_lawD [OF assms]
  have begun: "rd_life M (rd_stored M Lifecycle (fst (snd
      (cut_try (svc_begin_provisioning (ota (ip_base I)) (rd_space M Lifecycle)) s)))) = Some Provisioning"
    if "fst (cut_try (svc_begin_provisioning (ota (ip_base I)) (rd_space M Lifecycle)) s) = Ok ()" for s
    using L(3) cut_try_Ok [OF that] by simp
  have ensured: "rd_tls_ok M (rd_stored M Tls (fst (snd (cut_try (ip_ensure_identity I (rd_space M Tls) name) s))))"
    if "fst (cut_try (ip_ensure_identity I (rd_space M Tls) name) s) = Ok ()" for name s
    using L(6) cut_try_Ok [OF that] by simp
  show ?thesis
    unfolding init_law_def
    using cut_platform_law [OF L(1)] begun ensured L(2,4,5,7-10)
    by (simp add: cut_init_def cut_wifi_def cut_platform_def cut_service_def op_keeps_cut op_keeps_cuts)
qed

lemma cut_factory_law:
  assumes "factory_law (rd_stored M) slot_hash fo"
  shows "factory_law (rd_stored (cut_reading M)) (\<lambda>slot n s. slot_hash slot n (fst s)) (cut_factory fo)"
proof -
  have hashed: "h = slot_hash slot n (fst s)" if "fst (cut_try (fo_hash_preloaded fo n) s) = Ok (slot, h)" for n s slot h
    using assms cut_try_Ok(1) [OF that] by (simp add: factory_law_def)
  show ?thesis
    using assms hashed unfolding factory_law_def
    by (simp add: cut_factory_def writes_only_cuts)
qed

lemma cut_form_law:
  assumes "form_law M slot_hash F"
  shows "form_law (cut_reading M) (\<lambda>slot n s. slot_hash slot n (fst s)) (cut_form F)"
proof -
  note L = form_lawD [OF assms]
  have wo: "writes_only (rd_stored M) {} (svc_bootstrap_state (fs_ota F) (fs_lifecycle F))"
    "writes_only (rd_stored M) {Lifecycle} (svc_ready_for_agent (fs_ota F) (fs_lifecycle F))"
    using assms by (simp_all add: form_law_def)
  have fill: "entropy_law (cut_read (fs_entropy F)) (rd_stored (cut_reading M))"
    using writes_only_cuts(1) [of M "{}" "fs_entropy F"] L(4)
    by (simp add: entropy_law_def writes_only_def)
  have read: "rd_life M (rd_stored M Lifecycle (fst s)) = Some st"
    if "fst (cut_try (svc_bootstrap_state (fs_ota F) (fs_lifecycle F)) s) = Ok st" for s st
    using L(8) cut_try_Ok(1) [OF that] by simp
  have ready: "rd_life M (rd_stored M Lifecycle (fst (snd
      (cut_try (svc_ready_for_agent (fs_ota F) (fs_lifecycle F)) s)))) = Some ReadyForAgent"
    if "fst (cut_try (svc_ready_for_agent (fs_ota F) (fs_lifecycle F)) s) = Ok ()" for s
    using L(9) cut_try_Ok [OF that] by simp
  show ?thesis
    unfolding form_law_def
    using cut_space_law [OF L(1)] fill cut_factory_law [OF L(5)] wo read ready L(2,3)
    by (simp add: cut_form_def cut_service_def writes_only_cuts)
qed

end
