(* ===== verification/Boot_Keeps.thy ===== *)
theory Boot_Keeps
  imports Power_Cut
begin

text \<open>
  What a boot of the agent image keeps. A predicate of the device that the boot's own space and
  the platform's calls do not disturb holds at the end of the boot, however it ends, and so,
  under a supply, after any cut of it.
\<close>

section \<open>Predicates of the device\<close>

text \<open>\<open>J\<close> does not depend on the spaces of \<open>F\<close>.\<close>

definition survives :: "'w reading \<Rightarrow> space_name set \<Rightarrow> ('w \<Rightarrow> bool) \<Rightarrow> bool" where
  "survives M F J \<longleftrightarrow> (\<forall>w w'. J w \<longrightarrow> kept M F w w' \<longrightarrow> J w')"

lemma survives_mono: "survives M G J \<Longrightarrow> F \<subseteq> G \<Longrightarrow> survives M F J"
  unfolding survives_def kept_def by blast

lemma maintains_op: "survives M G J \<Longrightarrow> op_keeps M F f \<Longrightarrow> F \<subseteq> G \<Longrightarrow> maintains J f"
  unfolding maintains_def op_keeps_def survives_def kept_def by blast

lemma keeps_spawn [keeps_rules]: "maintains J (spawn t) \<Longrightarrow> keeps J (\<lambda>_. True) (act_spawn spawn t)"
  unfolding act_spawn_def
  by (rule keeps_bind_any) (auto intro!: keeps_rules simp: maintains_def split: result.split)

lemma keeps_phase:
  assumes "phase R X P m" and "\<And>d d'. R d d' \<Longrightarrow> kept M F (world d) (world d')" and "survives M F J"
  shows "keeps J P m"
proof (rule keeps_wp)
  fix d :: "'a device" assume J: "J (world d)"
  have "J (world d')" if "R d d'" for d'
    using assms(2) [OF that] assms(3) J unfolding survives_def by blast
  then show "wp m (\<lambda>a d'. P a \<and> J (world d')) (\<lambda>e d'. J (world d')) d"
    using phase_run [OF assms(1), of d] by (elim wp_mono) auto
qed

lemma keeps_early: "early_phase M P m \<Longrightarrow> survives M G J \<Longrightarrow> keeps J P m"
  by (erule keeps_phase [where F = "{}" and M = M]) (auto simp: early_run_def intro: survives_mono)

lemma keeps_claims: "phase (claims_run M) X P m \<Longrightarrow> survives M G J \<Longrightarrow> keeps J P m"
  by (erule keeps_phase [where F = "{}" and M = M]) (auto simp: claims_run_def intro: survives_mono)

section \<open>The boot of the agent image\<close>

text \<open>The lifecycles a device with \<open>J\<close> can be in.\<close>

definition may_be :: "'w reading \<Rightarrow> ('w \<Rightarrow> bool) \<Rightarrow> bootstrap_state \<Rightarrow> bool" where
  "may_be M J s \<longleftrightarrow> (\<exists>w. J w \<and> rd_life M (rd_stored M Lifecycle w) = Some s)"

definition boot_invariant :: "'w reading \<Rightarrow> 'w platform \<Rightarrow> ('w \<Rightarrow> bool) \<Rightarrow> bool" where
  "boot_invariant M P J \<longleftrightarrow>
     platform_law M P \<and> survives M {Ota} J \<and> maintains J (svc_reject_pending (ota P)) \<and>
     maintains J (tls_init P) \<and> maintains J (wifi_construct P (rd_space M Wifi)) \<and>
     maintains J (wifi_maintain P (rd_space M Wifi)) \<and>
     (may_be M J ReadyForAgent \<longrightarrow> maintains J (svc_production (ota P) (rd_space M Lifecycle)))"

lemma boot_invariantD:
  assumes "boot_invariant M P J"
  shows "platform_law M P" "survives M {Ota} J" "maintains J (svc_reject_pending (ota P))"
    "maintains J (tls_init P)" "maintains J (wifi_construct P (rd_space M Wifi))"
    "maintains J (wifi_maintain P (rd_space M Wifi))"
    "may_be M J ReadyForAgent \<Longrightarrow> maintains J (svc_production (ota P) (rd_space M Lifecycle))"
  using assms by (simp_all add: boot_invariant_def)

text \<open>An invariant of the boot is one of the boot under any supply.\<close>

lemma cut_boot_invariant:
  assumes "boot_invariant M P J"
  shows "boot_invariant (cut_reading M) (cut_platform P) (\<lambda>s. J (fst s))"
proof -
  note B = boot_invariantD [OF assms]
  have "may_be M J ReadyForAgent" if "may_be (cut_reading M) (\<lambda>s. J (fst s)) ReadyForAgent"
    using that by (auto simp: may_be_def)
  then have "maintains (\<lambda>s. J (fst s)) (cut_try (svc_production (ota P) (rd_space M Lifecycle)))"
    if "may_be (cut_reading M) (\<lambda>s. J (fst s)) ReadyForAgent"
    using that B(7) by (simp add: maintains_cuts)
  moreover have "survives (cut_reading M) {Ota} (\<lambda>s. J (fst s))"
    using B(2) by (auto simp: survives_def)
  ultimately show ?thesis
    unfolding boot_invariant_def
    using cut_platform_law [OF B(1)] B(3-6) by (simp add: cut_platform_def cut_service_def maintains_cuts)
qed

lemma keeps_reject [keeps_rules]:
  "maintains J (svc_reject_pending svc) \<Longrightarrow> keeps J P (reject_pending svc)"
  unfolding reject_pending_def reset_for_rollback_def by (intro keeps_rules)

lemma keeps_spawn_token:
  "platform_law M P \<Longrightarrow> survives M G J \<Longrightarrow> keeps J (\<lambda>_. True) (act_spawn (spawn_token P) t)"
  by (rule keeps_spawn [OF maintains_op [OF _ platform_lawD(6)]]) simp_all

lemma keeps_lifecycle:
  assumes "op_keeps M {} (svc_bootstrap_state svc space)" and "survives M G J"
    and "\<And>w s. fst (svc_bootstrap_state svc space w) = Ok s \<Longrightarrow> rd_life M (rd_stored M Lifecycle w) = Some s"
  shows "keeps J (\<lambda>r. \<forall>s. r = Ok s \<longrightarrow> may_be M J s) (bootstrap_state_of svc space)"
  unfolding bootstrap_state_of_def
proof (rule keeps_read)
  show "maintains J (svc_bootstrap_state svc space)"
    by (rule maintains_op [OF assms(2,1)]) simp
  show "\<forall>s. fst (svc_bootstrap_state svc space w) = Ok s \<longrightarrow> may_be M J s" if "J w" for w
    using that assms(3) unfolding may_be_def by blast
qed

lemma keeps_on_boot:
  assumes law: "ota_law M svc deadline" and J: "survives M {Ota} J"
  shows "keeps J (\<lambda>_. True) (on_boot svc (rd_space M Ota))"
  unfolding on_boot_def reset_for_rollback_def
  by (rule keeps_bind_any [OF keeps_call_any [OF maintains_op [OF J ota_lawD(1) [OF law]]]])
     (auto intro!: keeps_rules split: boot_status.split)

lemma keeps_confirm:
  assumes law: "ota_law M svc deadline" and J: "survives M {Ota} J"
    and rej: "maintains J (svc_reject_pending svc)"
  shows "keeps J (\<lambda>_. True) (confirm_pending feat svc deadline (rd_space M Ota))"
proof -
  have "maintains J (svc_pending_check svc deadline)" "maintains J (svc_confirm_pending svc (rd_space M Ota))"
    using maintains_op [OF J ota_lawD(2) [OF law]] maintains_op [OF J ota_lawD(3) [OF law]] by simp_all
  then show ?thesis
    unfolding confirm_pending_def reset_for_rollback_def reset_now_def using rej
    by (auto intro!: keeps_rules split: pending_check_action.split confirmation.split)
qed

lemma keeps_prerequisites:
  assumes law: "platform_law M P" and sp: "spaces_ok M sp" and J: "survives M G J"
  shows "keeps J (\<lambda>_. True) (prerequisites_ok P sp)"
proof -
  have "maintains J (wifi_is_provisioned P (wifi_config sp))"
    "maintains J (server_identity_valid P (tls_config sp))"
    "maintains J (is_configured (hardware_config sp))"
    "maintains J (is_provisioned (agent_config_space sp))"
    using sp platform_lawD(9,10) [OF law] load_derived_keeps(2,3) [of M, OF platform_lawD(2) [OF law]]
    by (auto simp: spaces_ok_def intro: maintains_op [OF J, where F = "{}"])
  then show ?thesis
    unfolding prerequisites_ok_def by (auto intro!: keeps_rules)
qed

lemma keeps_link_events:
  assumes law: "platform_law M P" and J: "survives M G J"
  shows "keeps J (\<lambda>_. True) (link_events P es self)"
proof (induction es arbitrary: self)
  case (Cons e es)
  have "keeps J (\<lambda>_. True) (on_ip_ready (spawn_token P) self)"
    unfolding on_ip_ready_def Let_def
    by (auto intro!: keeps_rules keeps_spawn_token [OF law J])
  with Cons.IH show ?case
    by (cases e) (auto simp: indicate_def intro!: keeps_rules)
qed (simp add: keeps_return)

lemma keeps_serve_agent:
  assumes inv: "boot_invariant M P J" and sp: "spaces_ok M sp"
  shows "keeps J (\<lambda>_. True) (serve_agent feat P sp workload)"
proof -
  note B = boot_invariantD [OF inv]
  have wifi: "wifi_config sp = rd_space M Wifi" using sp by (simp add: spaces_ok_def)
  show ?thesis
    unfolding serve_agent_def indicate_def wifi
    using B by (intro keeps_rules keeps_spawn_token keeps_link_events) simp_all
qed

lemma keeps_gate:
  assumes inv: "boot_invariant M P J" and sp: "spaces_ok M sp" and v: "may_be M J lifecycle"
  shows "keeps J (\<lambda>_. True) (lifecycle_gate feat P sp boot lifecycle)"
proof -
  note B = boot_invariantD [OF inv]
  have spaces: "lifecycle_config sp = rd_space M Lifecycle" "ota_config sp = rd_space M Ota"
    using sp by (simp_all add: spaces_ok_def)
  have confirm: "keeps J (\<lambda>_. True) (confirm_pending feat (ota P) (selfcheck_deadline P) (rd_space M Ota))"
    by (rule keeps_confirm [OF platform_lawD(13) [OF B(1)] B(2,3)])
  have "keeps J (\<lambda>_. True) (act_expect (production (ota P) (rd_space M Lifecycle)))" if "lifecycle = ReadyForAgent"
    using v that B(7) unfolding production_def by (auto intro!: keeps_expect keeps_call)
  then show ?thesis
    unfolding lifecycle_gate_def Let_def spaces
    by (cases lifecycle) (auto intro!: keeps_rules confirm keeps_any [OF keeps_reject] B(3))
qed

lemma keeps_admission:
  assumes inv: "boot_invariant M P J" and sp: "spaces_ok M sp" and wl: "workload_law M workload"
  shows "keeps J (\<lambda>_. True) (admission feat P sp workload)"
proof -
  note B = boot_invariantD [OF inv]
  note O = ota_lawD [OF platform_lawD(13) [OF B(1)]]
  have spaces: "lifecycle_config sp = rd_space M Lifecycle" "ota_config sp = rd_space M Ota"
    using sp by (simp_all add: spaces_ok_def)
  have reject: "keeps J (\<lambda>_. True) (reject_pending (ota P))"
    by (rule keeps_reject [OF B(3)])
  have checks: "keeps J (\<lambda>_. True) (check_prerequisites P sp boot)" for boot
    unfolding check_prerequisites_def
    by (rule keeps_bind_any [OF keeps_prerequisites [OF B(1) sp B(2)]]) (intro keeps_rules reject)
  have "snd (agent_can_run_active_workload feat workload w) = snd (wl_active workload w)" for w
    by (simp add: agent_can_run_active_workload_def split: prod.split option.split)
  then have "op_keeps M {} (agent_can_run_active_workload feat workload)"
    using wl by (simp add: workload_law_def op_keeps_def)
  then have runs: "maintains J (agent_can_run_active_workload feat workload)"
    by (rule maintains_op [OF B(2)]) simp
  have guard: "keeps J (\<lambda>_. True) (workload_guard feat P workload boot)" for boot
    unfolding workload_guard_def
    by (auto intro!: keeps_rules reject runs)
  show ?thesis
    unfolding admission_def spaces
    by (intro keeps_bind_any [OF keeps_on_boot [OF platform_lawD(13) [OF B(1)] B(2)]]
        keeps_bind [OF keeps_expect [OF keeps_lifecycle [OF O(4) B(2) O(6)]]] keeps_seq checks guard)
       (auto intro: keeps_gate [OF inv sp])
qed

lemma keeps_agent_main:
  assumes inv: "boot_invariant M P J"
  shows "keeps J (\<lambda>_. True) (agent_main feat P)"
proof -
  note B = boot_invariantD [OF inv]
  have nvs: "keeps J (\<lambda>_. True) (act_expect (act_read (nvs_new P)))"
    by (intro keeps_expect keeps_read maintains_op [OF B(2) platform_lawD(3) [OF B(1)]]) simp_all
  have led: "keeps J (\<lambda>_. True) (start_led P sp)" if "spaces_ok M sp" for sp
    by (rule keeps_early [OF start_led_early [OF B(1) that] B(2)])
  show ?thesis
    unfolding agent_main_def Let_def
    by (intro keeps_seq keeps_bind_any [OF nvs] keeps_bind [OF keeps_early [OF workload_init_early [OF B(1)] B(2)]])
       (auto intro!: keeps_call maintains_none keeps_bind [OF keeps_early [OF claim_spaces_early [OF B(1)] B(2)]]
          keeps_seq led keeps_admission [OF inv] keeps_serve_agent [OF inv] split: prod.splits)
qed

end
