(* ===== verification/Device_Life.thy ===== *)
theory Device_Life
  imports Boot_Keeps "HOL-Library.Sublist"
begin

text \<open>
  The life of a device, from the factory to production: a step is a boot of the init image, a
  submission of the form, a boot of the agent image, each of them possibly cut off by a failure of
  the power, or anything that leaves the lifecycle space alone. The steps refine an abstract
  relation on the four states of the lifecycle.
\<close>

section \<open>The lifecycle\<close>

text \<open>The lifecycle that is stored is one of \<open>T\<close>.\<close>

definition in_life :: "'w reading \<Rightarrow> bootstrap_state set \<Rightarrow> 'w \<Rightarrow> bool" where
  "in_life M T w \<longleftrightarrow> rd_life M (rd_stored M Lifecycle w) \<in> Some ` T"

lemma in_life_same: "rd_stored M Lifecycle w' = rd_stored M Lifecycle w \<Longrightarrow> in_life M T w' \<longleftrightarrow> in_life M T w"
  by (simp add: in_life_def)

lemma in_life_survives: "survives M (- {Lifecycle}) (in_life M T)"
  by (simp add: survives_def kept_def in_life_def)

lemma in_life_cut: "in_life (cut_reading M) T = (\<lambda>s. in_life M T (fst s))"
  by (simp add: in_life_def fun_eq_iff)

lemma in_life_may_be: "may_be M (in_life M T) s \<Longrightarrow> s \<in> T"
  by (auto simp: may_be_def in_life_def)

text \<open>A transition leaves the stored lifecycle alone or stores its target: a commit is atomic.\<close>

definition moves_to :: "'w reading \<Rightarrow> bootstrap_state \<Rightarrow> ('w \<Rightarrow> 'a \<times> 'w) \<Rightarrow> bool" where
  "moves_to M s f \<longleftrightarrow> (\<forall>w. rd_stored M Lifecycle (snd (f w)) = rd_stored M Lifecycle w \<or>
     rd_life M (rd_stored M Lifecycle (snd (f w))) = Some s)"

lemma maintains_move: "moves_to M s f \<Longrightarrow> s \<in> T \<Longrightarrow> maintains (in_life M T) f"
  unfolding moves_to_def maintains_def in_life_def by (metis imageI)

lemma moves_to_cut: "moves_to M s f \<Longrightarrow> moves_to (cut_reading M) s (cut_try f)"
  unfolding moves_to_def cut_try_def cut_reading_simps by (metis cut_op_cases fst_conv snd_conv)

section \<open>The two images and the form\<close>

text \<open>
  What the transitions rely on beyond the laws of the boots: the calls whose effect those laws do
  not mention leave the lifecycle space alone, and a transition is one atomic commit.
\<close>

definition spares :: "'w reading \<Rightarrow> ('w \<Rightarrow> 'a \<times> 'w) \<Rightarrow> bool" where
  "spares M f \<longleftrightarrow> (\<forall>w. rd_stored M Lifecycle (snd (f w)) = rd_stored M Lifecycle w)"

lemma spares_maintains: "spares M f \<Longrightarrow> maintains (in_life M T) f"
  by (simp add: spares_def maintains_def in_life_def)

definition agent_life_law :: "'w reading \<Rightarrow> 'w platform \<Rightarrow> bool" where
  "agent_life_law M P \<longleftrightarrow>
     platform_law M P \<and> spares M (svc_reject_pending (ota P)) \<and> spares M (tls_init P) \<and>
     spares M (wifi_construct P (rd_space M Wifi)) \<and> spares M (wifi_maintain P (rd_space M Wifi)) \<and>
     moves_to M Production (svc_production (ota P) (rd_space M Lifecycle))"

lemma agent_life_invariant:
  assumes law: "agent_life_law M P" and T: "ReadyForAgent \<in> T \<Longrightarrow> Production \<in> T"
  shows "boot_invariant M P (in_life M T)"
  using law T in_life_may_be [of M T] survives_mono [OF in_life_survives, of "{Ota}" M T]
  by (auto simp: agent_life_law_def boot_invariant_def spares_maintains intro: maintains_move)

section \<open>The abstract life\<close>

datatype life_event = Init_Boot | Form_Submitted | Agent_Boot | Other_Work

text \<open>Each event may leave the lifecycle as it is; three of them may move it, one step each.\<close>

inductive life_step :: "life_event \<Rightarrow> bootstrap_state \<Rightarrow> bootstrap_state \<Rightarrow> bool" where
  stays: "life_step e s s"
| begun: "life_step Init_Boot Factory Provisioning"
| readied: "life_step Form_Submitted Provisioning ReadyForAgent"
| produced: "life_step Agent_Boot ReadyForAgent Production"

inductive_simps life_step_Init: "life_step Init_Boot s t"
inductive_simps life_step_Form: "life_step Form_Submitted s t"
inductive_simps life_step_Agent: "life_step Agent_Boot s t"
inductive_simps life_step_Other: "life_step Other_Work s t"

abbreviation life_after :: "life_event \<Rightarrow> bootstrap_state \<Rightarrow> bootstrap_state set" where
  "life_after e s \<equiv> {t. life_step e s t}"

lemma keeps_init_main:
  assumes law: "init_law M P"
    and begins: "moves_to M Provisioning (svc_begin_provisioning (ota (ip_base P)) (rd_space M Lifecycle))"
  shows "keeps (in_life M (life_after Init_Boot s)) (\<lambda>_. True) (init_main P)"
proof -
  note L = init_lawD [OF law]
  note O = ota_lawD [OF platform_lawD(13) [OF L(1)]]
  let ?J = "in_life M (life_after Init_Boot s)"
  have op: "maintains ?J f" if "op_keeps M F f" "F \<subseteq> - {Lifecycle}" for F and f :: "'a \<Rightarrow> 'c \<times> 'a"
    using that by (rule maintains_op [OF in_life_survives])
  have nvs: "keeps ?J (\<lambda>_. True) (act_expect (act_read (nvs_new (ip_base P))))"
    by (intro keeps_expect keeps_read maintains_op [OF in_life_survives platform_lawD(3) [OF L(1)]]) simp_all
  have enter: "keeps ?J (\<lambda>_. True) (enter_provisioning (ota (ip_base P)) (rd_space M Lifecycle))"
    unfolding enter_provisioning_def
  proof (rule keeps_bind [OF keeps_expect [OF keeps_lifecycle [OF O(4) in_life_survives O(6)]]])
    fix v assume "may_be M ?J v"
    then have v: "v \<in> life_after Init_Boot s" by (rule in_life_may_be)
    have "Provisioning \<in> life_after Init_Boot s" if "v = Factory"
      using v that by (auto simp: life_step_Init)
    then show "keeps ?J (\<lambda>_. True) (case v of
        Factory \<Rightarrow> act_expect (begin_provisioning (ota (ip_base P)) (rd_space M Lifecycle))
      | Provisioning \<Rightarrow> act_return () | ReadyForAgent \<Rightarrow> act_return () | Production \<Rightarrow> act_exit Panicked)"
      unfolding begin_provisioning_def
      by (cases v) (auto intro!: keeps_return keeps_exit keeps_expect keeps_call maintains_move [OF begins])
  qed
  have identity: "keeps ?J (\<lambda>_. True) (establish_identity P sp)" if sp: "init_spaces_ok M sp" for sp
  proof -
    have "snd (node_id (rd_space M Agent) hw w) = snd (load (rd_space M Agent) w)" for hw w
      by (rule node_id_world)
    then have name: "maintains ?J (node_id (rd_space M Agent) hw)" for hw
      using platform_lawD(2) [OF L(1), of Agent]
      by (simp add: maintains_def op_keeps_def kept_def in_life_def)
    show ?thesis
      using sp unfolding establish_identity_def init_spaces_ok_def
      by (auto intro!: keeps_seq keeps_call_any keeps_bind_any keeps_read_any keeps_expect keeps_call
          op [OF L(4)] op [OF L(5)] name)
  qed
  have image: "keeps ?J (\<lambda>_. True) (factory_agent env)" for env
    unfolding factory_agent_def by (auto intro!: keeps_rules split: option.split)
  have serve: "keeps ?J (\<lambda>_. True) (serve_init P sp)" if sp: "init_spaces_ok M sp" for sp
  proof -
    have wifi: "init_wifi sp = rd_space M Wifi" using sp by (simp add: init_spaces_ok_def)
    have ready: "keeps ?J (\<lambda>_. True) (on_network_ready (spawn_token (ip_base P)) self)" for self
      unfolding on_network_ready_def Let_def
      by (auto intro!: keeps_rules keeps_spawn_token [OF L(1) in_life_survives])
    have "maintains ?J (wifi_scan (ip_wifi P))" "maintains ?J (wifi_provision (ip_wifi P) ssid pw)" for ssid pw
      using op [OF L(9)] op [OF L(10)] by simp_all
    then have "port_keeps (init_improv P) (\<lambda>_ d. ?J (world d)) (\<lambda>_ d. ?J (world d))"
      using ready by (simp add: port_keeps_def init_improv_def wp_rules maintains_def keeps_def)
    then have improv: "keeps ?J (\<lambda>_. True) (improv_run (init_improv P) [] self reads)" for self reads
      by (intro keeps_wp) (simp only: simp_thms, erule improv_run_keeps)
    show ?thesis
      unfolding serve_init_def serve_improv_def act_ask_def wifi
      by (auto intro!: keeps_seq keeps_bind_any keeps_call_any keeps_read_any keeps_return keeps_exit
          ready improv op [OF L(7)] op [OF L(8)] simp: maintains_def [of _ "\<lambda>w. (_ w, w)"])
  qed
  show ?thesis
    unfolding init_main_def
    by (intro keeps_bind_any [OF nvs] keeps_bind [OF keeps_claims [OF init_claim_spaces_run [OF L(1)] in_life_survives]]
        keeps_seq keeps_bind_any [OF image])
       (auto simp: init_spaces_ok_def intro: enter identity serve)
qed

lemma keeps_post_form:
  assumes law: "form_law M slot_hash F" and ftext: "form_text form"
    and readies: "moves_to M ReadyForAgent (svc_ready_for_agent (fs_ota F) (fs_lifecycle F))"
  shows "keeps (in_life M (life_after Form_Submitted s)) (\<lambda>_. True) (post_form F form)"
proof -
  note L = form_lawD [OF law]
  let ?J = "in_life M (life_after Form_Submitted s)"
  have same: "?J w'" if "?J w" "rd_stored M Lifecycle w' = rd_stored M Lifecycle w" for w w'
    using that by (simp add: in_life_def)
  have life: "keeps ?J (\<lambda>r. \<forall>v. r = Ok v \<longrightarrow> v \<in> life_after Form_Submitted s)
      (bootstrap_state_of (fs_ota F) (fs_lifecycle F))"
    unfolding bootstrap_state_of_def
    by (intro keeps_read) (auto simp: maintains_def in_life_def L(6) dest!: L(8))
  have save: "keeps ?J (\<lambda>_. True) (save_form F form (form_pin form))"
    by (rule keeps_wp, rule wp_mono [OF save_form_spec [OF law ftext]]) (auto intro: same)
  have stage: "keeps ?J (\<lambda>_. True) (stage_preloaded (fs_factory F) img)" for img
    by (rule keeps_wp, rule wp_mono [OF stage_preloaded_spec [OF L(5)]]) (auto intro: same)
  have act: "keeps ?J (\<lambda>_. True) (factory_activate (fs_factory F) dep)" for dep
    by (rule keeps_wp, rule wp_mono [OF factory_activate_spec [OF L(5)]]) (auto intro: same)
  have tok: "maintains ?J (token (fs_agent F))"
    unfolding maintains_def L(2)
    by (metis same token_keeps [OF L(1)] prod.collapse)
  have advance: "keeps ?J (\<lambda>_. True) (advance_form F form gpio t)" if "ReadyForAgent \<in> life_after Form_Submitted s" for gpio t
    unfolding advance_form_def ready_for_agent_def activate_form_def
    by (auto intro!: keeps_rules act maintains_move [OF readies that])
  show ?thesis
    unfolding post_form_def
  proof (rule keeps_bind [OF life])
    fix r :: "(bootstrap_state, unit) result" assume r: "\<forall>v. r = Ok v \<longrightarrow> v \<in> life_after Form_Submitted s"
    have "ReadyForAgent \<in> life_after Form_Submitted s" if "form_open r"
      using r that by (auto simp: form_open_def life_step_Form)
    then show "keeps ?J (\<lambda>_. True) (if \<not> form_open r then act_return (locked_response (fs_templates F))
       else let gpio = if form_led_gpio form \<noteq> LED_DISABLED then Some (form_led_gpio form) else None
         in if case gpio of None \<Rightarrow> False | Some g \<Rightarrow> g \<notin> set (fs_pins F)
            then act_return (form_error F form BAD_REQUEST None bad_pin_message)
            else act_bind (save_form F form gpio) (\<lambda>saved.
              if \<not> saved then act_return (form_error F form INTERNAL_SERVER_ERROR gpio write_failed_message)
              else finish_form F form gpio))"
      unfolding finish_form_def Let_def form_pin_def [symmetric]
      by (auto intro!: keeps_return keeps_bind_any keeps_read_any save stage tok advance)
  qed
qed

section \<open>The device\<close>

text \<open>
  A device: the agent image, the init image and the form it serves, over one reading \<open>M\<close>. A step
  is a whole boot of either image, on a device that has just been reset; a submission of the form,
  whatever ran before it; or any other work, which leaves the lifecycle space alone, as a request
  to the API does (\<open>request_is_other_work\<close>).
\<close>

record 'w product =
  agent_image :: "'w platform"
  agent_features :: features
  init_image :: "'w init_platform"
  init_form :: "'w form_server"

definition product_law :: "'w reading \<Rightarrow> (bytes \<Rightarrow> u32 \<Rightarrow> 'w \<Rightarrow> bytes) \<Rightarrow> 'w product \<Rightarrow> bool" where
  "product_law M slot_hash D \<longleftrightarrow>
     agent_life_law M (agent_image D) \<and> init_law M (init_image D) \<and> form_law M slot_hash (init_form D) \<and>
     moves_to M Provisioning
       (svc_begin_provisioning (ota (ip_base (init_image D))) (rd_space M Lifecycle)) \<and>
     moves_to M ReadyForAgent (svc_ready_for_agent (fs_ota (init_form D)) (fs_lifecycle (init_form D)))"

inductive device_step :: "'w reading \<Rightarrow> 'w product \<Rightarrow> life_event \<Rightarrow> 'w \<Rightarrow> 'w \<Rightarrow> bool"
  for M :: "'w reading" and D :: "'w product" where
  init_boot: "init_main (init_image D) (powered w) = (out, d') \<Longrightarrow> device_step M D Init_Boot w (world d')"
| init_boot_cut: "init_main (cut_init (init_image D)) (powered (w, n)) = (out, c) \<Longrightarrow>
    device_step M D Init_Boot w (fst (world c))"
| form_submitted: "form_text form \<Longrightarrow> post_form (init_form D) form d = (answer, d') \<Longrightarrow>
    device_step M D Form_Submitted (world d) (world d')"
| form_cut: "form_text form \<Longrightarrow> post_form (cut_form (init_form D)) form c = (answer, c') \<Longrightarrow>
    device_step M D Form_Submitted (fst (world c)) (fst (world c'))"
| agent_boot: "agent_main (agent_features D) (agent_image D) (powered w) = (out, d') \<Longrightarrow>
    device_step M D Agent_Boot w (world d')"
| agent_boot_cut: "agent_main (agent_features D) (cut_platform (agent_image D)) (powered (w, n)) = (out, c) \<Longrightarrow>
    device_step M D Agent_Boot w (fst (world c))"
| other_work: "rd_stored M Lifecycle w' = rd_stored M Lifecycle w \<Longrightarrow> device_step M D Other_Work w w'"

lemma request_is_other_work:
  assumes "api_law (rd_space M) (rd_stored M) ap"
  shows "device_step M D Other_Work (srv_world s) (srv_world (serve_step ap req s))"
  by (rule other_work) (simp add: serve_foreign [OF assms, of Lifecycle] foreign_def)

inductive device_run :: "'w reading \<Rightarrow> 'w product \<Rightarrow> life_event list \<Rightarrow> 'w \<Rightarrow> 'w \<Rightarrow> bool"
  for M :: "'w reading" and D :: "'w product" where
  run_start: "device_run M D [] w w"
| run_step: "device_run M D es w0 w \<Longrightarrow> device_step M D e w w' \<Longrightarrow> device_run M D (es @ [e]) w0 w'"

inductive life_run :: "life_event list \<Rightarrow> bootstrap_state \<Rightarrow> bootstrap_state \<Rightarrow> bool" where
  life_start: "life_run [] s s"
| life_more: "life_run es s0 s \<Longrightarrow> life_step e s s' \<Longrightarrow> life_run (es @ [e]) s0 s'"

lemma product_lawD:
  assumes "product_law M slot_hash D"
  shows "agent_life_law M (agent_image D)" "init_law M (init_image D)" "form_law M slot_hash (init_form D)"
    "moves_to M Provisioning
       (svc_begin_provisioning (ota (ip_base (init_image D))) (rd_space M Lifecycle))"
    "moves_to M ReadyForAgent (svc_ready_for_agent (fs_ota (init_form D)) (fs_lifecycle (init_form D)))"
  using assms by (simp_all add: product_law_def)

text \<open>What the two images and the form keep, whole or cut off.\<close>

lemma product_keeps:
  assumes law: "product_law M slot_hash D" and ftext: "form_text form"
  defines "J \<equiv> \<lambda>e s. in_life M (life_after e s)"
  shows "keeps (J Init_Boot s) (\<lambda>_. True) (init_main (init_image D))"
    "keeps (\<lambda>u. J Init_Boot s (fst u)) (\<lambda>_. True) (init_main (cut_init (init_image D)))"
    "keeps (J Form_Submitted s) (\<lambda>_. True) (post_form (init_form D) form)"
    "keeps (\<lambda>u. J Form_Submitted s (fst u)) (\<lambda>_. True) (post_form (cut_form (init_form D)) form)"
    "keeps (J Agent_Boot s) (\<lambda>_. True) (agent_main feat (agent_image D))"
    "keeps (\<lambda>u. J Agent_Boot s (fst u)) (\<lambda>_. True) (agent_main feat (cut_platform (agent_image D)))"
proof -
  note D = product_lawD [OF law]
  have boot: "boot_invariant M (agent_image D) (J Agent_Boot s)"
    unfolding J_def by (rule agent_life_invariant [OF D(1)]) (auto simp: life_step_Agent)
  show "keeps (J Agent_Boot s) (\<lambda>_. True) (agent_main feat (agent_image D))"
    by (rule keeps_agent_main [OF boot])
  show "keeps (\<lambda>u. J Agent_Boot s (fst u)) (\<lambda>_. True) (agent_main feat (cut_platform (agent_image D)))"
    by (rule keeps_agent_main [OF cut_boot_invariant [OF boot]])
  show "keeps (J Init_Boot s) (\<lambda>_. True) (init_main (init_image D))"
    unfolding J_def by (rule keeps_init_main [OF D(2,4)])
  have "moves_to (cut_reading M) Provisioning
      (svc_begin_provisioning (ota (ip_base (cut_init (init_image D)))) (rd_space (cut_reading M) Lifecycle))"
    using moves_to_cut [OF D(4)] by (simp add: cut_init_def cut_platform_def cut_service_def)
  from keeps_init_main [OF cut_init_law [OF D(2)] this]
  show "keeps (\<lambda>u. J Init_Boot s (fst u)) (\<lambda>_. True) (init_main (cut_init (init_image D)))"
    by (simp add: J_def in_life_cut)
  show "keeps (J Form_Submitted s) (\<lambda>_. True) (post_form (init_form D) form)"
    unfolding J_def by (rule keeps_post_form [OF D(3) ftext D(5)])
  have "moves_to (cut_reading M) ReadyForAgent
      (svc_ready_for_agent (fs_ota (cut_form (init_form D))) (fs_lifecycle (cut_form (init_form D))))"
    using moves_to_cut [OF D(5)] by (simp add: cut_form_def cut_service_def)
  from keeps_post_form [OF cut_form_law [OF D(3)] ftext this]
  show "keeps (\<lambda>u. J Form_Submitted s (fst u)) (\<lambda>_. True) (post_form (cut_form (init_form D)) form)"
    by (simp add: J_def in_life_cut)
qed

lemma device_step_in_life:
  assumes law: "product_law M slot_hash D" and step: "device_step M D e w w'"
    and s: "rd_life M (rd_stored M Lifecycle w) = Some s"
  shows "in_life M (life_after e s) w'"
proof -
  have J: "in_life M (life_after e s) w" for e
    using s by (simp add: in_life_def stays)
  have form: "form_text \<lparr>form_led_gpio = 0, form_node_id = [], form_ctrl_url = []\<rparr>"
    by (simp add: form_text_def)
  show ?thesis
    using step
  proof cases
    case (init_boot out d')
    with keeps_run [OF product_keeps(1) [OF law form], of s "powered w"] J show ?thesis by simp
  next
    case (init_boot_cut n out c)
    with keeps_run [OF product_keeps(2) [OF law form], of s "powered (w, n)"] J show ?thesis by simp
  next
    case (form_submitted form d answer d')
    with keeps_run [OF product_keeps(3) [OF law], of form s d] J show ?thesis by simp
  next
    case (form_cut form c answer c')
    with keeps_run [OF product_keeps(4) [OF law], of form s c] J show ?thesis by simp
  next
    case (agent_boot out d')
    with keeps_run [OF product_keeps(5) [OF law form], of s "powered w" "agent_features D"] J
    show ?thesis by simp
  next
    case (agent_boot_cut n out c)
    with keeps_run [OF product_keeps(6) [OF law form], of s "powered (w, n)" "agent_features D"] J
    show ?thesis by simp
  next
    case other_work
    then show ?thesis using J in_life_same [of M w' w] by simp
  qed
qed

section \<open>Properties\<close>

subsection \<open>Refinement\<close>

lemma device_run_refines:
  assumes "product_law M slot_hash D" and "device_run M D es w0 w"
    and "rd_life M (rd_stored M Lifecycle w0) = Some s0"
  shows "\<exists>s. rd_life M (rd_stored M Lifecycle w) = Some s \<and> life_run es s0 s"
  using assms(2,3)
proof (induction rule: device_run.induct)
  case (run_start w)
  then show ?case by (auto intro: life_start)
next
  case (run_step es w0 w e w')
  then obtain s where s: "rd_life M (rd_stored M Lifecycle w) = Some s" "life_run es s0 s" by blast
  then obtain s' where "rd_life M (rd_stored M Lifecycle w') = Some s'" "life_step e s s'"
    using device_step_in_life [OF assms(1) run_step.hyps(2) s(1)] by (auto simp: in_life_def)
  with s(2) show ?case by (auto intro: life_more)
qed

lemma life_step_mono: "life_step e s t \<Longrightarrow> s \<le> t"
  by (erule life_step.cases) (simp_all add: less_eq_bootstrap_state_def)

lemma life_run_mono: "life_run es s t \<Longrightarrow> s \<le> t"
  by (induction rule: life_run.induct) (auto dest: life_step_mono)

text \<open>
  C9: the lifecycle only moves forward, one documented step at a time. Whatever boots, submissions and
  other work a device goes through, however each of them ends and wherever the power fails in it,
  the lifecycle its flash holds goes through a run of the abstract life: a boot of the init image
  may begin the provisioning of a factory device, a submission of the form may make it ready, a
  boot of the agent image may put a ready device into production, and nothing else changes it or
  takes it back.
\<close>

theorem device_life_refines:
  assumes "product_law M slot_hash D" and "device_run M D es w0 w"
    and "rd_life M (rd_stored M Lifecycle w0) = Some s0"
  shows "\<exists>s. rd_life M (rd_stored M Lifecycle w) = Some s \<and> life_run es s0 s \<and> s0 \<le> s"
  using device_run_refines [OF assms] life_run_mono by blast

subsection \<open>The way to production\<close>

text \<open>What a device that started in the factory has been through.\<close>

primrec milestones :: "bootstrap_state \<Rightarrow> life_event list" where
  "milestones Factory = []"
| "milestones Provisioning = [Init_Boot]"
| "milestones ReadyForAgent = [Init_Boot, Form_Submitted]"
| "milestones Production = [Init_Boot, Form_Submitted, Agent_Boot]"

lemma life_run_milestones:
  "life_run es s0 s \<Longrightarrow> s0 = Factory \<Longrightarrow> subseq (milestones s) es"
proof (induction rule: life_run.induct)
  case (life_more es s0 s e s')
  then have es: "subseq (milestones s) es" by simp
  have grown: "subseq (milestones s @ xs) (es @ [e])" if "subseq xs [e]" for xs
    by (rule list_emb_append_mono [OF es that])
  show ?case
    using life_more.hyps(2) grown [of "[]"] grown [of "[e]"]
    by (cases rule: life_step.cases) simp_all
qed simp

text \<open>
  C10: no short cut to production. A device that left the factory and is in production went through a
  boot of the init image, then a submission of the form, then a boot of the agent image, in this
  order; and one that is ready for the agent went through the first two. No failure of the power,
  at any moment of any of them, opens another way.
\<close>

theorem production_takes_every_step:
  assumes "product_law M slot_hash D" and "device_run M D es w0 w"
    and "rd_life M (rd_stored M Lifecycle w0) = Some Factory"
    and "rd_life M (rd_stored M Lifecycle w) = Some s"
  shows "subseq (milestones s) es"
  using device_run_refines [OF assms(1-3)] assms(4) life_run_milestones by auto

subsection \<open>A device in memory\<close>

definition demo_product :: "ram product" where
  "demo_product = \<lparr>agent_image = init_base, agent_features = production_features,
     init_image = demo_init, init_form = demo_form_server\<rparr>"

lemma life_commit_moves:
  "life_stored (Some \<lparr>data = [b], generation = g\<rparr>) = s \<Longrightarrow> moves_to init_reading s (life_commit b (ram_space Lifecycle))"
  by (auto simp: moves_to_def life_commit_def ram_space_def Let_def life_stored_def)

lemma demo_product_law: "product_law init_reading (\<lambda>_ _ _. [7]) demo_product"
proof -
  have base: "svc_reject_pending (ota init_base) = (\<lambda>w. ((), w))" "tls_init init_base = (\<lambda>w. ((), w))"
    "wifi_construct init_base = (\<lambda>_ w. ((), w))"
    "wifi_maintain init_base = (\<lambda>_ w. ([Link_Ready, Link_Down, Link_Ready], w))"
    "ota init_base = init_ota" "ip_base demo_init = init_base"
    "fs_ota demo_form_server = init_ota" "fs_lifecycle demo_form_server = ram_space Lifecycle"
    by (simp_all add: init_base_def demo_platform_def init_ota_def demo_ota_def demo_init_def demo_form_server_def)
  have "agent_life_law init_reading init_base"
    unfolding agent_life_law_def base
    using init_base_law life_commit_moves [of 3 0 Production] base(1)
    by (simp add: spares_def init_ota_ops life_stored_byte base)
  then show ?thesis
    using demo_init_law demo_form_law life_commit_moves [of 1 0 Provisioning] life_commit_moves [of 2 0 ReadyForAgent]
    by (simp add: product_law_def demo_product_def base init_ota_ops life_stored_byte)
qed

lemma demo_life:
  obtains w where "device_run init_reading demo_product [Init_Boot, Other_Work, Form_Submitted] ram_empty w"
    "life_stored (cells w Lifecycle) = ReadyForAgent"
proof -
  obtain e d1 where run: "init_main demo_init (powered ram_empty) = (Exits e, d1)"
    and ended: "e = Idles \<and> Ensure_Identity (lit ''embewi-a1'') \<in> set (calls d1) \<and>
      Spawn T_Http_Provisioning \<in> set (calls d1) \<and>
      (\<forall>m. m \<noteq> Wifi \<longrightarrow> cells (world d1) m = cells init_ram m)"
    by (rule boot_run [OF demo_init_boot])
  then have boot: "init_main demo_init (powered ram_empty) = (Exits Idles, d1)"
    and life: "cells (world d1) Lifecycle = cells init_ram Lifecycle"
    by simp_all
  obtain r d2 where form: "post_form demo_form_server demo_form (powered init_ram) = (Returns r, d2)"
    and ok: "status r = OK"
    using demo_form_run
    by (cases "post_form demo_form_server demo_form (powered init_ram)")
       (auto simp: wp_def split: outcome.splits)
  have s1: "device_step init_reading demo_product Init_Boot ram_empty (world d1)"
    using boot by (intro init_boot) (simp add: demo_product_def)
  have s2: "device_step init_reading demo_product Other_Work (world d1) init_ram"
    by (rule other_work) (simp add: life)
  have s3: "device_step init_reading demo_product Form_Submitted (world (powered init_ram)) (world d2)"
    using form by (intro form_submitted [OF demo_form_text]) (simp add: demo_product_def)
  have "rd_life init_reading (rd_stored init_reading Lifecycle (world d2)) = Some ReadyForAgent"
    using form_stored [OF demo_form_law demo_form_text form ok] by blast
  then show thesis
    using that run_step [OF run_step [OF run_step [OF run_start s1] s2], of Form_Submitted "world d2"] s3 by simp
qed

theorem device_life_refines_witness:
  "\<exists>w out c s. agent_main production_features (cut_platform init_base) (powered (w, 30)) = (out, c) \<and>
     device_run init_reading demo_product [Init_Boot, Other_Work, Form_Submitted, Agent_Boot]
       ram_empty (fst (world c)) \<and>
     life_stored (cells (fst (world c)) Lifecycle) = s \<and>
     life_run [Init_Boot, Other_Work, Form_Submitted, Agent_Boot] Factory s"
proof -
  obtain w where run: "device_run init_reading demo_product [Init_Boot, Other_Work, Form_Submitted] ram_empty w"
    by (rule demo_life)
  obtain out c where boot: "agent_main production_features (cut_platform init_base) (powered (w, 30)) = (out, c)"
    by force
  then have "device_step init_reading demo_product Agent_Boot w (fst (world c))"
    by (intro agent_boot_cut) (simp add: demo_product_def)
  from run_step [OF run this]
  have run': "device_run init_reading demo_product [Init_Boot, Other_Work, Form_Submitted, Agent_Boot]
      ram_empty (fst (world c))" by simp
  have "rd_life init_reading (rd_stored init_reading Lifecycle ram_empty) = Some Factory"
    by (simp add: life_stored_def)
  from device_life_refines [OF demo_product_law run' this] run' boot show ?thesis by auto
qed

theorem production_takes_every_step_witness:
  "\<exists>w. device_run init_reading demo_product [Init_Boot, Other_Work, Form_Submitted] ram_empty w \<and>
     subseq (milestones (life_stored (cells w Lifecycle))) [Init_Boot, Other_Work, Form_Submitted]"
proof -
  obtain w where run: "device_run init_reading demo_product [Init_Boot, Other_Work, Form_Submitted] ram_empty w"
    by (rule demo_life)
  have "rd_life init_reading (rd_stored init_reading Lifecycle ram_empty) = Some Factory"
    by (simp add: life_stored_def)
  from production_takes_every_step [OF demo_product_law run this] run show ?thesis by auto
qed

end
