(* ===== verification/Boot_Liveness.thy ===== *)
theory Boot_Liveness
  imports Boot_Policy
begin

text \<open>
  The other half of the boot policy: an image that should stay does stay. On a device that is fit
  for it, with a platform whose operations succeed, \<open>agent_main\<close> neither panics nor resets; it
  confirms a pending image, enters production and starts every service.
\<close>

section \<open>A platform that works\<close>

text \<open>
  \<open>up T w\<close>: the hardware works in state \<open>w\<close> and the executor has started the tasks \<open>T\<close> (a task
  has one slot, so it can be started once). \<open>answers\<close>: while it works, an operation leaves it
  working and its result is as \<open>R\<close> says.
\<close>

definition answers ::
  "(task set \<Rightarrow> 'w \<Rightarrow> bool) \<Rightarrow> ('w \<Rightarrow> 'a \<times> 'w) \<Rightarrow> ('a \<Rightarrow> 'w \<Rightarrow> bool) \<Rightarrow> bool" where
  "answers up f R \<longleftrightarrow> (\<forall>T w. up T w \<longrightarrow> R (fst (f w)) w \<and> up T (snd (f w)))"

definition spawns :: "(task set \<Rightarrow> 'w \<Rightarrow> bool) \<Rightarrow> 'w spawner \<Rightarrow> bool" where
  "spawns up spawn \<longleftrightarrow> (\<forall>T t w. up T w \<and> t \<notin> T \<longrightarrow>
     is_ok (fst (spawn t w)) \<and> up (insert t T) (snd (spawn t w)))"

text \<open>
  The OTA service reports a pending image exactly when \<open>pending\<close> says so, and then its self-check
  passes; the Wi-Fi and TLS predicates accept every stored value that passes their test; and the
  link comes up.
\<close>

definition ota_answers :: "'w reading \<Rightarrow> (task set \<Rightarrow> 'w \<Rightarrow> bool) \<Rightarrow> bool \<Rightarrow> 'w ota_service \<Rightarrow> nat \<Rightarrow> bool" where
  "ota_answers M up pending svc deadline \<longleftrightarrow>
     answers up (svc_on_boot svc (rd_space M Ota)) (\<lambda>r w. br_status r \<noteq> BS_Rollback \<and>
       (br_status r = BS_PendingVerify \<longleftrightarrow> pending)) \<and>
     answers up (svc_bootstrap_state svc (rd_space M Lifecycle)) (\<lambda>r w. is_ok r) \<and>
     answers up (svc_pending_check svc deadline) (\<lambda>r w. r = PC_Confirm) \<and>
     answers up (svc_confirm_pending svc (rd_space M Ota)) (\<lambda>r w. r \<noteq> Conf_ResetRequired) \<and>
     answers up (svc_production svc (rd_space M Lifecycle)) (\<lambda>r w. is_ok r)"

definition workload_answers :: "(task set \<Rightarrow> 'w \<Rightarrow> bool) \<Rightarrow> 'w workload_service \<Rightarrow> bool" where
  "workload_answers up svc \<longleftrightarrow>
     answers up (wl_recover svc) (\<lambda>r w. True) \<and> answers up (wl_active svc) (\<lambda>r w. True)"

definition platform_answers :: "'w reading \<Rightarrow> (task set \<Rightarrow> 'w \<Rightarrow> bool) \<Rightarrow> bool \<Rightarrow> 'w platform \<Rightarrow> bool" where
  "platform_answers M up pending P \<longleftrightarrow>
     (\<forall>n. answers up (load (rd_space M n)) (\<lambda>r w. is_ok r)) \<and>
     answers up (nvs_new P) (\<lambda>r w. is_ok r) \<and>
     (\<forall>n b. answers up (claim P n b) (\<lambda>r w. is_ok r)) \<and>
     spawns up (spawn_token P) \<and>
     answers up (workload_probe P) (\<lambda>svc w. workload_answers up svc) \<and>
     answers up (wifi_is_provisioned P (rd_space M Wifi)) (\<lambda>r w. r \<longleftrightarrow> rd_wifi_ok M (rd_stored M Wifi w)) \<and>
     answers up (server_identity_valid P (rd_space M Tls)) (\<lambda>r w. r \<longleftrightarrow> rd_tls_ok M (rd_stored M Tls w)) \<and>
     ota_answers M up pending (ota P) (selfcheck_deadline P) \<and>
     answers up (tls_init P) (\<lambda>r w. True) \<and>
     answers up (wifi_construct P (rd_space M Wifi)) (\<lambda>r w. True) \<and>
     answers up (wifi_maintain P (rd_space M Wifi)) (\<lambda>events w. Link_Ready \<in> set events)"

text \<open>
  A device the image can run on: fit, in a lifecycle that allows it, with an LED pin the chip has
  and a runtime configuration that decodes.
\<close>

definition led_ok :: "snapshot option \<Rightarrow> bool" where
  "led_ok s = (case s of None \<Rightarrow> True | Some sn \<Rightarrow>
     (case hardware_decode (data sn) of Some (Some pin) \<Rightarrow> led_pin_exists pin | _ \<Rightarrow> True))"

definition runtime_ok :: "snapshot option \<Rightarrow> bool" where
  "runtime_ok s = (case s of None \<Rightarrow> True | Some sn \<Rightarrow> runtime_decode (data sn) \<noteq> None)"

definition bootable :: "features \<Rightarrow> 'w reading \<Rightarrow> 'w \<Rightarrow> bool" where
  "bootable feat M w \<longleftrightarrow>
     fit M w \<and> runs_workload feat M w \<and>
     rd_life M (rd_stored M Lifecycle w) \<in> {Some ReadyForAgent, Some Production} \<and>
     led_ok (rd_stored M Hardware w) \<and> runtime_ok (rd_stored M Runtime w)"

lemma bootable_kept: "kept M {Ota} w w' \<Longrightarrow> bootable feat M w' \<longleftrightarrow> bootable feat M w"
  by (simp add: kept_def bootable_def fit_def runs_workload_def)

section \<open>Progress\<close>

text \<open>
  \<open>going\<close>: the device works with the tasks \<open>T\<close> started, the spaces \<open>F\<close> excepted it holds what it
  held in \<open>w0\<close>, and the calls \<open>C\<close> were made.
\<close>

definition going ::
  "'w reading \<Rightarrow> (task set \<Rightarrow> 'w \<Rightarrow> bool) \<Rightarrow> 'w \<Rightarrow> task set \<Rightarrow> call set \<Rightarrow> 'w device \<Rightarrow> bool" where
  "going M up w0 T C d \<longleftrightarrow> up T (world d) \<and> kept M {Ota} w0 (world d) \<and> C \<subseteq> set (calls d)"

lemma answersD:
  "answers up f R \<Longrightarrow> up T w \<Longrightarrow> R (fst (f w)) w" "answers up f R \<Longrightarrow> up T w \<Longrightarrow> up T (snd (f w))"
  by (auto simp: answers_def)

lemma going_after:
  assumes "going M up w0 T C d" and "answers up f R" and "op_keeps M {Ota} f"
  shows "R (fst (f (world d))) (world d)" "up T (snd (f (world d)))" "kept M {Ota} w0 (snd (f (world d)))"
proof -
  have d: "up T (world d)" "kept M {Ota} w0 (world d)" using assms(1) by (simp_all add: going_def)
  show "R (fst (f (world d))) (world d)" "up T (snd (f (world d)))"
    using answersD [OF assms(2) d(1)] .
  show "kept M {Ota} w0 (snd (f (world d)))"
    by (rule kept_trans [OF d(2) kept_op [OF assms(3)]]) simp
qed

lemma going_read:
  assumes "going M up w0 T C d" and "answers up f R" and "op_keeps M {Ota} f"
    and "\<And>a d'. R a (world d) \<Longrightarrow> going M up w0 T C d' \<Longrightarrow> Q a d'"
  shows "wp (act_read f) Q E d"
  using going_after [OF assms(1-3)] assms(1) unfolding wp_read by (intro assms(4)) (auto simp: going_def)

lemma going_call:
  assumes "going M up w0 T C d" and "answers up f R" and "op_keeps M {Ota} f"
    and "\<And>a d'. R a (world d) \<Longrightarrow> going M up w0 T (insert c C) d' \<Longrightarrow> Q a d'"
  shows "wp (act_call c f) Q E d"
  using going_after [OF assms(1-3)] assms(1) unfolding wp_call by (intro assms(4)) (auto simp: going_def)

lemma going_mono: "going M up w0 T C d \<Longrightarrow> C' \<subseteq> C \<Longrightarrow> going M up w0 T C' d"
  by (auto simp: going_def)

lemma keeps_mono: "op_keeps M {} f \<Longrightarrow> op_keeps M {Ota} f"
  by (auto simp: op_keeps_def kept_def)

text \<open>A result that is known to be \<open>Ok\<close> lets \<open>expect\<close> pass.\<close>

lemma expect_ok: "wp m (\<lambda>r d'. is_ok r \<and> (\<forall>a. r = Ok a \<longrightarrow> Q a d')) E d \<Longrightarrow> wp (act_expect m) Q E d"
  unfolding wp_expect by (erule wp_mono) (auto simp: is_ok_iff)

lemma platform_answersD:
  assumes "platform_answers M up pending P"
  shows "answers up (load (rd_space M n)) (\<lambda>r w. is_ok r)" "answers up (nvs_new P) (\<lambda>r w. is_ok r)"
    "answers up (claim P n b) (\<lambda>r w. is_ok r)" "spawns up (spawn_token P)"
    "answers up (workload_probe P) (\<lambda>svc w. workload_answers up svc)"
    "answers up (wifi_is_provisioned P (rd_space M Wifi)) (\<lambda>r w. r \<longleftrightarrow> rd_wifi_ok M (rd_stored M Wifi w))"
    "answers up (server_identity_valid P (rd_space M Tls)) (\<lambda>r w. r \<longleftrightarrow> rd_tls_ok M (rd_stored M Tls w))"
    "ota_answers M up pending (ota P) (selfcheck_deadline P)" "answers up (tls_init P) (\<lambda>r w. True)"
    "answers up (wifi_construct P (rd_space M Wifi)) (\<lambda>r w. True)"
    "answers up (wifi_maintain P (rd_space M Wifi)) (\<lambda>events w. Link_Ready \<in> set events)"
  using assms by (simp_all add: platform_answers_def)

section \<open>The readers\<close>

lemma load_up:
  assumes "config_space_law (rd_space M) (rd_stored M)" and "answers up (load (rd_space M n)) (\<lambda>r w. is_ok r)"
    and "up T w"
  obtains w' where "load (rd_space M n) w = (Ok (rd_stored M n w), w')" "up T w'"
proof (cases "load (rd_space M n) w")
  case (Pair r w')
  then have "is_ok r" "up T w'" using answersD [OF assms(2,3)] by simp_all
  then show thesis using Pair law_load_Ok [OF assms(1)] that by (auto simp: is_ok_iff)
qed

lemma readers_answer:
  assumes law: "config_space_law (rd_space M) (rd_stored M)"
    and up: "\<And>n. answers up (load (rd_space M n)) (\<lambda>r w. is_ok r)"
  shows "answers up (led_gpio (rd_space M Hardware)) (\<lambda>r w. led_ok (rd_stored M Hardware w) \<longrightarrow>
      (\<forall>pin. r = Some pin \<longrightarrow> led_pin_exists pin))"
    "answers up (is_configured (rd_space M Hardware)) (\<lambda>r w. r \<longleftrightarrow>
      (\<exists>sn. rd_stored M Hardware w = Some sn \<and> hardware_schema_ok (data sn)))"
    "answers up (is_provisioned (rd_space M Agent)) (\<lambda>r w. r \<longleftrightarrow> provisioned_view (rd_stored M Agent w))"
    "answers up (runtime_config_new (rd_space M Runtime)) (\<lambda>r w. runtime_ok (rd_stored M Runtime w) \<longrightarrow> is_ok r)"
proof -
  have loaded: "\<exists>w'. load (rd_space M n) w = (Ok (rd_stored M n w), w') \<and> up T w'" if "up T w" for n T w
    using load_up [OF law up that] by metis
  show "answers up (led_gpio (rd_space M Hardware)) (\<lambda>r w. led_ok (rd_stored M Hardware w) \<longrightarrow>
      (\<forall>pin. r = Some pin \<longrightarrow> led_pin_exists pin))"
    unfolding answers_def
    by (clarify, drule loaded [of _ _ Hardware]) (auto simp: led_gpio_def led_ok_def split: option.splits)
  show "answers up (is_configured (rd_space M Hardware)) (\<lambda>r w. r \<longleftrightarrow>
      (\<exists>sn. rd_stored M Hardware w = Some sn \<and> hardware_schema_ok (data sn)))"
    unfolding answers_def
    by (clarify, drule loaded [of _ _ Hardware]) (auto simp: is_configured_def split: option.splits)
  show "answers up (is_provisioned (rd_space M Agent)) (\<lambda>r w. r \<longleftrightarrow> provisioned_view (rd_stored M Agent w))"
    unfolding answers_def
    by (clarify, drule loaded [of _ _ Agent])
       (auto simp: is_provisioned_def load_config_def provisioned_view_def agent_view_def
        agent_config_default_def split: option.splits result.splits)
  show "answers up (runtime_config_new (rd_space M Runtime)) (\<lambda>r w. runtime_ok (rd_stored M Runtime w) \<longrightarrow> is_ok r)"
    unfolding answers_def
    by (clarify, drule loaded [of _ _ Runtime])
       (auto simp: runtime_config_new_def runtime_ok_def split: option.splits)
qed
section \<open>The phases\<close>

lemma claim_space_going:
  assumes "platform_law M P" and "platform_answers M up pending P" and "going M up w0 T C d"
    and "\<And>d'. going M up w0 T C d' \<Longrightarrow> Q (rd_space M n) d'"
  shows "wp (claim_space P n b) Q E d"
  unfolding claim_space_def
proof (rule expect_ok, rule going_call [OF assms(3)])
  show "answers up (claim P n b) (\<lambda>r w. is_ok r \<and> (\<forall>s. r = Ok s \<longrightarrow> s = rd_space M n))"
    using platform_answersD(3) [OF assms(2), of n b] platform_lawD(5) [OF assms(1)]
    by (auto simp: answers_def)
  show "op_keeps M {Ota} (claim P n b)" by (rule keeps_mono [OF platform_lawD(4) [OF assms(1)]])
qed (auto intro: assms(4) going_mono)

lemma claim_spaces_going:
  assumes law: "platform_law M P" and ans: "platform_answers M up pending P"
    and d: "going M up w0 T C d" and rt: "runtime_ok (rd_stored M Runtime w0)"
    and Q: "\<And>sp d'. spaces_ok M sp \<Longrightarrow> going M up w0 T C d' \<Longrightarrow> Q sp d'"
  shows "wp (claim_spaces P) Q E d"
proof -
  note claims = claim_space_going [OF law ans]
  note rd = readers_answer [OF platform_lawD(1) [OF law] platform_answersD(1) [OF ans]]
  have rc: "wp (act_expect (act_read (runtime_config_new (rd_space M Runtime)))) Q' E d'"
    if "going M up w0 T C d'"
      and "\<And>rc d''. rc_space rc = rd_space M Runtime \<Longrightarrow> going M up w0 T C d'' \<Longrightarrow> Q' rc d''" for Q' d'
  proof (rule expect_ok, rule going_read [OF that(1)])
    show "answers up (runtime_config_new (rd_space M Runtime)) (\<lambda>a w.
        (runtime_ok (rd_stored M Runtime w) \<longrightarrow> is_ok a) \<and> (\<forall>rc. a = Ok rc \<longrightarrow> rc_space rc = rd_space M Runtime))"
      using rd(4) by (simp add: answers_def runtime_config_new_space)
    show "op_keeps M {Ota} (runtime_config_new (rd_space M Runtime))"
      by (rule keeps_mono [OF load_derived_keeps(4)]) (rule platform_lawD(2) [OF law])
    have "runtime_ok (rd_stored M Runtime (world d'))"
      using that(1) rt by (simp add: going_def kept_def)
    then show "(runtime_ok (rd_stored M Runtime (world d')) \<longrightarrow> is_ok a) \<and>
        (\<forall>rc. a = Ok rc \<longrightarrow> rc_space rc = rd_space M Runtime) \<Longrightarrow>
        going M up w0 T C d'' \<Longrightarrow> is_ok a \<and> (\<forall>b. a = Ok b \<longrightarrow> Q' b d'')" for a d''
      using that(2) by blast
  qed
  show ?thesis
    unfolding claim_spaces_def wp_bind wp_return
    by (rule claims [OF d], (rule claims, assumption)+, rule rc, assumption, (rule claims, assumption)+,
        rule Q) (simp_all add: spaces_ok_def)
qed

lemma going_spawn:
  assumes "spawns up spawn" and "op_keeps M F (spawn t)" and "up T (world d)" and "t \<notin> T"
    and "\<And>d'. up (insert t T) (world d') \<Longrightarrow> kept M F (world d) (world d') \<Longrightarrow>
      calls d' = calls d @ [Spawn t] \<Longrightarrow> Q () d'"
  shows "wp (act_spawn spawn t) Q E d"
proof -
  have "is_ok (fst (spawn t (world d)))" "up (insert t T) (snd (spawn t (world d)))"
    using assms(1,3,4) by (simp_all add: spawns_def)
  moreover have "kept M F (world d) (snd (spawn t (world d)))"
    by (rule kept_op [OF assms(2)])
  ultimately show ?thesis
    unfolding wp_spawn by (auto simp: is_ok_iff split: prod.split intro!: assms(5))
qed

lemma start_led_going:
  assumes law: "platform_law M P" and ans: "platform_answers M up pending P" and sp: "spaces_ok M sp"
    and d: "going M up w0 {} C d" and led: "led_ok (rd_stored M Hardware w0)"
    and Q: "\<And>T d'. T \<subseteq> range T_Led \<Longrightarrow> going M up w0 T C d' \<Longrightarrow> Q () d'"
  shows "wp (start_led P sp) Q E d"
proof -
  note rd = readers_answer [OF platform_lawD(1) [OF law] platform_answersD(1) [OF ans]]
  have "led_ok (rd_stored M Hardware (world d))"
    using d led by (simp add: going_def kept_def)
  have spawned: "wp (act_spawn (spawn_token P) (T_Led pin)) Q E d'" if "going M up w0 {} C d'" for pin d'
  proof (rule going_spawn [OF platform_answersD(4) [OF ans] keeps_mono [OF platform_lawD(6) [OF law]]])
    show "up {} (world d')" "T_Led pin \<notin> {}" using that by (simp_all add: going_def)
    fix d'' :: "'a device"
    assume "up {T_Led pin} (world d'')" "calls d'' = calls d' @ [Spawn (T_Led pin)]"
      "kept M {Ota} (world d') (world d'')"
    then have "going M up w0 {T_Led pin} C d''"
      using that kept_trans [of M "{Ota}" w0 "world d'" "{Ota}" "world d''" "{Ota}"]
      by (auto simp: going_def)
    then show "Q () d''" by (intro Q [of "{T_Led pin}"]) auto
  qed
  show ?thesis
    unfolding start_led_def wp_bind
  proof (rule going_read [OF d])
    show "answers up (led_gpio (hardware_config sp)) (\<lambda>r w. led_ok (rd_stored M Hardware w) \<longrightarrow>
      (\<forall>pin. r = Some pin \<longrightarrow> led_pin_exists pin))"
      using rd(1) sp by (simp add: spaces_ok_def)
    show "op_keeps M {Ota} (led_gpio (hardware_config sp))"
      using keeps_mono [OF load_derived_keeps(1), of M Hardware] platform_lawD(2) [OF law] sp
      by (simp add: spaces_ok_def)
    fix a d'
    assume "led_ok (rd_stored M Hardware (world d)) \<longrightarrow> (\<forall>pin. a = Some pin \<longrightarrow> led_pin_exists pin)"
      and d': "going M up w0 {} C d'"
    then show "wp (case a of None \<Rightarrow> act_return () | Some pin \<Rightarrow>
        if led_pin_exists pin then act_spawn (spawn_token P) (T_Led pin) else act_exit Panicked) Q E d'"
      using \<open>led_ok (rd_stored M Hardware (world d))\<close> Q [of "{}" d'] spawned [OF d']
      by (cases a) (simp_all add: wp_return)
  qed
qed

lemma workload_init_going:
  assumes law: "platform_law M P" and ans: "platform_answers M up pending P" and d: "going M up w0 T C d"
    and Q: "\<And>svc control d'. workload_law M svc \<Longrightarrow> workload_answers up svc \<Longrightarrow> going M up w0 T C d' \<Longrightarrow>
      Q (svc, control) d'"
  shows "wp (workload_init feat (workload_probe P) ok) Q E d"
  unfolding workload_init_def wp_bind wp_seq wp_when wp_return
proof (rule going_read [OF d])
  show "answers up (workload_probe P) (\<lambda>svc w. workload_law M svc \<and> workload_answers up svc)"
    using platform_answersD(5) [OF ans] platform_lawD(8) [OF law] by (auto simp: answers_def)
  show "op_keeps M {Ota} (workload_probe P)" by (rule keeps_mono [OF platform_lawD(7) [OF law]])
  fix svc d' assume s: "workload_law M svc \<and> workload_answers up svc" and d': "going M up w0 T C d'"
  have "answers up (wl_recover svc) (\<lambda>r w. True)" "op_keeps M {Ota} (wl_recover svc)"
    using s by (auto simp: workload_answers_def workload_law_def intro: keeps_mono)
  note recover = going_read [OF d' this]
  let ?c = "if test_probe_runtime feat then Probe_Supervisor
    else if workload_native feat then Native_Supervisor ok else No_Supervisor"
  show "if wl_storage_ok svc then wp (act_read (wl_recover svc)) (\<lambda>_ d. Q (svc, ?c) d) E d'
      else Q (svc, ?c) d'"
    using s Q d' by (auto intro!: recover)
qed
lemma going_true:
  assumes "going M up w0 T C d" and "answers up f (\<lambda>r w. r \<longleftrightarrow> B w)" and "op_keeps M {} f" and "B (world d)"
    and "\<And>d'. going M up w0 T C d' \<Longrightarrow> Q True d'"
  shows "wp (act_read f) Q E d"
  by (rule going_read [OF assms(1,2) keeps_mono [OF assms(3)]]) (use assms(4,5) in auto)

lemma check_prerequisites_going:
  assumes law: "platform_law M P" and ans: "platform_answers M up pending P" and sp: "spaces_ok M sp"
    and d: "going M up w0 T C d" and fit: "fit M w0"
    and Q: "\<And>d'. going M up w0 T C d' \<Longrightarrow> Q () d'"
  shows "wp (check_prerequisites P sp boot) Q E d"
proof -
  note rd = readers_answer [OF platform_lawD(1) [OF law] platform_answersD(1) [OF ans]]
  note keeps = load_derived_keeps [of M, OF platform_lawD(2) [OF law]]
  have sp': "hardware_config sp = rd_space M Hardware" "agent_config_space sp = rd_space M Agent"
    "tls_config sp = rd_space M Tls" "wifi_config sp = rd_space M Wifi"
    using sp by (simp_all add: spaces_ok_def)
  have fits: "rd_wifi_ok M (rd_stored M Wifi (world d'))" "rd_tls_ok M (rd_stored M Tls (world d'))"
    "\<exists>sn. rd_stored M Hardware (world d') = Some sn \<and> hardware_schema_ok (data sn)"
    "provisioned_view (rd_stored M Agent (world d'))" if "going M up w0 T C d'" for d' :: "'a device"
    using that fit by (simp_all add: going_def kept_def fit_def)
  show ?thesis
    unfolding check_prerequisites_def prerequisites_ok_def wp_bind wp_if wp_return sp' wp_when
  proof (rule going_true [OF d platform_answersD(6) [OF ans] platform_lawD(9) [OF law]], rule fits(1) [OF d],
      simp only: not_True_eq_False if_False)
    fix d1 :: "'a device" assume d1: "going M up w0 T C d1"
    let ?no = "\<lambda>b d. if \<not> b then wp (act_seq (act_set_state St_Failed) (act_seq
      (act_when (boot = PendingVerify) (reject_pending (ota P))) (act_exit Panicked))) Q E d else Q () d"
    have last: "wp (act_read (is_provisioned (rd_space M Agent))) ?no E d'" if "going M up w0 T C d'" for d'
      by (rule going_true [OF that rd(3) keeps(3)], rule fits(4) [OF that]) (simp add: Q)
    show "wp (act_read (server_identity_valid P (rd_space M Tls)))
      (\<lambda>b d. if \<not> b then ?no False d else wp (act_read (is_configured (rd_space M Hardware)))
        (\<lambda>b d. if \<not> b then ?no False d else wp (act_read (is_provisioned (rd_space M Agent))) ?no E d) E d) E d1"
    proof (rule going_true [OF d1 platform_answersD(7) [OF ans] platform_lawD(10) [OF law]], rule fits(2) [OF d1],
        simp only: not_True_eq_False if_False)
      fix d2 :: "'a device" assume d2: "going M up w0 T C d2"
      show "wp (act_read (is_configured (rd_space M Hardware)))
        (\<lambda>b d. if \<not> b then ?no False d else wp (act_read (is_provisioned (rd_space M Agent))) ?no E d) E d2"
        by (rule going_true [OF d2 rd(2) keeps(2)], rule fits(3) [OF d2])
           (simp only: not_True_eq_False if_False last)
    qed
  qed
qed
lemma workload_guard_going:
  assumes wl: "workload_law M svc" "workload_answers up svc" and d: "going M up w0 T C d"
    and runs: "runs_workload feat M w0" and Q: "\<And>d'. going M up w0 T C d' \<Longrightarrow> Q () d'"
  shows "wp (workload_guard feat P svc boot) Q E d"
proof -
  have act: "fst (wl_active svc w) = rd_active M w" and sat: "wl_satisfies svc = rd_satisfies M" for w
    using wl(1) by (simp_all add: workload_law_def)
  have "fst (agent_can_run_active_workload feat svc w) \<longleftrightarrow> runs_workload feat M w" for w
    using act [of w] by (auto simp: agent_can_run_active_workload_def runs_workload_def sat
        split: prod.splits option.splits)
  moreover have same: "snd (agent_can_run_active_workload feat svc w) = snd (wl_active svc w)" for w
    by (simp add: agent_can_run_active_workload_def split: prod.split option.split)
  ultimately have ans: "answers up (agent_can_run_active_workload feat svc) (\<lambda>r w. r \<longleftrightarrow> runs_workload feat M w)"
    using wl(2) by (simp add: answers_def workload_answers_def)
  have keeps: "op_keeps M {} (agent_can_run_active_workload feat svc)"
    using wl(1) by (simp add: op_keeps_def workload_law_def same)
  have "runs_workload feat M (world d)"
    using d runs runs_kept [of M "{Ota}" w0 "world d" feat] by (simp add: going_def)
  then show ?thesis
    unfolding workload_guard_def wp_if wp_bind wp_when wp_return
    using Q d by (auto intro: going_true [OF d ans keeps])
qed

text \<open>After production is entered the lifecycle is new; what stays is that the device works.\<close>

definition serving :: "(task set \<Rightarrow> 'w \<Rightarrow> bool) \<Rightarrow> task set \<Rightarrow> call set \<Rightarrow> 'w device \<Rightarrow> bool" where
  "serving up T C d \<longleftrightarrow> up T (world d) \<and> C \<subseteq> set (calls d)"

lemma going_serving: "going M up w0 T C d \<Longrightarrow> serving up T C d"
  by (simp add: going_def serving_def)

lemma serving_call:
  assumes "serving up T C d" and "answers up f R"
    and "\<And>a d'. R a (world d) \<Longrightarrow> serving up T (insert c C) d' \<Longrightarrow> Q a d'"
  shows "wp (act_call c f) Q E d"
  unfolding wp_call
proof (rule assms(3))
  show "R (fst (f (world d))) (world d)"
    using assms(1,2) answersD(1) [of up f R T] by (simp add: serving_def)
  show "serving up T (insert c C) (d\<lparr>world := snd (f (world d)), calls := calls d @ [c]\<rparr>)"
    using assms(1,2) answersD(2) [of up f R T] by (auto simp: serving_def)
qed

lemma ota_answersD:
  assumes "ota_answers M up pending svc deadline"
  shows "answers up (svc_on_boot svc (rd_space M Ota)) (\<lambda>r w. br_status r \<noteq> BS_Rollback \<and>
       (br_status r = BS_PendingVerify \<longleftrightarrow> pending))"
    "answers up (svc_bootstrap_state svc (rd_space M Lifecycle)) (\<lambda>r w. is_ok r)"
    "answers up (svc_pending_check svc deadline) (\<lambda>r w. r = PC_Confirm)"
    "answers up (svc_confirm_pending svc (rd_space M Ota)) (\<lambda>r w. r \<noteq> Conf_ResetRequired)"
    "answers up (svc_production svc (rd_space M Lifecycle)) (\<lambda>r w. is_ok r)"
  using assms by (simp_all add: ota_answers_def)

lemma confirm_pending_going:
  assumes law: "ota_law M svc deadline" and ans: "ota_answers M up pending svc deadline"
    and feat: "\<not> fault_injection feat" "\<not> fault_injection_freeze feat" and d: "going M up w0 T C d"
    and Q: "\<And>d'. going M up w0 T (insert Confirm_Image C) d' \<Longrightarrow> Q () d'"
  shows "wp (confirm_pending feat svc deadline (rd_space M Ota)) Q E d"
  unfolding confirm_pending_def wp_if wp_bind
proof (simp only: feat if_False, rule going_call [OF d ota_answersD(3) [OF ans] ota_lawD(2) [OF law]])
  fix check d1
  assume check: "check = PC_Confirm" and d1: "going M up w0 T (insert (Pending_Check deadline) C) d1"
  show "wp (case check of
      PC_Confirm \<Rightarrow> act_seq (act_when False reset_for_rollback)
        (act_bind (act_call Confirm_Image (svc_confirm_pending svc (rd_space M Ota))) (\<lambda>conf. case conf of
          Conf_Valid \<Rightarrow> act_set_state St_Running | Conf_Degraded \<Rightarrow> act_set_state St_Degraded
        | Conf_ResetRequired \<Rightarrow> reset_for_rollback))
    | PC_Reject \<Rightarrow> act_seq (act_call Reject_Image (svc_reject_pending svc)) reset_for_rollback
    | PC_Reset \<Rightarrow> reset_now) Q E d1"
    unfolding check pending_check_action.case wp_seq wp_when wp_bind if_False
  proof (rule going_call [OF d1 ota_answersD(4) [OF ans] ota_lawD(3) [OF law]])
    fix conf d2
    assume "conf \<noteq> Conf_ResetRequired"
      and d2: "going M up w0 T (insert Confirm_Image (insert (Pending_Check deadline) C)) d2"
    have "Q () (set_state st d2)" for st
      by (rule Q) (use d2 in \<open>auto simp: going_def\<close>)
    then show "wp (case conf of Conf_Valid \<Rightarrow> act_set_state St_Running
        | Conf_Degraded \<Rightarrow> act_set_state St_Degraded | Conf_ResetRequired \<Rightarrow> reset_for_rollback) Q E d2"
      using \<open>conf \<noteq> Conf_ResetRequired\<close> by (cases conf) (simp_all add: wp_set_state)
  qed
qed

lemma lifecycle_gate_going:
  assumes law: "ota_law M (ota P) (selfcheck_deadline P)"
    and ans: "ota_answers M up pending (ota P) (selfcheck_deadline P)"
    and feat: "\<not> fault_injection feat" "\<not> fault_injection_freeze feat" and sp: "spaces_ok M sp"
    and d: "going M up w0 T C d" and lc: "lc = ReadyForAgent \<or> lc = Production"
    and Q: "\<And>d'. serving up T (C \<union> (if boot = PendingVerify then {Confirm_Image} else {}) \<union>
        (if lc = ReadyForAgent then {Enter_Production} else {})) d' \<Longrightarrow> Q () d'"
  shows "wp (lifecycle_gate feat P sp boot lc) Q E d"
proof -
  let ?C = "C \<union> (if boot = PendingVerify then {Confirm_Image} else {})"
  have confirm: "wp (act_when (boot = PendingVerify)
      (confirm_pending feat (ota P) (selfcheck_deadline P) (ota_config sp))) Q' E d"
    if "\<And>d'. going M up w0 T ?C d' \<Longrightarrow> Q' () d'" for Q'
    using that d sp confirm_pending_going [OF law ans feat d, of Q']
    by (auto simp: wp_when spaces_ok_def)
  show ?thesis
    using lc
  proof (elim disjE)
    assume ready: "lc = ReadyForAgent"
    show ?thesis
      unfolding lifecycle_gate_def Let_def ready bootstrap_state.case wp_seq
    proof (rule confirm, rule expect_ok)
      fix d' assume "going M up w0 T ?C d'"
      from serving_call [OF going_serving [OF this] ota_answersD(5) [OF ans]] Q ready sp
      show "wp (production (ota P) (lifecycle_config sp)) (\<lambda>r d'. is_ok r \<and> (\<forall>a. r = Ok a \<longrightarrow> Q a d')) E d'"
        by (simp add: production_def spaces_ok_def Un_assoc)
    qed
  next
    assume prod: "lc = Production"
    show ?thesis
      unfolding lifecycle_gate_def Let_def prod bootstrap_state.case
      by (rule confirm, rule Q) (use going_serving prod in auto)
  qed
qed
definition admitted_calls :: "bool \<Rightarrow> 'w reading \<Rightarrow> 'w \<Rightarrow> call set" where
  "admitted_calls pending M w =
     (if pending then {Confirm_Image} else {}) \<union>
     (if rd_life M (rd_stored M Lifecycle w) = Some ReadyForAgent then {Enter_Production} else {})"

lemma on_boot_going:
  assumes law: "ota_law M svc deadline" and ans: "ota_answers M up pending svc deadline"
    and d: "going M up w0 T C d"
    and Q: "\<And>d'. going M up w0 T C d' \<Longrightarrow> Q (if pending then PendingVerify else Stable) d'"
  shows "wp (on_boot svc (rd_space M Ota)) Q E d"
  unfolding on_boot_def wp_bind
proof (rule going_call [OF d ota_answersD(1) [OF ans] ota_lawD(1) [OF law]])
  fix r d'
  assume "br_status r \<noteq> BS_Rollback \<and> (br_status r = BS_PendingVerify \<longleftrightarrow> pending)"
    and d': "going M up w0 T (insert Read_Boot_Status C) d'"
  moreover have "going M up w0 T C (set_state st d')" for st
    using d' by (auto simp: going_def)
  ultimately show "wp (case br_status r of
      BS_PendingVerify \<Rightarrow> act_seq (act_set_state St_PendingVerify) (act_return PendingVerify)
    | BS_Rollback \<Rightarrow> act_seq (act_set_state St_Rollback) reset_for_rollback
    | BS_Degraded \<Rightarrow> act_seq (act_set_state St_Degraded) (act_return Stable)
    | BS_Stable \<Rightarrow> act_seq (act_set_state St_Running) (act_return Stable)) Q E d'"
    using Q by (cases "br_status r") (auto simp: wp_rules)
qed

lemma admission_going:
  assumes law: "platform_law M P" and ans: "platform_answers M up pending P"
    and feat: "\<not> fault_injection feat" "\<not> fault_injection_freeze feat" and sp: "spaces_ok M sp"
    and wl: "workload_law M svc" "workload_answers up svc" and d: "going M up w0 T C d"
    and boot: "bootable feat M w0"
    and Q: "\<And>d'. serving up T (C \<union> admitted_calls pending M w0) d' \<Longrightarrow> Q () d'"
  shows "wp (admission feat P sp svc) Q E d"
proof -
  note ol = platform_lawD(13) [OF law] and oa = platform_answersD(8) [OF ans]
  have spaces: "ota_config sp = rd_space M Ota" "lifecycle_config sp = rd_space M Lifecycle"
    using sp by (simp_all add: spaces_ok_def)
  have w0: "fit M w0" "runs_workload feat M w0"
    "rd_life M (rd_stored M Lifecycle w0) \<in> {Some ReadyForAgent, Some Production}"
    using boot by (simp_all add: bootable_def)
  let ?b = "if pending then PendingVerify else Stable"
  show ?thesis
    unfolding admission_def spaces wp_bind wp_seq
  proof (rule on_boot_going [OF ol oa d], rule expect_ok, unfold bootstrap_state_of_def)
    fix d1 assume d1: "going M up w0 T C d1"
    have ok: "answers up (svc_bootstrap_state (ota P) (rd_space M Lifecycle)) (\<lambda>r w. is_ok r \<and>
        (\<forall>s. r = Ok s \<longrightarrow> rd_life M (rd_stored M Lifecycle w) = Some s))"
      using ota_answersD(2) [OF oa] ota_lawD(6) [OF ol] by (auto simp: answers_def)
    show "wp (act_read (svc_bootstrap_state (ota P) (rd_space M Lifecycle)))
      (\<lambda>r d'. is_ok r \<and> (\<forall>lc. r = Ok lc \<longrightarrow> wp (check_prerequisites P sp ?b)
        (\<lambda>_. wp (workload_guard feat P svc ?b) (\<lambda>_. wp (lifecycle_gate feat P sp ?b lc) Q E) E) E d')) E d1"
    proof (rule going_read [OF d1 ok keeps_mono [OF ota_lawD(4) [OF ol]]], rule conjI, simp, intro allI impI)
      fix r d2 lc
      assume r: "is_ok r \<and> (\<forall>s. r = Ok s \<longrightarrow> rd_life M (rd_stored M Lifecycle (world d1)) = Some s)"
        "r = Ok lc" and d2: "going M up w0 T C d2"
      then have life: "rd_life M (rd_stored M Lifecycle w0) = Some lc"
        using d1 by (simp add: going_def kept_def)
      then have lc: "lc = ReadyForAgent \<or> lc = Production" using w0(3) by auto
      show "wp (check_prerequisites P sp ?b) (\<lambda>_. wp (workload_guard feat P svc ?b)
          (\<lambda>_. wp (lifecycle_gate feat P sp ?b lc) Q E) E) E d2"
        by (rule check_prerequisites_going [OF law ans sp d2 w0(1)], rule workload_guard_going [OF wl _ w0(2)],
            assumption, rule lifecycle_gate_going [OF ol oa feat sp _ lc], assumption, rule Q)
           (use life in \<open>auto simp: admitted_calls_def serving_def split: if_splits\<close>)
    qed
  qed
qed

section \<open>Serving\<close>

lemma serving_spawn:
  assumes sp: "spawns up spawn" and d: "serving up T C d" and t: "t \<notin> T"
    and Q: "\<And>d'. serving up (insert t T) (insert (Spawn t) C) d' \<Longrightarrow> Q () d'"
  shows "wp (act_spawn spawn t) Q E d"
proof (cases "spawn t (world d)")
  case (Pair r w)
  have "is_ok r" "up (insert t T) w"
    using sp d t Pair unfolding spawns_def serving_def by (metis fst_conv, metis snd_conv)
  moreover have "serving up (insert t T) (insert (Spawn t) C) (d\<lparr>world := w, calls := calls d @ [Spawn t]\<rparr>)"
    using d calculation by (auto simp: serving_def)
  ultimately show ?thesis
    using Q by (auto simp: wp_spawn Pair is_ok_iff)
qed

lemma serving_indicate:
  "serving up T C d \<Longrightarrow> (\<And>d'. serving up T C d' \<Longrightarrow> Q () d') \<Longrightarrow> wp (indicate st) Q E d"
  unfolding indicate_def by (rule serving_call [where R = "\<lambda>r w. True"])
    (auto simp: answers_def serving_def)

definition ip_services :: "task set" where
  "ip_services = {T_Http_Api, T_Time_Sync, T_Heartbeat, T_Log_Stream}"

lemma on_ip_ready_serving:
  assumes sp: "spawns up spawn" and d: "serving up T C d"
    and fresh: "\<not> ip_services_started self \<Longrightarrow> T \<inter> ip_services = {}"
    and run: "ip_services_started self \<Longrightarrow> Spawn ` ip_services \<subseteq> C"
    and Q: "\<And>self' T' d'. serving up T' (C \<union> Spawn ` ip_services) d' \<Longrightarrow> ip_services_started self' \<Longrightarrow> Q self' d'"
  shows "wp (on_ip_ready spawn self) Q E d"
proof (cases "ip_services_started self")
  case True
  then show ?thesis
    using run d Q [of T d self] by (simp add: on_ip_ready_def wp_return Un_absorb2)
next
  case False
  then have T: "T_Http_Api \<notin> T" "T_Time_Sync \<notin> T" "T_Heartbeat \<notin> T" "T_Log_Stream \<notin> T"
    using fresh by (auto simp: ip_services_def)
  show ?thesis
    unfolding on_ip_ready_def Let_def wp_if wp_seq wp_return if_not_P [OF False]
    by (rule serving_spawn [OF sp d T(1)], rule serving_spawn [OF sp], assumption, simp add: T,
        rule serving_spawn [OF sp], assumption, simp add: T, rule serving_spawn [OF sp], assumption,
        simp add: T, rule Q) (auto simp: ip_services_def serving_def)
qed
lemma link_events_serving:
  assumes sp: "spawns up (spawn_token P)"
  shows "serving up T C d \<Longrightarrow> (\<not> ip_services_started self \<Longrightarrow> T \<inter> ip_services = {}) \<Longrightarrow>
    (ip_services_started self \<Longrightarrow> Spawn ` ip_services \<subseteq> C) \<Longrightarrow>
    ip_services_started self \<or> Link_Ready \<in> set es \<Longrightarrow>
    (\<And>self' T' d'. serving up T' (C \<union> Spawn ` ip_services) d' \<Longrightarrow> Q self' d') \<Longrightarrow>
    wp (link_events P es self) Q E d"
proof (induction es arbitrary: self T C d Q)
  case Nil
  then show ?case by (simp add: wp_return Un_absorb2)
next
  case (Cons e es)
  note step = Cons.IH and d = Cons.prems(1) and inv = Cons.prems(2,3) and ready = Cons.prems(4) and Q = Cons.prems(5)
  show ?case
  proof (cases e)
    case Link_Down
    show ?thesis
      unfolding Link_Down link_events.simps wp_seq
      by (rule serving_indicate [OF d], rule step) (use inv ready Q Link_Down in auto)
  next
    case Link_Ready
    show ?thesis
      unfolding Link_Ready link_events.simps wp_bind wp_seq
    proof (rule on_ip_ready_serving [OF sp d inv])
      fix self' :: supervisor and T' d'
      assume d': "serving up T' (C \<union> Spawn ` ip_services) d'" and on: "ip_services_started self'"
      show "wp (indicate S_Online) (\<lambda>_. wp (link_events P es self') Q E) E d'"
        by (rule serving_indicate [OF d'], rule step) (use on Q in \<open>auto simp: Un_assoc\<close>)
    qed
  qed
qed
lemma serving_maybe_spawn:
  assumes "spawns up spawn" and "serving up T C d" and "t \<notin> T"
    and "\<And>T' d'. serving up T' C d' \<Longrightarrow> T' \<subseteq> insert t T \<Longrightarrow> Q () d'"
  shows "wp (act_when b (act_spawn spawn t)) Q E d"
proof (cases b)
  case True
  have "wp (act_spawn spawn t) Q E d"
    by (rule serving_spawn [OF assms(1-3)], rule assms(4)) (auto simp: serving_def)
  then show ?thesis using True by (simp add: wp_when)
next
  case False
  then show ?thesis using assms(4) [OF assms(2)] by (auto simp: wp_when)
qed

lemma serving_step:
  assumes "serving up T C d" and "answers up f R"
    and "\<And>a d'. R a (world d) \<Longrightarrow> serving up T C d' \<Longrightarrow> Q a d'"
  shows "wp (act_call c f) Q E d"
  by (rule serving_call [OF assms(1,2)], rule assms(3)) (auto simp: serving_def)

lemma maintained:
  assumes sp: "spawns up (spawn_token P)" and d: "serving up T C d"
    and T: "T \<subseteq> {T_Reconcile, T_Support, T_Selftest} \<union> range T_Led" and ev: "Link_Ready \<in> set events"
  shows "wp (link_events P events supervisor_new)
      (\<lambda>_. wp (indicate S_Failed) (\<lambda>_. wp (act_exit Idles) Q
        (\<lambda>e d'. e = Idles \<and> C \<union> Spawn ` ip_services \<subseteq> set (calls d'))) E) E' d"
proof (rule link_events_serving [OF sp d])
  show "\<not> ip_services_started supervisor_new \<Longrightarrow> T \<inter> ip_services = {}"
    using T by (auto simp: ip_services_def)
  show "ip_services_started supervisor_new \<Longrightarrow> Spawn ` ip_services \<subseteq> C"
    by (simp add: supervisor_new_def)
  show "ip_services_started supervisor_new \<or> Link_Ready \<in> set events" using ev ..
  fix self' :: supervisor and T' d'
  assume "serving up T' (C \<union> Spawn ` ip_services) d'"
  then show "wp (indicate S_Failed) (\<lambda>_. wp (act_exit Idles) Q
      (\<lambda>e d'. e = Idles \<and> C \<union> Spawn ` ip_services \<subseteq> set (calls d'))) E d'"
    by (rule serving_indicate) (simp add: wp_exit serving_def)
qed

lemma serve_agent_serving:
  assumes ans: "platform_answers M up pending P" and sp: "spaces_ok M sp"
    and d: "serving up T C d" and T: "T \<subseteq> range T_Led"
  shows "wp (serve_agent feat P sp svc) Q
    (\<lambda>e d'. e = Idles \<and> C \<union> Spawn ` ip_services \<subseteq> set (calls d')) d"
proof -
  note spawn = platform_answersD(4) [OF ans]
  have wifi: "wifi_config sp = rd_space M Wifi" using sp by (simp add: spaces_ok_def)
  have inv: "T' \<subseteq> insert T_Selftest (insert T_Support (insert T_Reconcile T)) \<Longrightarrow>
      T' \<subseteq> {T_Reconcile, T_Support, T_Selftest} \<union> range T_Led" for T'
    using T by auto
  show ?thesis
    unfolding serve_agent_def wp_seq wp_bind wifi
    apply (rule serving_maybe_spawn [OF spawn d])
    using T apply blast
    apply (rule serving_maybe_spawn [OF spawn], assumption)
    using T apply blast
    apply (rule serving_step [OF _ platform_answersD(9) [OF ans]], assumption)
    apply (rule serving_maybe_spawn [OF spawn], assumption)
    using T apply blast
    apply (rule serving_step [OF _ platform_answersD(10) [OF ans]], assumption)
    apply (rule serving_indicate, assumption)
    apply (rule serving_step [OF _ platform_answersD(11) [OF ans]], assumption)
    apply (rule maintained [OF spawn], assumption, rule inv)
     apply blast
    apply assumption
    done
qed
section \<open>The boot comes up\<close>

lemma agent_main_going:
  assumes law: "platform_law M P" and ans: "platform_answers M up pending P"
    and feat: "\<not> fault_injection feat" "\<not> fault_injection_freeze feat"
    and up: "up {} (world d)" and boot: "bootable feat M (world d)"
  shows "wp (agent_main feat P) Q (\<lambda>e d'. e = Idles \<and>
    admitted_calls pending M (world d) \<union> Spawn ` ip_services \<subseteq> set (calls d')) d"
    (is "wp _ _ ?E d")
proof -
  let ?w0 = "world d"
  have ok: "runtime_ok (rd_stored M Runtime ?w0)" "led_ok (rd_stored M Hardware ?w0)"
    using boot by (simp_all add: bootable_def)
  have served: "wp (admission feat P sp svc) (\<lambda>_. wp (serve_agent feat P sp svc) Q ?E) ?E d'"
    if "spaces_ok M sp" "workload_law M svc" "workload_answers up svc" "going M up ?w0 T {} d'"
      "T \<subseteq> range T_Led" for sp svc T d'
    by (rule admission_going [OF law ans feat that(1-4) boot],
        rule wp_mono [OF serve_agent_serving [OF ans that(1) _ that(5)]]) auto
  have started: "wp (claim_spaces P) (\<lambda>sp. wp (act_seq (start_led P sp)
      (act_seq (admission feat P sp svc) (serve_agent feat P sp svc))) Q ?E) ?E d'"
    if "workload_law M svc" "workload_answers up svc" "going M up ?w0 {} {} d'" for svc d'
    by (rule claim_spaces_going [OF law ans that(3) ok(1)], simp only: wp_seq,
        rule start_led_going [OF law ans _ _ ok(2)], assumption+, simp only: wp_seq, rule served)
       (use that in auto)
  have d: "going M up ?w0 {} {} (d\<lparr>calls := cs\<rparr>)" for cs
    using up by (simp add: going_def)
  have nvs: "wp (act_expect (act_read (nvs_new P))) Q' E d'"
    if "going M up ?w0 {} {} d'" "\<And>a d''. going M up ?w0 {} {} d'' \<Longrightarrow> Q' a d''" for Q' E d'
    by (rule expect_ok, rule going_read [OF that(1) platform_answersD(2) [OF ans]
          keeps_mono [OF platform_lawD(3) [OF law]]]) (use that(2) in auto)
  show ?thesis
    unfolding agent_main_def Let_def wp_seq wp_bind
    unfolding wp_call fst_conv snd_conv
    by (rule nvs, simp add: up going_def, rule workload_init_going [OF law ans], assumption,
        simp only: prod.case wp_bind, rule started)
qed

lemma agent_comes_up:
  assumes "platform_law M P" and "platform_answers M up pending P"
    and "\<not> fault_injection feat" and "\<not> fault_injection_freeze feat"
    and "up {} (world d)" and "bootable feat M (world d)" and "calls d = []"
  shows "\<exists>d'. agent_main feat P d = (Exits Idles, d') \<and> device_state d' \<in> {St_Running, St_Degraded} \<and>
    Spawn ` ip_services \<subseteq> set (calls d') \<and> Reject_Image \<notin> set (calls d') \<and>
    (pending \<longrightarrow> Confirm_Image \<in> set (calls d')) \<and>
    (rd_life M (rd_stored M Lifecycle (world d)) = Some ReadyForAgent \<longrightarrow> Enter_Production \<in> set (calls d'))"
proof -
  obtain out d' where run: "agent_main feat P d = (out, d')" by force
  have "case out of Returns a \<Rightarrow> False | Exits e \<Rightarrow> e = Idles \<and>
      admitted_calls pending M (world d) \<union> Spawn ` ip_services \<subseteq> set (calls d')"
    using wp_run [OF agent_main_going [where Q = "\<lambda>_ _. False", OF assms(1-6)] run] .
  then have idle: "out = Exits Idles" and made: "admitted_calls pending M (world d) \<subseteq> set (calls d')"
    "Spawn ` ip_services \<subseteq> set (calls d')"
    by (auto split: outcome.splits)
  have post: "boot_post feat M d Idles d'" using agent_main_law [OF assms(1) run] idle by auto
  show ?thesis
    using post assms(7)
  proof (rule boot_parts)
    fix pre dec srv
    assume rej: "Reject_Image \<in> set dec \<Longrightarrow> Idles = Rollback_Reset \<and> Confirm_Image \<notin> set dec \<and> srv = []"
      and st: "srv \<noteq> [] \<or> Idles = Idles \<Longrightarrow> fit M (world d) \<and> device_state d' \<in> {St_Running, St_Degraded} \<and>
        rd_life M (rd_stored M Lifecycle (world d)) \<in> {Some ReadyForAgent, Some Production}"
      and iff: "\<And>c. decision c \<Longrightarrow> c \<in> set (calls d') \<longleftrightarrow> c \<in> set dec"
    have "Reject_Image \<notin> set (calls d')" using iff [of Reject_Image] rej by auto
    with run idle made st show ?thesis by (auto simp: admitted_calls_def)
  qed
qed

text \<open>
  C6: a device that should run the image runs it. On a fit device whose lifecycle allows it, with
  an LED pin the chip has and a runtime configuration that decodes, and while the platform's
  operations succeed, the boot neither panics nor resets nor rolls back: it reaches the Wi-Fi
  maintenance loop with the API, the clock, the heartbeat and the log stream running, in state
  \<open>Running\<close> or \<open>Degraded\<close>; a pending image was confirmed; and a device that was \<open>ReadyForAgent\<close>
  entered production.
\<close>

theorem fit_device_comes_up:
  assumes "platform_law M P" and "platform_answers M up pending P"
    and "\<not> fault_injection feat" and "\<not> fault_injection_freeze feat"
    and "up {} (world d)" and "bootable feat M (world d)" and "calls d = []"
  shows "\<exists>d'. agent_main feat P d = (Exits Idles, d') \<and> device_state d' \<in> {St_Running, St_Degraded} \<and>
    Spawn ` ip_services \<subseteq> set (calls d') \<and> Reject_Image \<notin> set (calls d') \<and>
    (pending \<longrightarrow> Confirm_Image \<in> set (calls d')) \<and>
    (rd_life M (rd_stored M Lifecycle (world d)) = Some ReadyForAgent \<longrightarrow> Enter_Production \<in> set (calls d'))"
  by (rule agent_comes_up [OF assms])
definition ram_up :: "task set \<Rightarrow> ram \<Rightarrow> bool" where
  "ram_up T w \<longleftrightarrow> faults w = []"

lemma demo_answers: "platform_answers demo_reading ram_up True demo_platform"
proof -
  have load: "fst (load (ram_space n) w) = Ok (cells w n)" "snd (load (ram_space n) w) = w"
    if "faults w = []" for n w using that by (simp_all add: ram_load)
  have commit: "fst (svc_production demo_ota (ram_space Lifecycle) w) = Ok ()"
    "faults (snd (svc_production demo_ota (ram_space Lifecycle) w)) = []" if "faults w = []" for w
    using that by (simp_all add: demo_ota_def ram_commit)
  have life: "is_ok (fst (svc_bootstrap_state demo_ota (ram_space Lifecycle) w))"
    "snd (svc_bootstrap_state demo_ota (ram_space Lifecycle) w) = w" if "faults w = []" for w
    using that by (simp_all add: demo_ota_def ram_load split: option.split)
  have ota: "ota_answers demo_reading ram_up True demo_ota 15000"
    unfolding ota_answers_def answers_def ram_up_def
    using commit life by (simp add: demo_reading_def) (simp add: demo_ota_def)
  show ?thesis
    unfolding platform_answers_def
    using ota load
    by (auto simp: answers_def ram_up_def demo_platform_def spawns_def workload_answers_def demo_workload_def
        demo_reading_def)
qed

lemma demo_bootable: "bootable production_features demo_reading demo_ram"
proof -
  have c: "cells demo_ram Wifi \<noteq> None" "cells demo_ram Tls \<noteq> None" "cells demo_ram Lifecycle = None"
    "cells demo_ram Runtime = None" "cells demo_ram Hardware = Some \<lparr>data = hardware_encode None, generation = 1\<rparr>"
    by (simp_all add: demo_ram_def bare_ram_def ram_with_def)
  have "agent_view (cells demo_ram Agent) = Some sample_config"
    by (simp add: demo_ram_def ram_with_def agent_view_def agent_config_decode_layout sample_config_valid)
  then have "provisioned_view (cells demo_ram Agent)"
    by (simp add: provisioned_view_def) (simp add: sample_config_def)
  with c have "fit demo_reading demo_ram"
    by (simp add: fit_def demo_reading_def hardware_encode_ok)
  moreover have "runs_workload production_features demo_reading demo_ram"
    by (simp add: runs_workload_def demo_reading_def RUNTIME_API_def production_features_def)
  ultimately show ?thesis
    using c by (simp add: bootable_def) (simp add: demo_reading_def led_ok_def runtime_ok_def hardware_decode_encode)
qed

theorem fit_device_comes_up_witness:
  "\<exists>d'. agent_main production_features demo_platform (powered demo_ram) = (Exits Idles, d') \<and>
     Confirm_Image \<in> set (calls d') \<and> Enter_Production \<in> set (calls d') \<and> Spawn T_Heartbeat \<in> set (calls d')"
proof -
  have feat: "\<not> fault_injection production_features" "\<not> fault_injection_freeze production_features"
    by (simp_all add: production_features_def)
  have "ram_up {} (world (powered demo_ram))" "bootable production_features demo_reading (world (powered demo_ram))"
    using demo_bootable by (simp_all add: ram_up_def demo_ram_def bare_ram_def ram_with_def)
  from fit_device_comes_up [OF demo_platform_law demo_answers feat this]
  have "\<exists>d'. agent_main production_features demo_platform (powered demo_ram) = (Exits Idles, d') \<and>
    Spawn ` ip_services \<subseteq> set (calls d') \<and> Confirm_Image \<in> set (calls d') \<and>
    (rd_life demo_reading (rd_stored demo_reading Lifecycle demo_ram) = Some ReadyForAgent \<longrightarrow>
      Enter_Production \<in> set (calls d'))" by auto
  moreover have "rd_life demo_reading (rd_stored demo_reading Lifecycle demo_ram) = Some ReadyForAgent"
    by (simp add: demo_reading_def demo_ram_def bare_ram_def ram_with_def ram_empty_def)
  ultimately show ?thesis by (auto simp: ip_services_def)
qed

end
