(* ===== verification/Power_Recovery.thy ===== *)
theory Power_Recovery
  imports Device_Life Boot_Liveness
begin

text \<open>
  Recovery from a failure of the power: a boot of the agent image that is cut off leaves a device
  on which the next one can do everything again, and a boot that stays has stored \<open>Production\<close>.
  \<open>main.rs\<close> relies on both: the transition to production is completed on the next boot when it
  was not reached.
\<close>

section \<open>What a cut boot leaves\<close>

text \<open>
  Beyond \<open>agent_life_law\<close>: arming the rollback writes the OTA service's own space at most, and
  starting TLS and maintaining the Wi-Fi link write none.
\<close>

definition quiet_boot_law :: "'w reading \<Rightarrow> 'w platform \<Rightarrow> bool" where
  "quiet_boot_law M P \<longleftrightarrow>
     agent_life_law M P \<and> op_keeps M {Ota} (svc_reject_pending (ota P)) \<and> op_keeps M {} (tls_init P) \<and>
     op_keeps M {} (wifi_construct P (rd_space M Wifi)) \<and> op_keeps M {} (wifi_maintain P (rd_space M Wifi))"

lemma bootable_survives: "survives M {Ota} (bootable feat M)"
  unfolding survives_def by (intro allI impI) (rule iffD2 [OF bootable_kept])

lemma bootable_production:
  assumes "ota_law M svc deadline" and "moves_to M Production (svc_production svc (rd_space M Lifecycle))"
  shows "maintains (bootable feat M) (svc_production svc (rd_space M Lifecycle))"
  unfolding maintains_def
proof (intro allI impI)
  fix w assume w: "bootable feat M w"
  let ?w' = "snd (svc_production svc (rd_space M Lifecycle) w)"
  have k: "kept M {Lifecycle} w ?w'"
    by (rule kept_op [OF ota_lawD(5) [OF assms(1)]])
  moreover have "rd_life M (rd_stored M Lifecycle ?w') \<in> {Some ReadyForAgent, Some Production}"
    using assms(2) w unfolding moves_to_def bootable_def by (metis insertCI)
  ultimately show "bootable feat M ?w'"
    using w by (auto simp: bootable_def fit_def runs_workload_def kept_def)
qed

lemma bootable_invariant:
  assumes law: "quiet_boot_law M P"
  shows "boot_invariant M P (bootable feat M)"
proof -
  note sv = bootable_survives [of M feat]
  have "platform_law M P" "moves_to M Production (svc_production (ota P) (rd_space M Lifecycle))"
    using law by (simp_all add: quiet_boot_law_def agent_life_law_def)
  then have "maintains (bootable feat M) (svc_production (ota P) (rd_space M Lifecycle))"
    using bootable_production [OF platform_lawD(13)] by blast
  with law show ?thesis
    by (auto simp: quiet_boot_law_def agent_life_law_def boot_invariant_def sv intro: maintains_op [OF sv])
qed

definition cut_boot :: "features \<Rightarrow> 'w platform \<Rightarrow> nat \<Rightarrow> 'w \<Rightarrow> 'w" where
  "cut_boot feat P n w = fst (world (snd (agent_main feat (cut_platform P) (powered (w, n)))))"

lemma cut_boot_bootable:
  assumes "quiet_boot_law M P" and "bootable feat M w"
  shows "bootable feat M (cut_boot feat P n w)"
proof -
  obtain out c where "agent_main feat (cut_platform P) (powered (w, n)) = (out, c)" by force
  with keeps_run [OF keeps_agent_main [OF cut_boot_invariant [OF bootable_invariant [OF assms(1)]]], of feat
      "powered (w, n)"] assms(2)
  show ?thesis by (simp add: cut_boot_def)
qed

interpretation cuts: step_invariant "cut_boot feat P" "\<lambda>w. quiet_boot_law M P \<and> bootable feat M w" "\<lambda>_. True"
  for feat P M
  by unfold_locales (simp add: cut_boot_bootable)

section \<open>A boot that stays\<close>

lemma serving_in_production:
  assumes law: "agent_life_law M P" and sp: "spaces_ok M sp" and d: "in_life M {Production} (world d)"
  shows "wp (serve_agent feat P sp workload) (\<lambda>_ d'. in_life M {Production} (world d'))
    (\<lambda>e d'. in_life M {Production} (world d')) d"
proof -
  have "boot_invariant M P (in_life M {Production})"
    by (rule agent_life_invariant [OF law]) simp
  from keeps_serve_agent [OF this sp] d show ?thesis by (simp add: keeps_def)
qed

lemma idle_in_production:
  assumes law: "agent_life_law M P"
  shows "wp (agent_main feat P) (\<lambda>_ _. True) (\<lambda>e d'. e = Idles \<longrightarrow> in_life M {Production} (world d')) d"
proof -
  have plat: "platform_law M P" using law by (simp add: agent_life_law_def)
  let ?E = "\<lambda>e d'. e = Idles \<longrightarrow> in_life M {Production} (world d')"
  have early: "wp m Q ?E d'" if "early_phase M R m" "\<And>a d''. R a \<Longrightarrow> Q a d''"
    for m :: "('a, 'b) act" and Q R d'
    by (rule wp_mono [OF phase_run [OF that(1)]]) (use that(2) in auto)
  have serve: "wp (serve_agent feat P sp wl) (\<lambda>_ _. True) ?E d'"
    if "spaces_ok M sp" "in_life M {Production} (world d')" for sp wl d'
    by (rule wp_mono [OF serving_in_production [OF law that]]) simp_all
  have admitted: "wp (act_seq (admission feat P sp wl) (serve_agent feat P sp wl)) (\<lambda>_ _. True) ?E d'"
    if "spaces_ok M sp" "workload_law M wl" for sp wl d'
    unfolding wp_seq
    by (rule wp_mono [OF admission_law [OF plat that]])
       (use serve [OF that(1)] in \<open>auto simp: in_life_def gate_exit_def\<close>)
  have nvs: "early_phase M (\<lambda>_. True) (act_expect (act_read (nvs_new P)))"
    using platform_lawD(3) [OF plat] by (intro early_phase_expect early_phase_read) auto
  show ?thesis
    unfolding agent_main_def Let_def wp_seq [of "act_call _ _"] wp_call wp_bind
  proof (rule early [OF nvs], rule early [OF workload_init_early [OF plat]], clarsimp)
    fix wl control and d1 :: "'a device" assume wl: "workload_law M wl"
    show "wp (act_bind (claim_spaces P) (\<lambda>sp. act_seq (start_led P sp)
        (act_seq (admission feat P sp wl) (serve_agent feat P sp wl)))) (\<lambda>_ _. True) ?E d1"
      unfolding wp_bind [of "claim_spaces _"] wp_seq [of "start_led _ _"]
      by (rule early [OF claim_spaces_early [OF plat]], rule early [OF start_led_early [OF plat]],
          assumption, rule admitted [OF _ wl])
  qed
qed
section \<open>Property\<close>


lemma demo_quiet_boot: "quiet_boot_law demo_reading demo_platform"
proof -
  have "moves_to demo_reading Production (svc_production demo_ota (ram_space Lifecycle))"
    by (auto simp: moves_to_def demo_reading_def demo_ota_def ram_space_def Let_def)
  then show ?thesis
    using demo_platform_law
    by (simp add: quiet_boot_law_def agent_life_law_def spares_def op_keeps_def)
       (simp add: demo_platform_def demo_reading_def demo_ota_def)
qed

lemma demo_cut_boot:
  assumes "faults w = []"
  shows "cut_boot production_features demo_platform 2 w = w"
  by (simp add: cut_boot_def agent_main_def workload_init_def cut_platform_def demo_platform_def claim_spaces_def
      claim_space_def act_seq_def act_bind_def act_expect_def act_read_def act_call_def act_when_def act_return_def
      act_exit_def cut_read_def cut_try_def cut_op_def cut_workload_def demo_workload_def numeral_2_eq_2 Let_def)


end
