(* ===== verification/Spawn_Once.thy ===== *)
theory Spawn_Once
  imports Boot_Init
begin

text \<open>
  Task slots. An \<open>embassy\<close> task has one slot: \<open>spawner.spawn(task(...).unwrap())\<close> panics on a task
  that is still running, and none of the tasks of the two images ends. So a boot must not spawn a
  task twice, whatever the platform answers and however often the link comes back.
\<close>

section \<open>Slots\<close>

text \<open>The LED task has one slot for all pins.\<close>

definition slot_of :: "task \<Rightarrow> task" where
  "slot_of t = (case t of T_Led _ \<Rightarrow> T_Led 0 | _ \<Rightarrow> t)"

fun spawned :: "call list \<Rightarrow> task list" where
  "spawned [] = []"
| "spawned (Spawn t # cs) = slot_of t # spawned cs"
| "spawned (_ # cs) = spawned cs"

fun is_spawn :: "call \<Rightarrow> bool" where
  "is_spawn (Spawn _) = True"
| "is_spawn _ = False"

lemma spawned_append [simp]: "spawned (cs @ cs') = spawned cs @ spawned cs'"
  by (induction cs rule: spawned.induct) simp_all

lemma spawned_other [simp]: "\<not> is_spawn c \<Longrightarrow> spawned [c] = []"
  by (cases c) simp_all

text \<open>No slot was used twice, and those of \<open>S\<close> at most.\<close>

definition slots_in :: "task set \<Rightarrow> 'w device \<Rightarrow> bool" where
  "slots_in S d \<longleftrightarrow> distinct (spawned (calls d)) \<and> set (spawned (calls d)) \<subseteq> S"

definition spawns_in :: "task set \<Rightarrow> task set \<Rightarrow> ('w, 'a) act \<Rightarrow> bool" where
  "spawns_in S T m \<longleftrightarrow>
     (\<forall>d. slots_in S d \<longrightarrow> wp m (\<lambda>_ d'. slots_in T d') (\<lambda>_ d'. slots_in T d') d)"

named_theorems spawn_rules "actions and the task slots they use"

lemma spawns_in_bind:
  assumes "spawns_in S T m" and "\<And>a. spawns_in T U (f a)" and "T \<subseteq> U"
  shows "spawns_in S U (act_bind m f)"
  unfolding spawns_in_def wp_bind
proof (intro allI impI)
  fix d :: "'a device" assume "slots_in S d"
  then have "wp m (\<lambda>_ d'. slots_in T d') (\<lambda>_ d'. slots_in T d') d"
    using assms(1) by (simp add: spawns_in_def)
  then show "wp m (\<lambda>a. wp (f a) (\<lambda>_ d'. slots_in U d') (\<lambda>_ d'. slots_in U d')) (\<lambda>_ d'. slots_in U d') d"
    by (rule wp_mono) (use assms(2,3) in \<open>auto simp: spawns_in_def slots_in_def\<close>)
qed

lemma spawns_in_seq: "spawns_in S T m \<Longrightarrow> spawns_in T U n \<Longrightarrow> T \<subseteq> U \<Longrightarrow> spawns_in S U (act_seq m n)"
  unfolding act_seq_def by (rule spawns_in_bind)

lemma spawns_in_spawn: "slot_of t \<notin> S \<Longrightarrow> spawns_in S (insert (slot_of t) S) (act_spawn spawn t)"
  unfolding spawns_in_def slots_in_def by (auto simp: wp_rules split: prod.split result.split)

text \<open>Actions that spawn nothing.\<close>

lemma no_spawn_bind [spawn_rules]:
  "spawns_in S S m \<Longrightarrow> (\<And>a. spawns_in S S (f a)) \<Longrightarrow> spawns_in S S (act_bind m f)"
  by (rule spawns_in_bind [OF _ _ order.refl])

lemma no_spawn_seq [spawn_rules]: "spawns_in S S m \<Longrightarrow> spawns_in S S n \<Longrightarrow> spawns_in S S (act_seq m n)"
  by (rule spawns_in_seq [OF _ _ order.refl])

lemma no_spawn_basic [spawn_rules]:
  "spawns_in S S (act_return a)" "spawns_in S S (act_exit e)" "spawns_in S S (act_read f)"
  "spawns_in S S (act_set_state st)"
  by (simp_all add: spawns_in_def slots_in_def wp_rules set_state_def)

lemma no_spawn_call [spawn_rules]: "\<not> is_spawn c \<Longrightarrow> spawns_in S S (act_call c g)"
  by (simp add: spawns_in_def slots_in_def wp_rules)

lemma no_spawn_when [spawn_rules]: "spawns_in S S m \<Longrightarrow> spawns_in S S (act_when b m)"
  by (auto simp: spawns_in_def wp_rules)

lemma no_spawn_expect [spawn_rules]: "spawns_in S S m \<Longrightarrow> spawns_in S S (act_expect m)"
  unfolding act_expect_def by (intro no_spawn_bind) (auto intro: no_spawn_basic split: result.split)

lemma no_spawn_if [spawn_rules]: "spawns_in S S m \<Longrightarrow> spawns_in S S n \<Longrightarrow> spawns_in S S (if b then m else n)"
  by simp

lemma spawns_in_when: "spawns_in S T m \<Longrightarrow> S \<subseteq> T \<Longrightarrow> spawns_in S T (act_when b m)"
  by (auto simp: spawns_in_def wp_rules slots_in_def)

lemma spawns_in_leave: "S \<subseteq> T \<Longrightarrow> spawns_in S T (act_return a)" "S \<subseteq> T \<Longrightarrow> spawns_in S T (act_exit e)"
  by (auto simp: spawns_in_def wp_rules slots_in_def)

section \<open>The agent image\<close>

lemma no_spawn_claims: "spawns_in S S (claim_spaces P)" "spawns_in S S (init_claim_spaces P)"
  unfolding claim_spaces_def init_claim_spaces_def claim_space_def by (intro spawn_rules is_spawn.simps(2-); simp)+

lemma no_spawn_reject: "spawns_in S S (reject_pending svc)"
  unfolding reject_pending_def reset_for_rollback_def by (intro spawn_rules) simp

lemma no_spawn_confirm: "spawns_in S S (confirm_pending feat svc deadline space)"
  unfolding confirm_pending_def reset_for_rollback_def reset_now_def
  by (auto intro!: spawn_rules split: pending_check_action.split confirmation.split)

lemma no_spawn_admission: "spawns_in S S (admission feat P sp workload)"
proof -
  have "spawns_in S S (on_boot svc space)" for svc space
    unfolding on_boot_def reset_for_rollback_def by (auto intro!: spawn_rules split: boot_status.split)
  moreover have "spawns_in S S (lifecycle_gate feat P sp boot lc)" for boot lc
    unfolding lifecycle_gate_def Let_def production_def
    by (cases lc) (auto intro!: spawn_rules no_spawn_confirm no_spawn_reject)
  ultimately show ?thesis
    unfolding admission_def check_prerequisites_def workload_guard_def prerequisites_ok_def bootstrap_state_of_def
    by (auto intro!: spawn_rules no_spawn_reject)
qed

lemma start_led_slot: "T_Led 0 \<notin> S \<Longrightarrow> spawns_in S (insert (T_Led 0) S) (start_led P sp)"
  unfolding start_led_def
  by (rule spawns_in_bind [OF no_spawn_basic(3)])
     (auto intro!: spawns_in_leave spawns_in_spawn [where t = "T_Led _", unfolded slot_of_def task.case]
       split: option.split)

text \<open>The four services have their slots free until the first \<open>ready\<close>, and are never asked for again.\<close>

definition service_slots :: "task set" where
  "service_slots = {T_Http_Api, T_Time_Sync, T_Heartbeat, T_Log_Stream}"

lemma on_ip_ready_slots:
  assumes "S \<inter> service_slots = {}"
  shows "spawns_in (if ip_services_started self then S \<union> service_slots else S) (S \<union> service_slots)
    (on_ip_ready spawn self)"
    "wp (on_ip_ready spawn self) (\<lambda>self' _. ip_services_started self') (\<lambda>_ _. True) d"
proof -
  show "wp (on_ip_ready spawn self) (\<lambda>self' _. ip_services_started self') (\<lambda>_ _. True) d"
    by (rule wp_mono [OF on_ip_ready_spec]) simp_all
  have slots: "S \<union> service_slots = insert T_Log_Stream (insert T_Heartbeat (insert T_Time_Sync (insert T_Http_Api S)))"
    by (auto simp: service_slots_def)
  have one: "spawns_in T (insert t T) (act_spawn spawn t)" if "t \<in> service_slots" "t \<notin> T" for t T
    using spawns_in_spawn [of t T spawn] that by (auto simp: service_slots_def slot_of_def)
  show "spawns_in (if ip_services_started self then S \<union> service_slots else S) (S \<union> service_slots)
    (on_ip_ready spawn self)"
    unfolding on_ip_ready_def Let_def slots
    using assms
    by (auto simp: service_slots_def intro!: no_spawn_basic spawns_in_seq one)
qed

lemma link_events_slots:
  assumes S: "S \<inter> service_slots = {}"
  shows "spawns_in (if ip_services_started self then S \<union> service_slots else S) (S \<union> service_slots)
    (link_events P es self)"
proof (induction es arbitrary: self)
  case Nil
  show ?case by (auto intro!: spawns_in_leave)
next
  case (Cons e es)
  show ?case
  proof (cases e)
    case Link_Down
    have "spawns_in T T (indicate S_Connecting)" for T
      by (simp add: indicate_def no_spawn_call)
    from spawns_in_seq [OF this Cons.IH [of self]] show ?thesis
      by (auto simp: Link_Down split: if_splits)
  next
    case Link_Ready
    note up = on_ip_ready_slots [OF S]
    have rest: "spawns_in (S \<union> service_slots) (S \<union> service_slots) (act_seq (indicate S_Online) (link_events P es self'))"
      if "ip_services_started self'" for self'
      using Cons.IH [of self'] that by (auto simp: indicate_def intro!: no_spawn_seq no_spawn_call)
    show ?thesis
      unfolding Link_Ready link_events.simps spawns_in_def wp_bind
    proof (intro allI impI)
      fix d :: "'a device" assume "slots_in (if ip_services_started self then S \<union> service_slots else S) d"
      then have "wp (on_ip_ready (spawn_token P) self) (\<lambda>_ d'. slots_in (S \<union> service_slots) d')
          (\<lambda>_ d'. slots_in (S \<union> service_slots) d') d"
        by (rule up(1) [unfolded spawns_in_def, rule_format])
      from wp_conj [OF this up(2)]
      show "wp (on_ip_ready (spawn_token P) self)
          (\<lambda>a. wp (act_seq (indicate S_Online) (link_events P es a)) (\<lambda>_ d'. slots_in (S \<union> service_slots) d')
            (\<lambda>_ d'. slots_in (S \<union> service_slots) d')) (\<lambda>_ d'. slots_in (S \<union> service_slots) d') d"
        by (rule wp_mono) (use rest in \<open>auto simp: spawns_in_def\<close>)
    qed
  qed
qed

lemma serve_agent_slots:
  "spawns_in {T_Led 0} ({T_Led 0, T_Reconcile, T_Support, T_Selftest} \<union> service_slots)
     (serve_agent feat P sp workload)"
proof -
  have maybe: "spawns_in S (insert t S) (act_when b (act_spawn (spawn_token P) t))"
    if "slot_of t = t" "t \<notin> S" for b t S
    using spawns_in_spawn [of t S "spawn_token P"] that by (auto intro: spawns_in_when)
  let ?T = "{T_Selftest, T_Support, T_Reconcile, T_Led 0}"
  have free: "?T \<inter> service_slots = {}" by (auto simp: service_slots_def)
  have links: "spawns_in ?T (?T \<union> service_slots) (link_events P es supervisor_new)" for es
    using link_events_slots [OF free, of supervisor_new P es] by (simp add: supervisor_new_def)
  have "spawns_in {T_Led 0} (?T \<union> service_slots) (serve_agent feat P sp workload)"
    unfolding serve_agent_def indicate_def
    by (rule spawns_in_seq [OF maybe], simp add: slot_of_def, simp,
        rule spawns_in_seq [OF maybe], simp add: slot_of_def, simp,
        rule spawns_in_seq [OF no_spawn_call], simp,
        rule spawns_in_seq [OF maybe], simp add: slot_of_def, simp,
        rule spawns_in_seq [OF no_spawn_call], simp,
        rule spawns_in_seq [OF no_spawn_call], simp,
        rule spawns_in_bind [OF no_spawn_call], simp,
        rule spawns_in_bind [OF links], intro spawn_rules)
       (auto simp: service_slots_def)
  then show ?thesis by (simp add: insert_commute)
qed
section \<open>Property\<close>

lemma agent_main_slots:
  "spawns_in {} ({T_Led 0, T_Reconcile, T_Support, T_Selftest} \<union> service_slots) (agent_main feat P)"
    (is "spawns_in {} ?T _")
proof -
  have run: "spawns_in {} ?T (act_seq (start_led P sp)
      (act_seq (admission feat P sp wl) (serve_agent feat P sp wl)))" for sp wl
    by (intro spawns_in_seq [OF start_led_slot] spawns_in_seq [OF no_spawn_admission serve_agent_slots]) auto
  have nvs: "spawns_in {} {} (act_expect (act_read (nvs_new P)))"
    by (intro spawn_rules)
  have wl: "spawns_in {} {} (workload_init feat (workload_probe P) ok)" for ok
    unfolding workload_init_def by (intro spawn_rules)
  have claimed: "spawns_in {} ?T (act_bind (claim_spaces P) (\<lambda>sp. act_seq (start_led P sp)
      (act_seq (admission feat P sp svc) (serve_agent feat P sp svc))))" for svc
    by (rule spawns_in_bind [OF no_spawn_claims(1) run]) simp
  show ?thesis
    unfolding agent_main_def Let_def
    by (rule spawns_in_seq [OF no_spawn_call], simp, rule spawns_in_bind [OF nvs],
        rule spawns_in_bind [OF wl]) (use claimed in \<open>auto split: prod.splits\<close>)
qed

lemma init_main_slots: "spawns_in {} {T_Http_Provisioning} (init_main I)"
proof -
  let ?I = "\<lambda>self. slots_in (if ip_services_started self then {T_Http_Provisioning} else {})"
  let ?X = "\<lambda>_. slots_in {T_Http_Provisioning}"
  have ready: "wp (on_network_ready spawn self) ?I ?X d" if "?I self d" for spawn self d
    using that by (auto simp: on_network_ready_def Let_def wp_rules slots_in_def slot_of_def
        split: prod.split result.split if_splits)
  have world: "slots_in T (d\<lparr>world := w\<rparr>) = slots_in T d" for T d and w :: 'a
    by (simp add: slots_in_def)
  have port: "port_keeps (init_improv I) ?I ?X"
    unfolding port_keeps_def init_improv_def
    by (simp only: wp_rules world improv_env.simps simp_thms) (use ready in blast)
  have improv: "wp (serve_improv I self) (\<lambda>_. slots_in {T_Http_Provisioning}) ?X d" if "?I self d" for self d
  proof -
    have "?I self (d\<lparr>calls := calls d @ [Serve_Improv]\<rparr>)" using that by (simp add: slots_in_def)
    note run = improv_run_keeps [OF port this]
    show ?thesis
      unfolding serve_improv_def
      by (simp add: wp_rules, rule wp_mono [OF run]) (auto simp: wp_rules slots_in_def split: if_splits)
  qed
  have fresh: "?I supervisor_new d" if "slots_in {} d" for d
    using that by (simp add: supervisor_new_def)
  have served: "spawns_in {} {T_Http_Provisioning} (act_bind (if network
      then on_network_ready (spawn_token (ip_base I)) supervisor_new else act_return supervisor_new) (serve_improv I))"
    for network
    unfolding spawns_in_def
    using fresh improv by (auto simp: wp_rules intro!: wp_mono [OF ready] improv)
  have serve: "spawns_in {} {T_Http_Provisioning} (serve_init I sp)" for sp
    unfolding serve_init_def act_ask_def
    by (rule spawns_in_seq [OF no_spawn_call], simp, rule spawns_in_bind [OF no_spawn_call], simp,
        rule spawns_in_bind [OF no_spawn_if [OF no_spawn_basic(3,1)] served]) simp_all
  have enter: "spawns_in {} {} (enter_provisioning svc lc)" for svc and lc :: "'a config_space"
    unfolding enter_provisioning_def begin_provisioning_def bootstrap_state_of_def
    by (auto intro!: spawn_rules split: bootstrap_state.split)
  have identity: "spawns_in {} {} (establish_identity I sp)" for sp
    unfolding establish_identity_def by (intro spawn_rules) simp_all
  have image: "spawns_in {} {} (factory_agent env)" for env
    unfolding factory_agent_def by (auto intro!: spawn_rules split: option.split)
  have nvs: "spawns_in {} {} (act_expect (act_read (nvs_new (ip_base I))))"
    by (intro spawn_rules)
  show ?thesis
    unfolding init_main_def
    by (rule spawns_in_bind [OF nvs], rule spawns_in_bind [OF no_spawn_claims(2)], rule spawns_in_seq [OF enter],
        rule spawns_in_seq [OF identity], rule spawns_in_bind [OF image serve]) simp_all
qed

text \<open>
  C11: no task is ever asked for twice. Whatever the platform answers in a boot, whatever is stored,
  whatever features are on, and however often the Wi-Fi link goes down and comes back, the agent
  image spawns each of its tasks at most once, the LED task included for all its pins, and the
  init image spawns nothing but the provisioning server, once at most. So no spawn fails because
  the task is already running.
\<close>

theorem no_task_spawned_twice:
  "distinct (spawned (calls (snd (agent_main feat P (powered w))))) \<and>
   set (spawned (calls (snd (agent_main feat P (powered w))))) \<subseteq>
     {T_Led 0, T_Reconcile, T_Support, T_Selftest, T_Http_Api, T_Time_Sync, T_Heartbeat, T_Log_Stream} \<and>
   spawned (calls (snd (init_main I (powered w)))) \<in> {[], [T_Http_Provisioning]}"
proof -
  have start: "slots_in {} (powered w)" by (simp add: slots_in_def)
  have end_state: "slots_in T (snd (m (powered w)))" if "spawns_in {} T m" for T and m :: "('a, unit) act"
  proof (cases "m (powered w)")
    case (Pair r d')
    then show ?thesis
      using that start by (cases r) (fastforce simp: spawns_in_def wp_def)+
  qed
  have once: "xs \<in> {[], [t]}" if "distinct xs" "set xs \<subseteq> {t}" for xs and t :: task
    using that by (cases xs; cases "tl xs") auto
  from end_state [OF agent_main_slots [of feat P]] once end_state [OF init_main_slots [of I]]
  show ?thesis by (auto simp: slots_in_def service_slots_def)
qed

end
