(* ===== verification/Form_Text.thy ===== *)
theory Form_Text
  imports Http_Config
begin

text \<open>
  The pages of the form are text. Rust's types promise that every \<open>str\<close> and \<open>String\<close> is UTF-8; the
  model's byte lists do not, so that the pages are is shown: replacing an ASCII placeholder and
  escaping keep UTF-8, and the texts the pages are made of come from configurations that were
  validated when they were decoded.
\<close>

section \<open>UTF-8 is kept\<close>

lemma utf8_next_take: "utf8_next bs = Some n \<Longrightarrow> utf8_next (take n bs) = Some n"
  by (auto simp: utf8_next_def numeral_eq_Suc split: list.splits if_splits)

lemma utf8_step:
  assumes "utf8 bs" and "bs \<noteq> []"
  obtains n where "utf8_next bs = Some n" "0 < n" "n \<le> length bs" "utf8 (drop n bs)" "utf8 (take n bs)"
proof -
  obtain cs where "utf8_chars bs = Some cs" using assms(1) by (auto simp: utf8_def)
  then obtain n ds where n: "utf8_next bs = Some n" "utf8_chars (drop n bs) = Some ds"
    using assms(2) by (cases rule: utf8_chars_SomeE) auto
  have "utf8_chars (take n bs) = Some [take n bs]"
    using utf8_chars_step [OF utf8_next_take [OF n(1)]] utf8_next_bounds [OF n(1)] by simp
  with n show thesis
    using that [of n] utf8_next_bounds [of bs n] by (simp add: utf8_def)
qed

lemma utf8_concat: "list_all utf8 xs \<Longrightarrow> utf8 (concat xs)"
  by (induction xs) (simp_all add: utf8_append)

lemma utf8_chars_text: "utf8_chars bs = Some cs \<Longrightarrow> list_all utf8 cs"
proof (induction bs arbitrary: cs rule: utf8_chars.induct)
  case (1 bs)
  from "1.prems" show ?case
  proof (cases rule: utf8_chars_SomeE)
    case (2 n ds)
    have "bs \<noteq> []" "utf8 bs" using 2(1) "1.prems" by (auto simp: utf8_next_def utf8_def)
    then have "utf8 (take n bs)" using utf8_step [of bs] 2(1) by fastforce
    moreover have "list_all utf8 ds"
      using "1.IH" [OF _ 2(1,2)] utf8_next_bounds [OF 2(1)] \<open>bs \<noteq> []\<close> by simp
    ultimately show ?thesis using 2(3) by simp
  qed simp
qed

lemma utf8_escape: "utf8 s \<Longrightarrow> utf8 (html_escape s)"
proof -
  assume "utf8 s"
  then obtain cs where cs: "utf8_chars s = Some cs" by (auto simp: utf8_def)
  have "utf8 (escape_char c)" if "utf8 c" for c
    using that by (auto simp: escape_char_def lit_def intro!: ascii_utf8)
  then have "list_all utf8 (map escape_char cs)"
    using utf8_chars_text [OF cs] by (auto simp: list_all_iff)
  then show ?thesis using cs by (simp add: html_escape_def chars_def utf8_concat)
qed

text \<open>
  Replacing an ASCII pattern: the bytes of a longer character never start a match, and the bytes
  still to be skipped are ASCII, so a match covers whole characters.
\<close>

lemma high_not_ascii: "list_all (\<lambda>b. 0x80 \<le> b) (take n bs) \<Longrightarrow> 0 < n \<Longrightarrow> bs \<noteq> [] \<Longrightarrow> ascii (take k bs) \<Longrightarrow> k = 0"
  by (cases bs; cases n; cases k) (auto simp: ascii_def)

lemma replace_high:
  assumes pat: "ascii pat" "pat \<noteq> []"
  shows "list_all (\<lambda>b. 0x80 \<le> b) xs \<Longrightarrow> replace_from pat to 0 (xs @ ys) = xs @ replace_from pat to 0 ys"
proof (induction xs)
  case (Cons x xs)
  have "\<not> starts_with (x # xs @ ys) pat"
    using Cons.prems pat by (cases pat) (auto simp: starts_with_def)
  with Cons show ?case by simp
qed simp

lemma utf8_replace_from:
  assumes pat: "ascii pat" "pat \<noteq> []" and to: "utf8 to"
  shows "utf8 s \<Longrightarrow> ascii (take k s) \<Longrightarrow> utf8 (replace_from pat to k s)"
proof (induction "length s" arbitrary: s k rule: less_induct)
  case less
  show ?case
  proof (cases s)
    case (Cons b bs)
    obtain n where n: "utf8_next s = Some n" "0 < n" "n \<le> length s" "utf8 (drop n s)" "utf8 (take n s)"
      using utf8_step [OF less.prems(1)] Cons by auto
    show ?thesis
      using utf8_next_bytes [OF n(1)]
    proof (elim disjE conjE)
      assume one: "n = 1" "hd s < 0x80"
      then have rest: "utf8 bs" using n(4) Cons by simp
      show ?thesis
      proof (cases k)
        case (Suc j)
        then show ?thesis using less.hyps [of bs j] less.prems(2) rest Cons by simp
      next
        case 0
        show ?thesis
        proof (cases "starts_with s pat")
          case True
          then have "ascii (take (length pat - 1) bs)"
            using pat Cons by (cases pat) (auto simp: starts_with_def)
          then show ?thesis
            using less.hyps [of bs "length pat - 1"] rest Cons 0 True to by (simp add: utf8_append)
        next
          case False
          have "utf8 ([b] @ replace_from pat to 0 bs)"
            using less.hyps [of bs 0] rest Cons one(2) by (intro utf8_append [OF ascii_utf8]) simp_all
          then show ?thesis using False Cons 0 by simp
        qed
      qed
    next
      assume long: "1 < n" "list_all (\<lambda>b. 0x80 \<le> b) (take n s)"
      then have k: "k = 0" using high_not_ascii [OF long(2)] less.prems(2) Cons by simp
      have "replace_from pat to 0 (take n s @ drop n s) = take n s @ replace_from pat to 0 (drop n s)"
        by (rule replace_high [OF pat long(2)])
      moreover have "utf8 (replace_from pat to 0 (drop n s))"
        using less.hyps [of "drop n s" 0] n by simp
      ultimately show ?thesis using n(5) k by (simp add: utf8_append)
    qed
  qed simp
qed

lemma utf8_replace: "ascii pat \<Longrightarrow> pat \<noteq> [] \<Longrightarrow> utf8 s \<Longrightarrow> utf8 to \<Longrightarrow> utf8 (str_replace s pat to)"
  unfolding str_replace_def by (rule utf8_replace_from) simp_all

section \<open>The pages\<close>

definition templates_text :: "templates \<Rightarrow> bool" where
  "templates_text T \<longleftrightarrow> utf8 (INDEX_TEMPLATE T) \<and> utf8 (CONFIRM_TEMPLATE T) \<and> utf8 (LOCKED_PAGE T)"

lemma lit_text: "ascii (lit cs) \<Longrightarrow> utf8 (lit cs)"
  by (rule ascii_utf8)

lemma e_acute: "utf8 [0xC3, 0xA9]" "utf8 [0xC3, 0x89]" "utf8 [0xC3, 0xA0]" "utf8 [39]" "utf8 [39, 0xC3, 0xA9]"
  by (simp_all add: utf8_def utf8_chars_step utf8_next_def utf8_lead2_def utf8_cont_def)

lemma fmt_dec_text: "utf8 (fmt_dec n)"
proof -
  have "b < 0x80" if "is_ascii_digit b" for b
    using that by (auto simp: is_ascii_digit_def word_le_nat_alt word_less_nat_alt)
  then have "ascii (fmt_dec n)"
    using fmt_dec_digits [of n] by (auto simp: ascii_def list_all_iff)
  then show ?thesis by (rule ascii_utf8)
qed

named_theorems text_rules "texts that are UTF-8"

lemmas [text_rules] = utf8_append utf8_concat lit_text e_acute fmt_dec_text utf8_Nil utf8_escape

lemma message_text: "utf8 txt \<Longrightarrow> utf8 (message_html txt is_error)"
  unfolding message_html_def Let_def by (intro text_rules) (auto simp: lit_def intro!: ascii_utf8)

lemma messages_text:
  "utf8 bad_pin_message" "utf8 write_failed_message" "utf8 bad_image_message"
  "utf8 lifecycle_failed_message" "utf8 activation_failed_message"
  unfolding bad_pin_message_def write_failed_message_def bad_image_message_def
    lifecycle_failed_message_def activation_failed_message_def
  by (intro message_text text_rules; simp add: lit_def)+

lemma led_options_text: "utf8 (led_options gpio pins)"
proof -
  have sel: "utf8 (selected b)" for b
    by (simp add: selected_def lit_def ascii_utf8)
  have label: "utf8 disabled_label"
    unfolding disabled_label_def by (intro text_rules; simp add: lit_def)
  have "utf8 (lit ''<option value=\"'' @ fmt_dec (unat g) @ lit ''\"'' @ selected (gpio = Some g) @
      lit ''>'' @ fmt_dec (unat g) @ lit ''</option>'')" for g
    by (intro text_rules sel; simp add: lit_def)
  then have "list_all utf8 (map (\<lambda>g. lit ''<option value=\"'' @ fmt_dec (unat g) @ lit ''\"'' @
      selected (gpio = Some g) @ lit ''>'' @ fmt_dec (unat g) @ lit ''</option>'') pins)"
    by (simp add: list_all_iff)
  then show ?thesis
    unfolding led_options_def by (intro text_rules sel label; (assumption | simp add: lit_def))
qed

lemma page_text:
  assumes "templates_text T" and "utf8 nid" and "utf8 url" and "\<And>m. message = Some m \<Longrightarrow> utf8 m"
  shows "utf8 (page T gpio nid url message pins)"
proof -
  have pats: "ascii (lit ''{{OPTIONS}}'')" "ascii (lit ''{{MESSAGE}}'')" "ascii (lit ''{{NODE_ID}}'')"
    "ascii (lit ''{{CTRL_URL}}'')" "lit ''{{OPTIONS}}'' \<noteq> []" "lit ''{{MESSAGE}}'' \<noteq> []"
    "lit ''{{NODE_ID}}'' \<noteq> []" "lit ''{{CTRL_URL}}'' \<noteq> []"
    by (simp_all add: lit_def)
  have "utf8 (case message of None \<Rightarrow> [] | Some m \<Rightarrow> m)"
    using assms(4) by (cases message) simp_all
  then show ?thesis
    unfolding page_def Let_def
    using assms(1-3) by (intro utf8_replace pats led_options_text utf8_escape) (simp_all add: templates_text_def)
qed

lemma confirm_text: "templates_text T \<Longrightarrow> utf8 t \<Longrightarrow> utf8 (confirm_page T t)"
  unfolding confirm_page_def
  by (intro utf8_replace utf8_escape) (simp_all add: templates_text_def lit_def)

text \<open>What is read of the agent's configuration is text, whatever bytes its space holds.\<close>

lemma load_config_valid: "load_config space w = (Ok c, w') \<Longrightarrow> agent_config_valid c"
proof -
  have "x = Some y" if "ok_or x e = Ok y" for x :: "agent_config option" and e :: agent_config_error and y
    using that by (cases x) simp_all
  then show "load_config space w = (Ok c, w') \<Longrightarrow> agent_config_valid c"
    using agent_config_default_valid
    by (auto simp: load_config_def dest: agent_config_decode_valid
        split: prod.splits result.splits option.splits)
qed

lemma config_texts:
  "utf8 (fst (token space w))" "utf8 (fst (ctrl_url space w))"
  "utf8 hardware_id \<Longrightarrow> utf8 (fst (node_id space hardware_id w))"
proof -
  obtain r w' where run: "load_config space w = (r, w')" by force
  have "utf8 (lit ''embewi-'')" by (simp add: lit_def ascii_utf8)
  then show "utf8 (fst (token space w))" "utf8 (fst (ctrl_url space w))"
    "utf8 hardware_id \<Longrightarrow> utf8 (fst (node_id space hardware_id w))"
    using run load_config_valid [of space w _ w']
    by (cases r; simp add: token_def ctrl_url_def node_id_def agent_config_valid_def utf8_append)+
qed

section \<open>Properties\<close>

lemma any_maintains: "maintains (\<lambda>_. True) f"
  by (simp add: maintains_def)

lemma any_keeps: "keeps (\<lambda>_. True) (\<lambda>_. True) m"
  by (auto simp: keeps_def wp_def split: prod.split outcome.split)

definition form_texts :: "'w form_server \<Rightarrow> bool" where
  "form_texts F \<longleftrightarrow> templates_text (fs_templates F) \<and> utf8 (fs_hardware_id F)"

lemma form_error_text:
  "form_texts F \<Longrightarrow> form_text form \<Longrightarrow> utf8 message \<Longrightarrow> utf8 (body (form_error F form code gpio message))"
  by (auto simp: form_error_def form_texts_def form_text_def intro!: page_text)

lemma get_form_text:
  assumes "form_texts F"
  shows "keeps (\<lambda>_. True) (\<lambda>r. utf8 (body r)) (get_form F)"
proof -
  have read: "keeps (\<lambda>_. True) (\<lambda>t. utf8 t) (act_read (node_id (fs_agent F) (fs_hardware_id F)))"
    "keeps (\<lambda>_. True) (\<lambda>t. utf8 t) (act_read (ctrl_url (fs_agent F)))"
    using assms by (auto intro!: keeps_read any_maintains config_texts simp: form_texts_def)
  show ?thesis
    unfolding get_form_def
    using assms
    by (auto intro!: keeps_bind_any [OF any_keeps] keeps_bind [OF read(1)] keeps_bind [OF read(2)] keeps_return
        page_text simp: form_texts_def locked_response_def templates_text_def)
qed

lemma post_form_text:
  assumes F: "form_texts F" and form: "form_text form"
  shows "keeps (\<lambda>_. True) (\<lambda>r. utf8 (body r)) (post_form F form)"
proof -
  have tok: "keeps (\<lambda>_. True) (\<lambda>t. utf8 t) (act_read (token (fs_agent F)))"
    by (intro keeps_read any_maintains config_texts)
  have confirm: "utf8 (confirm_page (fs_templates F) t)" if "utf8 t" for t
    using F that by (simp add: form_texts_def confirm_text)
  have finish: "keeps (\<lambda>_. True) (\<lambda>r. utf8 (body r)) (finish_form F form gpio)" for gpio
    unfolding finish_form_def
  proof (rule keeps_bind [OF tok])
    fix t :: bytes assume t: "utf8 t"
    show "keeps (\<lambda>_. True) (\<lambda>r. utf8 (body r)) (act_bind (stage_preloaded (fs_factory F) (fs_factory_agent F))
        (\<lambda>r. if is_err r then act_return (form_error F form INTERNAL_SERVER_ERROR gpio bad_image_message)
          else advance_form F form gpio t))"
      unfolding advance_form_def activate_form_def
      by (auto intro!: keeps_bind_any [OF any_keeps] keeps_seq any_keeps keeps_return
          form_error_text [OF F form] messages_text confirm t)
  qed
  show ?thesis
    unfolding post_form_def Let_def
    using F
    by (auto intro!: keeps_bind_any [OF any_keeps] form_error_text [OF F form] messages_text finish keeps_return
        simp: form_texts_def locked_response_def templates_text_def)
qed

lemma keeps_returns: "keeps (\<lambda>_. True) P m \<Longrightarrow> m d = (Returns a, d') \<Longrightarrow> P a"
  by (auto simp: keeps_def wp_def dest!: spec [of _ d])



text \<open>
  The placeholders are substituted one after the other, so a node id that spells a later one is
  substituted too: the page shows the controller's URL in its place.
\<close>

lemma node_id_may_be_substituted:
  "page \<lparr>INDEX_TEMPLATE = lit ''[{{NODE_ID}}]'', CONFIRM_TEMPLATE = [], LOCKED_PAGE = []\<rparr>
     None (lit ''{{CTRL_URL}}'') (lit ''u'') None [] = lit ''[u]''"
proof -
  have esc: "html_escape (lit ''{{CTRL_URL}}'') = lit ''{{CTRL_URL}}''" "html_escape (lit ''u'') = lit ''u''"
    by (simp_all add: html_escape_bytes ascii_utf8 lit_def escape_byte_simps)
  show ?thesis
    unfolding page_def Let_def esc by (simp add: str_replace_def starts_with_def lit_def)
qed

end
