(* ===== verification/Probe_Runtime.thy ===== *)
theory Probe_Runtime
  imports Rust_Std Runs
begin

text \<open>
  \<open>src/workload/probe_runtime.rs\<close> (feature \<open>test-probe-runtime\<close>): the runtime backend that runs
  one observable task. The module's statics are one record; the task and the operation that waits
  for it are interleaved by the executor, which polls the task whenever its timer has expired.
  Time is in milliseconds; the artifact reader and the header's parser are parameters.
\<close>

section \<open>The statics and the task\<close>

text \<open>The faults a header can ask for; \<open>PF_None\<close> is none.\<close>

datatype probe_fault =
    PF_None | FailStart | FreezeAfterStart | HealthFail | ResetOnStart | ResetOnStop

text \<open>
  The task: spawned and not polled yet, or asleep until \<open>wake\<close>. Its slot is busy in both cases.
\<close>

datatype probe_task =
    Spawned (tk_period: u32) (tk_fault: probe_fault)
  | Asleep (tk_period: u32) (tk_fault: probe_fault) (tk_ticks: u32) (tk_wake: nat)

record 'i probe =
  pr_CURRENT :: "('i \<times> probe_fault) option"
  pr_ALIVE :: bool
  pr_STOP :: bool
  pr_COUNTER :: u32
  pr_LAST_PROGRESS_MS :: u32
  pr_PERIOD_MS :: u32
  pr_task :: "probe_task option"
  pr_now :: nat

text \<open>The statics at boot.\<close>

definition probe_boot :: "nat \<Rightarrow> 'i probe" where
  "probe_boot t = \<lparr>pr_CURRENT = None, pr_ALIVE = False, pr_STOP = False, pr_COUNTER = 0,
     pr_LAST_PROGRESS_MS = 0, pr_PERIOD_MS = 500, pr_task = None, pr_now = t\<rparr>"

definition now_ms :: "'i probe \<Rightarrow> u32" where
  "now_ms s = of_nat (pr_now s)"

text \<open>The head of the loop: leave when told to stop, else sleep for a period.\<close>

definition probe_loop_head :: "u32 \<Rightarrow> probe_fault \<Rightarrow> u32 \<Rightarrow> 'i probe \<Rightarrow> 'i probe" where
  "probe_loop_head period fault n s =
     (if pr_STOP s then s\<lparr>pr_ALIVE := False, pr_task := None\<rparr>
      else s\<lparr>pr_task := Some (Asleep period fault n (pr_now s + unat period))\<rparr>)"

text \<open>The body: a tick, which counts unless the fault froze the task.\<close>

definition probe_tick :: "u32 \<Rightarrow> probe_fault \<Rightarrow> u32 \<Rightarrow> 'i probe \<Rightarrow> 'i probe" where
  "probe_tick period fault n s =
     (let n' = n + 1;
          frozen = (fault = FreezeAfterStart \<and> n' > 4);
          s' = (if \<not> frozen
                then s\<lparr>pr_COUNTER := pr_COUNTER s + 1, pr_LAST_PROGRESS_MS := now_ms s\<rparr> else s)
      in probe_loop_head period fault n' s')"

text \<open>What the executor does with the task when it gets to run.\<close>

definition probe_poll :: "'i probe \<Rightarrow> 'i probe" where
  "probe_poll s = (case pr_task s of
     None \<Rightarrow> s
   | Some (Spawned period fault) \<Rightarrow>
       probe_loop_head period fault 0 (s\<lparr>pr_ALIVE := True, pr_LAST_PROGRESS_MS := now_ms s\<rparr>)
   | Some (Asleep period fault n wake) \<Rightarrow>
       if wake \<le> pr_now s then probe_tick period fault n s else s)"

text \<open>\<open>Timer::after\<close> of the caller: it yields, and the task runs whenever it is due meanwhile.\<close>

primrec probe_elapse :: "nat \<Rightarrow> 'i probe \<Rightarrow> 'i probe" where
  "probe_elapse 0 s = s"
| "probe_elapse (Suc n) s = probe_elapse n (probe_poll (s\<lparr>pr_now := pr_now s + 1\<rparr>))"

definition timer_after :: "nat \<Rightarrow> 'i probe \<Rightarrow> 'i probe" where
  "timer_after ms s = probe_elapse ms (probe_poll s)"

section \<open>The operations\<close>

text \<open>An operation returns, or the fault resets the device inside it.\<close>

datatype 'a probe_outcome = Finished 'a | Device_Reset

primrec await_exit :: "nat \<Rightarrow> 'i probe \<Rightarrow> 'i probe" where
  "await_exit 0 s = s"
| "await_exit (Suc n) s = (if \<not> pr_ALIVE s then s else await_exit n (timer_after 20 s))"

definition stop_inner :: "'i probe \<Rightarrow> unit probe_outcome \<times> 'i probe" where
  "stop_inner s =
     (let current = pr_CURRENT s;
          s1 = s\<lparr>pr_CURRENT := None\<rparr>
      in if pr_ALIVE s1 then
           (let s2 = await_exit 100 (s1\<lparr>pr_STOP := True\<rparr>)
            in case current of
                 Some (identity, ResetOnStop) \<Rightarrow> (Device_Reset, timer_after 300 s2)
               | _ \<Rightarrow> (Finished (), s2))
         else (Finished (), s1))"

primrec await_start :: "nat \<Rightarrow> 'i probe \<Rightarrow> bool \<times> 'i probe" where
  "await_start 0 s = (False, s)"
| "await_start (Suc n) s = (if pr_ALIVE s then (True, s) else await_start n (timer_after 10 s))"

text \<open>The reasons of \<open>RuntimeError\<close>; a read error keeps the reader's own.\<close>

datatype runtime_error = Read_Failed | Not_A_Probe_Artifact | Fault_Start_Fails | Task_Slot_Busy | Task_Did_Not_Start

text \<open>A header, as \<open>ProbeHeader::parse\<close> returns it: period and fault.\<close>

type_synonym probe_header = "u16 \<times> probe_fault"

definition probe_spawn ::
  "'i \<Rightarrow> probe_header \<Rightarrow> 'i probe \<Rightarrow> (unit, runtime_error) result \<times> 'i probe" where
  "probe_spawn artifact header s =
     (case header of (period_ms, fault) \<Rightarrow>
      let s1 = s\<lparr>pr_COUNTER := 0, pr_STOP := False, pr_PERIOD_MS := ucast period_ms,
                 pr_CURRENT := Some (artifact, fault)\<rparr>
      in if pr_task s1 \<noteq> None then (Err Task_Slot_Busy, s1)
         else case await_start 100 (s1\<lparr>pr_task := Some (Spawned (ucast period_ms) fault)\<rparr>) of
                (True, s2) \<Rightarrow> (Ok (), s2)
              | (False, s2) \<Rightarrow> (Err Task_Did_Not_Start, s2\<lparr>pr_CURRENT := None\<rparr>))"

definition probe_start ::
  "'i \<Rightarrow> (bytes, unit) result \<Rightarrow> (bytes \<Rightarrow> probe_header option) \<Rightarrow> 'i probe
   \<Rightarrow> (unit, runtime_error) result probe_outcome \<times> 'i probe" where
  "probe_start artifact head parse s =
     (case stop_inner s of
        (Device_Reset, s1) \<Rightarrow> (Device_Reset, s1)
      | (Finished _, s1) \<Rightarrow>
          (case head of
             Err _ \<Rightarrow> (Finished (Err Read_Failed), s1)
           | Ok bs \<Rightarrow>
               (case parse bs of
                  None \<Rightarrow> (Finished (Err Not_A_Probe_Artifact), s1)
                | Some header \<Rightarrow>
                    (case snd header of
                       FailStart \<Rightarrow> (Finished (Err Fault_Start_Fails), s1)
                     | ResetOnStart \<Rightarrow> (Device_Reset, timer_after 300 s1)
                     | _ \<Rightarrow> (case probe_spawn artifact header s1 of (r, s2) \<Rightarrow> (Finished r, s2))))))"

definition probe_stop :: "'i probe \<Rightarrow> unit probe_outcome \<times> 'i probe" where
  "probe_stop s = stop_inner s"

datatype workload_health = Unknown | Healthy | Unhealthy

definition probe_health :: "'i probe \<Rightarrow> workload_health" where
  "probe_health s = (case pr_CURRENT s of
     None \<Rightarrow> Unknown
   | Some (identity, fault) \<Rightarrow>
       if \<not> pr_ALIVE s then Unknown
       else if fault = HealthFail then Unhealthy
       else
         let window = max (pr_PERIOD_MS s * 3) 2000
         in if now_ms s - pr_LAST_PROGRESS_MS s \<le> window then Healthy else Unhealthy)"

definition probe_running :: "'i probe \<Rightarrow> 'i option" where
  "probe_running s = (if \<not> pr_ALIVE s then None else map_option fst (pr_CURRENT s))"
section \<open>A task told to stop\<close>

text \<open>Until its timer expires nothing happens; then it leaves.\<close>

lemma elapse_sleeping:
  assumes "pr_task s = Some (Asleep p f n wake)" and "pr_now s + k < wake"
  shows "probe_elapse k s = s\<lparr>pr_now := pr_now s + k\<rparr>"
  using assms
proof (induction k arbitrary: s)
  case (Suc k)
  have "probe_poll (s\<lparr>pr_now := pr_now s + 1\<rparr>) = s\<lparr>pr_now := pr_now s + 1\<rparr>"
    using Suc.prems by (simp add: probe_poll_def)
  then show ?case using Suc.prems Suc.IH [of "s\<lparr>pr_now := pr_now s + 1\<rparr>"] by simp
qed simp

lemma timer_sleeping:
  "pr_task s = Some (Asleep p f n wake) \<Longrightarrow> pr_now s + k < wake \<Longrightarrow> timer_after k s = s\<lparr>pr_now := pr_now s + k\<rparr>"
  by (simp add: timer_after_def probe_poll_def elapse_sleeping)

lemma elapse_idle: "pr_task s = None \<Longrightarrow> probe_elapse k s = s\<lparr>pr_now := pr_now s + k\<rparr>"
  by (induction k arbitrary: s) (simp_all add: probe_poll_def)

lemma timer_idle: "pr_task s = None \<Longrightarrow> timer_after k s = s\<lparr>pr_now := pr_now s + k\<rparr>"
  by (simp add: timer_after_def probe_poll_def elapse_idle)

text \<open>Dropping what a last tick counts, the task leaves and only it.\<close>

definition left_from :: "'i probe \<Rightarrow> 'i probe \<Rightarrow> bool" where
  "left_from s s' \<longleftrightarrow> pr_task s' = None \<and> \<not> pr_ALIVE s' \<and> pr_STOP s' \<and>
     pr_CURRENT s' = pr_CURRENT s \<and> pr_PERIOD_MS s' = pr_PERIOD_MS s \<and> pr_now s \<le> pr_now s'"

lemma poll_leaves:
  "pr_task s = Some (Asleep p f n wake) \<Longrightarrow> pr_STOP s \<Longrightarrow> wake \<le> pr_now s \<Longrightarrow> left_from s (probe_poll s)"
  by (simp add: probe_poll_def probe_tick_def probe_loop_head_def left_from_def Let_def)

lemma elapse_leaves:
  "pr_task s = Some (Asleep p f n wake) \<Longrightarrow> pr_STOP s \<Longrightarrow> pr_now s < wake \<Longrightarrow> wake \<le> pr_now s + k \<Longrightarrow>
   left_from s (probe_elapse k s)"
proof (induction k arbitrary: s)
  case (Suc k)
  let ?s = "s\<lparr>pr_now := pr_now s + 1\<rparr>"
  show ?case
  proof (cases "wake = pr_now s + 1")
    case True
    then have "left_from ?s (probe_poll ?s)" using Suc.prems by (intro poll_leaves [of _ p f n wake]) simp_all
    then show ?thesis by (simp add: left_from_def elapse_idle)
  next
    case False
    then have "probe_poll ?s = ?s" using Suc.prems by (simp add: probe_poll_def)
    moreover have "left_from ?s (probe_elapse k ?s)" using False Suc.prems by (intro Suc.IH) simp_all
    ultimately show ?thesis by (simp add: left_from_def)
  qed
qed simp

lemma timer_leaves:
  assumes "pr_task s = Some (Asleep p f n wake)" and "pr_STOP s" and "wake \<le> pr_now s + k"
  shows "left_from s (timer_after k s)"
proof (cases "wake \<le> pr_now s")
  case True
  then have "left_from s (probe_poll s)" using assms by (intro poll_leaves)
  then show ?thesis by (simp add: timer_after_def left_from_def elapse_idle)
next
  case False
  then have "probe_poll s = s" using assms(1) by (simp add: probe_poll_def)
  then show ?thesis using elapse_leaves [OF assms(1,2) _ assms(3)] False by (simp add: timer_after_def)
qed

text \<open>The wait of \<open>stop_inner\<close>: \<open>k\<close> rounds of 20 ms see every exit within \<open>20 k\<close> ms, and none later.\<close>

lemma await_exit_gone: "\<not> pr_ALIVE s \<Longrightarrow> await_exit k s = s"
  by (cases k) simp_all

lemma await_exit_leaves:
  "pr_task s = Some (Asleep p f n wake) \<Longrightarrow> pr_STOP s \<Longrightarrow> pr_ALIVE s \<Longrightarrow> wake \<le> pr_now s + 20 * k \<Longrightarrow> 0 < k \<Longrightarrow>
   left_from s (await_exit k s)"
proof (induction k arbitrary: s)
  case (Suc k)
  show ?case
  proof (cases "wake \<le> pr_now s + 20")
    case True
    then have "left_from s (timer_after 20 s)" using Suc.prems by (intro timer_leaves)
    then show ?thesis using Suc.prems by (simp add: await_exit_gone left_from_def)
  next
    case False
    then have t: "timer_after 20 s = s\<lparr>pr_now := pr_now s + 20\<rparr>"
      using Suc.prems by (intro timer_sleeping [of _ p f n wake]) simp_all
    have "left_from (s\<lparr>pr_now := pr_now s + 20\<rparr>) (await_exit k (s\<lparr>pr_now := pr_now s + 20\<rparr>))"
      using False Suc.prems by (intro Suc.IH) (cases k, simp_all)
    then show ?thesis using Suc.prems by (simp add: t left_from_def)
  qed
qed simp

lemma await_exit_late:
  "pr_task s = Some (Asleep p f n wake) \<Longrightarrow> pr_ALIVE s \<Longrightarrow> pr_now s + 20 * k < wake \<Longrightarrow>
   await_exit k s = s\<lparr>pr_now := pr_now s + 20 * k\<rparr>"
proof (induction k arbitrary: s)
  case (Suc k)
  have "timer_after 20 s = s\<lparr>pr_now := pr_now s + 20\<rparr>"
    using Suc.prems by (intro timer_sleeping [of _ p f n wake]) simp_all
  then show ?case using Suc.prems Suc.IH [of "s\<lparr>pr_now := pr_now s + 20\<rparr>"] by (simp add: algebra_simps)
qed simp

section \<open>At rest\<close>

text \<open>
  Between two operations: the slot is free and nothing is current, or the task sleeps for at most
  a period of at most two seconds, is the one that is current, and its last progress, unless it is
  one that freezes, is a period before it wakes.
\<close>

definition at_rest :: "'i probe \<Rightarrow> bool" where
  "at_rest s \<longleftrightarrow> (case pr_task s of
     None \<Rightarrow> \<not> pr_ALIVE s \<and> pr_CURRENT s = None
   | Some (Spawned period fault) \<Rightarrow> False
   | Some (Asleep period fault n wake) \<Rightarrow>
       pr_ALIVE s \<and> \<not> pr_STOP s \<and> (\<exists>i. pr_CURRENT s = Some (i, fault)) \<and> pr_PERIOD_MS s = period \<and>
       unat period \<le> 2000 \<and> pr_now s \<le> wake \<and> wake \<le> pr_now s + unat period \<and> unat period \<le> wake \<and>
       (fault \<noteq> FreezeAfterStart \<longrightarrow> pr_LAST_PROGRESS_MS s = of_nat (wake - unat period)))"

lemma tick_rests:
  assumes "\<not> pr_STOP s" and "pr_ALIVE s" and "pr_CURRENT s = Some (i, f)" and "pr_PERIOD_MS s = p"
    and "unat p \<le> 2000"
  shows "at_rest (probe_tick p f n s)"
  using assms by (simp add: probe_tick_def probe_loop_head_def at_rest_def Let_def now_ms_def)

lemma poll_rests:
  assumes "at_rest s" and "s' = s \<or> s' = s\<lparr>pr_now := pr_now s + 1\<rparr>"
  shows "at_rest (probe_poll s')"
proof (cases "pr_task s")
  case None
  then show ?thesis using assms by (auto simp: at_rest_def probe_poll_def)
next
  case (Some t)
  with assms(1) obtain p f n wake where t: "pr_task s = Some (Asleep p f n wake)"
    by (cases t) (auto simp: at_rest_def)
  show ?thesis
  proof (cases "wake \<le> pr_now s'")
    case True
    obtain i where "\<not> pr_STOP s'" "pr_ALIVE s'" "pr_CURRENT s' = Some (i, f)" "pr_PERIOD_MS s' = p" "unat p \<le> 2000"
      using assms t by (auto simp: at_rest_def)
    then have "at_rest (probe_tick p f n s')" by (rule tick_rests)
    then show ?thesis using t True assms(2) by (auto simp: probe_poll_def)
  next
    case False
    then show ?thesis using assms t by (auto simp: at_rest_def probe_poll_def)
  qed
qed

lemma elapse_rests: "at_rest s \<Longrightarrow> at_rest (probe_elapse k s)"
  by (induction k arbitrary: s) (simp_all add: poll_rests)

lemma timer_rests: "at_rest s \<Longrightarrow> at_rest (timer_after k s)"
  by (simp add: timer_after_def poll_rests elapse_rests)

section \<open>The operations, from rest\<close>

definition empty_slot :: "'i probe \<Rightarrow> bool" where
  "empty_slot s \<longleftrightarrow> pr_task s = None \<and> \<not> pr_ALIVE s \<and> pr_CURRENT s = None"

lemma empty_rests: "empty_slot s \<Longrightarrow> at_rest s"
  by (simp add: empty_slot_def at_rest_def)

lemma empty_timer: "empty_slot s \<Longrightarrow> empty_slot (timer_after k s)"
  by (simp add: empty_slot_def timer_idle)

lemma stop_empties:
  assumes "at_rest s"
  shows "empty_slot (snd (stop_inner s))"
    "fst (stop_inner s) = Device_Reset \<longleftrightarrow> (\<exists>i. probe_running s = Some i \<and> pr_CURRENT s = Some (i, ResetOnStop))"
proof -
  have "empty_slot (snd (stop_inner s)) \<and> (fst (stop_inner s) = Device_Reset \<longleftrightarrow>
      (\<exists>i. probe_running s = Some i \<and> pr_CURRENT s = Some (i, ResetOnStop)))"
  proof (cases "pr_task s")
    case None
    then show ?thesis
      using assms by (simp add: stop_inner_def at_rest_def empty_slot_def probe_running_def Let_def)
  next
    case (Some t)
    with assms obtain i p f n wake where t: "pr_task s = Some (Asleep p f n wake)" and al: "pr_ALIVE s"
      and cur: "pr_CURRENT s = Some (i, f)" and w: "wake \<le> pr_now s + 2000"
      by (cases t) (auto simp: at_rest_def)
    let ?s = "s\<lparr>pr_CURRENT := None, pr_STOP := True\<rparr>"
    have "left_from ?s (await_exit 100 ?s)"
      by (rule await_exit_leaves [of _ p f n wake]) (use t al w in simp_all)
    then have "empty_slot (await_exit 100 ?s)" by (simp add: left_from_def empty_slot_def)
    then show ?thesis
      using al cur empty_timer
      by (auto simp: stop_inner_def Let_def probe_running_def split: probe_fault.split)
  qed
  then show "empty_slot (snd (stop_inner s))"
    "fst (stop_inner s) = Device_Reset \<longleftrightarrow> (\<exists>i. probe_running s = Some i \<and> pr_CURRENT s = Some (i, ResetOnStop))"
    by blast+
qed

lemma poll_current: "pr_CURRENT (probe_poll s) = pr_CURRENT s"
  by (simp add: probe_poll_def probe_tick_def probe_loop_head_def Let_def split: option.split probe_task.split)

lemma elapse_current: "pr_CURRENT (probe_elapse k s) = pr_CURRENT s"
  by (induction k arbitrary: s) (simp_all add: poll_current)

lemma probe_spawn_runs:
  assumes "empty_slot s" and "unat p \<le> 2000"
  obtains s' where "probe_spawn i (p, f) s = (Ok (), s')" "at_rest s'" "pr_ALIVE s'" "pr_CURRENT s' = Some (i, f)"
proof -
  let ?q = "ucast p :: u32"
  have q: "unat ?q = unat p"
    using unsigned_less [of p, where 'a = nat] by (simp add: unsigned_ucast_eq take_bit_eq_mod)
  define s1 where "s1 = s\<lparr>pr_COUNTER := 0, pr_STOP := False, pr_PERIOD_MS := ?q, pr_CURRENT := Some (i, f),
    pr_task := Some (Spawned ?q f)\<rparr>"
  have idle: "pr_task s = None" "\<not> pr_ALIVE s" using assms(1) by (simp_all add: empty_slot_def)
  define s2 where "s2 = timer_after 10 s1"
  have poll: "at_rest (probe_poll s1)"
    using assms(2) by (simp add: s1_def probe_poll_def probe_loop_head_def at_rest_def q now_ms_def)
  then have rest: "at_rest s2"
    unfolding s2_def timer_after_def by (rule elapse_rests)
  have cur: "pr_CURRENT s2 = Some (i, f)"
    by (simp add: s2_def timer_after_def elapse_current) (simp add: s1_def probe_poll_def probe_loop_head_def)
  then have alive: "pr_ALIVE s2" using rest by (auto simp: at_rest_def split: option.splits probe_task.splits)
  have "await_start 100 s1 = (True, s2)"
  proof -
    have "await_start (Suc (Suc 98)) s1 = (True, s2)"
      using alive idle unfolding await_start.simps s2_def [symmetric] by (simp add: s1_def)
    then show ?thesis by simp
  qed
  then have "probe_spawn i (p, f) s = (Ok (), s2)"
    using idle by (simp add: probe_spawn_def s1_def)
  then show thesis using rest alive cur that by blast
qed
text \<open>
  What \<open>start\<close> does from rest, by what the header says; \<open>Some (Ok ())\<close> in the first component of
  \<open>start_verdict\<close> is a start that must succeed.
\<close>

fun start_verdict :: "probe_header option \<Rightarrow> (unit, runtime_error) result probe_outcome" where
  "start_verdict None = Finished (Err Not_A_Probe_Artifact)"
| "start_verdict (Some (p, f)) =
     (if f = FailStart then Finished (Err Fault_Start_Fails)
      else if f = ResetOnStart then Device_Reset else Finished (Ok ()))"

lemma start_from_rest:
  assumes rest: "at_rest s" and calm: "fst (stop_inner s) \<noteq> Device_Reset"
    and slow: "\<And>p f. parse bs = Some (p, f) \<Longrightarrow> unat p \<le> 2000"
  obtains s' where "probe_start i (Ok bs) parse s = (start_verdict (parse bs), s')"
    "start_verdict (parse bs) = Finished (Ok ()) \<Longrightarrow> at_rest s' \<and> pr_ALIVE s' \<and>
       pr_CURRENT s' = Some (i, snd (the (parse bs)))"
    "start_verdict (parse bs) \<noteq> Finished (Ok ()) \<Longrightarrow> empty_slot s'"
proof -
  obtain s1 where stop: "stop_inner s = (Finished (), s1)" and e1: "empty_slot s1"
    using stop_empties(1) [OF rest] calm by (cases "stop_inner s"; cases "fst (stop_inner s)") auto
  show thesis
  proof (cases "parse bs")
    case None
    then show thesis using e1 stop by (intro that [of s1]) (simp_all add: probe_start_def)
  next
    case (Some h)
    obtain p f where h: "h = (p, f)" by (cases h)
    have p: "unat p \<le> 2000" using slow Some h by simp
    obtain s2 where run: "probe_spawn i (p, f) s1 = (Ok (), s2)" "at_rest s2" "pr_ALIVE s2"
      "pr_CURRENT s2 = Some (i, f)" by (rule probe_spawn_runs [OF e1 p])
    define s' where "s' = (if f = FailStart then s1 else if f = ResetOnStart then timer_after 300 s1 else s2)"
    have "probe_start i (Ok bs) parse s = (start_verdict (parse bs), s')"
      using stop Some run(1) by (cases f) (simp_all add: probe_start_def h s'_def)
    then show thesis
      by (rule that) (use Some h run e1 empty_timer in \<open>auto simp: s'_def split: if_splits\<close>)
  qed
qed

text \<open>
  The supervisor's use of the backend: starts, stops, and time passing. A reset inside an operation
  boots the device again.
\<close>

datatype 'i probe_op = Start_Probe 'i "(bytes, unit) result" | Stop_Probe | Pass nat

definition after_reset :: "'a probe_outcome \<times> 'i probe \<Rightarrow> 'i probe" where
  "after_reset r = (case r of (Device_Reset, s) \<Rightarrow> probe_boot (pr_now s) | (Finished _, s) \<Rightarrow> s)"

definition probe_step :: "(bytes \<Rightarrow> probe_header option) \<Rightarrow> 'i probe_op \<Rightarrow> 'i probe \<Rightarrow> 'i probe" where
  "probe_step parse x s = (case x of
     Start_Probe artifact head \<Rightarrow> after_reset (probe_start artifact head parse s)
   | Stop_Probe \<Rightarrow> after_reset (probe_stop s)
   | Pass ms \<Rightarrow> timer_after ms s)"

text \<open>Headers whose period is at most two seconds, the time \<open>stop\<close> waits.\<close>

definition short_periods :: "(bytes \<Rightarrow> probe_header option) \<Rightarrow> bool" where
  "short_periods parse \<longleftrightarrow> (\<forall>bs p f. parse bs = Some (p, f) \<longrightarrow> unat p \<le> 2000)"

lemma boot_rests: "at_rest (probe_boot t)"
  by (simp add: at_rest_def probe_boot_def)

lemma step_rests:
  assumes "short_periods parse" and rest: "at_rest s"
  shows "at_rest (probe_step parse x s)"
proof (cases x)
  case (Start_Probe i head)
  show ?thesis
  proof (cases "fst (stop_inner s) = Device_Reset \<or> (\<exists>e. head = Err e)")
    case True
    then show ?thesis
      using Start_Probe empty_rests [OF stop_empties(1) [OF rest]]
      by (auto simp: probe_step_def probe_start_def after_reset_def boot_rests
          split: prod.splits probe_outcome.splits result.split)
  next
    case False
    then obtain bs where head: "head = Ok bs" by (cases head) auto
    have calm: "fst (stop_inner s) \<noteq> Device_Reset" using False by blast
    obtain s' where "probe_start i (Ok bs) parse s = (start_verdict (parse bs), s')"
      "start_verdict (parse bs) = Finished (Ok ()) \<Longrightarrow> at_rest s' \<and> pr_ALIVE s' \<and>
         pr_CURRENT s' = Some (i, snd (the (parse bs)))"
      "start_verdict (parse bs) \<noteq> Finished (Ok ()) \<Longrightarrow> empty_slot s'"
      by (rule start_from_rest [OF rest calm, of parse bs]) (use assms(1) in \<open>auto simp: short_periods_def\<close>)
    then show ?thesis
      using Start_Probe head empty_rests [of s'] boot_rests
      by (auto simp: probe_step_def after_reset_def split: probe_outcome.split)
  qed
next
  case Stop_Probe
  then show ?thesis
    using empty_rests [OF stop_empties(1) [OF rest]] boot_rests
    by (auto simp: probe_step_def probe_stop_def after_reset_def split: prod.splits probe_outcome.splits)
qed (simp add: probe_step_def timer_rests [OF rest])

interpretation probes: step_invariant "probe_step parse" at_rest "\<lambda>_. short_periods parse" for parse
  by unfold_locales (rule step_rests)

lemma probe_run_rests:
  "short_periods parse \<Longrightarrow> at_rest (run_steps (probe_step parse) ops (probe_boot t))"
  by (rule probes.run_keeps) (simp_all add: boot_rests list.pred_True)
section \<open>Properties\<close>

lemma rest_health:
  assumes "at_rest s" and cur: "pr_CURRENT s = Some (i, f)" and "f \<noteq> FreezeAfterStart"
  shows "probe_health s = (if f = HealthFail then Unhealthy else Healthy)"
proof -
  obtain n wake where t: "pr_task s = Some (Asleep (pr_PERIOD_MS s) f n wake)" and al: "pr_ALIVE s"
    and p: "unat (pr_PERIOD_MS s) \<le> 2000" "wake \<le> pr_now s + unat (pr_PERIOD_MS s)"
      "pr_now s \<le> wake" "unat (pr_PERIOD_MS s) \<le> wake"
    and last: "pr_LAST_PROGRESS_MS s = of_nat (wake - unat (pr_PERIOD_MS s))"
    using assms by (auto simp: at_rest_def split: option.splits probe_task.splits)
  define k where "k = pr_now s - (wake - unat (pr_PERIOD_MS s))"
  have k: "k \<le> 2000" "pr_now s = (wake - unat (pr_PERIOD_MS s)) + k"
    using p by (auto simp: k_def)
  have "now_ms s - pr_LAST_PROGRESS_MS s = (of_nat k :: u32)"
    unfolding now_ms_def last by (subst k(2)) simp
  moreover have "unat (of_nat k :: u32) \<le> unat (2000 :: u32)"
    using k(1) by (simp add: unat_of_nat)
  ultimately have "now_ms s - pr_LAST_PROGRESS_MS s \<le> 2000" by (simp add: word_le_nat_alt)
  then have "now_ms s - pr_LAST_PROGRESS_MS s \<le> max (pr_PERIOD_MS s * 3) 2000" by (simp add: le_max_iff_disj)
  then show ?thesis using cur al by (simp add: probe_health_def Let_def)
qed

lemma rest_running:
  assumes "at_rest s"
  shows "probe_running s = None \<longleftrightarrow> pr_task s = None"
    "probe_running s = Some i \<longleftrightarrow> (\<exists>f n wake. pr_CURRENT s = Some (i, f) \<and>
       pr_task s = Some (Asleep (pr_PERIOD_MS s) f n wake))"
    "probe_running s = None \<Longrightarrow> probe_health s = Unknown"
  using assms by (auto simp: at_rest_def probe_running_def probe_health_def split: option.splits probe_task.splits)



text \<open>A header whose first byte is its period in units of 100 ms, the second its fault.\<close>

definition demo_parse :: "bytes \<Rightarrow> probe_header option" where
  "demo_parse bs = (case bs of [p, f] \<Rightarrow> if p \<le> 20 then Some (ucast p * 100, if f = 0 then PF_None else FailStart) else None
     | _ \<Rightarrow> None)"

lemma demo_parse_short: "short_periods demo_parse"
  unfolding short_periods_def
proof (intro allI impI)
  fix bs p f assume "demo_parse bs = Some (p, f)"
  then obtain b where b: "b \<le> (20 :: u8)" and p: "p = ucast b * 100"
    by (auto simp: demo_parse_def split: list.splits if_splits)
  have "unat b \<le> 20" using b by (simp add: word_le_nat_alt)
  then have "unat p = unat b * 100" by (simp add: p unat_word_ariths)
  then show "unat p \<le> 2000" using \<open>unat b \<le> 20\<close> by simp
qed

definition demo_ops :: "nat probe_op list" where
  "demo_ops = [Start_Probe 1 (Ok [10, 0]), Pass 50000]"

lemma demo_current: "pr_CURRENT (run_steps (probe_step demo_parse) demo_ops (probe_boot 0)) = Some (1, PF_None)"
proof -
  have verdict: "start_verdict (demo_parse [10, 0]) = Finished (Ok ())" "snd (the (demo_parse [10, 0])) = PF_None"
    by (simp_all add: demo_parse_def)
  have calm: "fst (stop_inner (probe_boot 0)) \<noteq> Device_Reset"
    by (simp add: stop_inner_def probe_boot_def)
  obtain s' where run: "probe_start (1::nat) (Ok [10, 0]) demo_parse (probe_boot 0) = (Finished (Ok ()), s')"
    and s': "pr_CURRENT s' = Some (1, PF_None)"
    by (rule start_from_rest [OF boot_rests calm, of demo_parse "[10, 0]" 1])
       (use demo_parse_short verdict in \<open>auto simp: short_periods_def simp del: One_nat_def\<close>)
  have "pr_CURRENT (timer_after k s') = Some (1, PF_None)" for k
    using s' by (simp add: timer_after_def elapse_current poll_current)
  then show ?thesis by (simp add: demo_ops_def probe_step_def run after_reset_def del: One_nat_def)
qed



text \<open>
  The bound is needed. A task whose timer expires more than two seconds from now outlives \<open>stop\<close>;
  \<open>start\<close> then fails on the busy slot, but has already revoked the stop and made the new artifact
  current: it is reported running, while the task that runs is still the old one.
\<close>

theorem slow_probe_misreported:
  assumes "pr_task s = Some (Asleep p f n wake)" and "pr_ALIVE s" and "pr_now s + 2000 < wake"
    and "pr_CURRENT s = Some (old, f)" and "f \<noteq> ResetOnStop"
    and "parse bs = Some (q, g)" and "g \<noteq> FailStart" and "g \<noteq> ResetOnStart"
  shows "\<exists>s'. probe_start new (Ok bs) parse s = (Finished (Err Task_Slot_Busy), s') \<and>
    probe_running s' = Some new \<and> pr_task s' = Some (Asleep p f n wake) \<and> \<not> pr_STOP s'"
proof -
  let ?s = "s\<lparr>pr_CURRENT := None, pr_STOP := True\<rparr>"
  have "await_exit 100 ?s = ?s\<lparr>pr_now := pr_now s + 2000\<rparr>"
    using await_exit_late [of ?s p f n wake 100] assms(1-3) by simp
  then have stop: "stop_inner s = (Finished (), ?s\<lparr>pr_now := pr_now s + 2000\<rparr>)"
    using assms(2,4,5) by (cases f) (simp_all add: stop_inner_def Let_def)
  show ?thesis
    using assms by (cases g) (simp_all add: probe_start_def stop probe_spawn_def probe_running_def)
qed

end
