(* ===== verification/Selftest.thy ===== *)
theory Selftest
  imports Workload
begin

text \<open>
  \<open>src/workload/selftest.rs\<close> (feature \<open>workload-selftest\<close>): the hardware gate of the Workload
  storage. Each boot runs one phase, chosen from what the flash holds, and ends in a reset, a
  verdict in the log or a plain return. The storage and SHA-256 are parameters; so is the
  executor's interleaving of the writer with the task that reads while it writes.
\<close>

unbundle bit_operations_syntax

section \<open>The pattern\<close>

definition P1_SEED :: u32 where "P1_SEED = 0x11111111"
definition P1_SIZE :: u32 where "P1_SIZE = 1024 * 1024"
definition P2_SEED :: u32 where "P2_SEED = 0x22222222"
definition P2_SIZE :: u32 where "P2_SIZE = 4 * 1024 * 1024"
definition CHUNK :: nat where "CHUNK = 16 * 1024"

text \<open>Xorshift: the next state, the byte it gives, and a buffer filled with \<open>n\<close> of them.\<close>

definition pattern_next :: "u32 \<Rightarrow> u32" where
  "pattern_next s =
     (let s1 = s XOR push_bit 13 s; s2 = s1 XOR drop_bit 17 s1 in s2 XOR push_bit 5 s2)"

definition pattern_byte :: "u32 \<Rightarrow> u8" where
  "pattern_byte s = ucast (drop_bit 11 s)"

primrec pattern_fill :: "nat \<Rightarrow> u32 \<Rightarrow> bytes \<times> u32" where
  "pattern_fill 0 s = ([], s)"
| "pattern_fill (Suc n) s =
     (let s' = pattern_next s; (bs, s'') = pattern_fill n s' in (pattern_byte s' # bs, s''))"

text \<open>SHA-256, incremental.\<close>

record 'h hasher =
  sh_new :: 'h
  sh_update :: "bytes \<Rightarrow> 'h \<Rightarrow> 'h"
  sh_finalize :: "'h \<Rightarrow> bytes"

text \<open>The loop of \<open>expected_digest\<close>, a 4096-byte buffer at a time.\<close>

function digest_loop :: "'h hasher \<Rightarrow> nat \<Rightarrow> u32 \<Rightarrow> 'h \<Rightarrow> 'h" where
  "digest_loop H left s h =
     (if left = 0 then h
      else let n = min left 4096
           in case pattern_fill n s of (bs, s') \<Rightarrow> digest_loop H (left - n) s' (sh_update H bs h))"
  by pat_completeness auto
termination by (relation "measure (\<lambda>(_, left, _, _). left)") auto

declare digest_loop.simps [simp del]

definition expected_digest :: "'h hasher \<Rightarrow> u32 \<Rightarrow> u32 \<Rightarrow> bytes" where
  "expected_digest H seed size' = sh_finalize H (digest_loop H (unat size') seed (sh_new H))"

section \<open>The storage\<close>

datatype side = Side_A | Side_B

text \<open>\<open>Rec_Other\<close> stands for the recoveries the self-test only reports.\<close>

datatype recovery = No_Workload | Rec_Valid side | Rec_Staged "side option" side | Rec_Other

record update_request =
  rq_version :: bytes
  rq_digest :: bytes
  rq_size :: u64
  rq_requires :: runtime_api

record committed =
  cm_size :: u64
  cm_digest :: bytes

record slot_meta =
  sm_size :: u32
  sm_digest :: bytes

record ('w, 'p, 'wr) workload_storage =
  st_recover :: "'w \<Rightarrow> (recovery, unit) result \<times> 'w"
  st_erase_slot :: "side \<Rightarrow> 'w \<Rightarrow> (unit, unit) result \<times> 'w"
  st_prepare :: "update_request \<Rightarrow> 'w \<Rightarrow> ('p, unit) result \<times> 'w"
  st_slot :: "'p \<Rightarrow> side"
  st_writer :: "'p \<Rightarrow> 'wr"
  st_append :: "bytes \<Rightarrow> 'wr \<Rightarrow> 'w \<Rightarrow> bool \<times> 'wr \<times> 'w"
  st_finish :: "'wr \<Rightarrow> 'w \<Rightarrow> (committed, unit) result \<times> 'w"
  st_commit_staged :: "'p \<Rightarrow> committed \<Rightarrow> 'w \<Rightarrow> (unit, unit) result \<times> 'w"
  st_activate :: "'w \<Rightarrow> (unit, unit) result \<times> 'w"
  st_confirm :: "'w \<Rightarrow> (unit, unit) result \<times> 'w"
  st_read_digest :: "side \<Rightarrow> u32 \<Rightarrow> 'w \<Rightarrow> (bytes, unit) result \<times> 'w"
  st_record :: "'w \<Rightarrow> ((slot_meta \<times> slot_meta) option, unit) result \<times> 'w"

definition selftest_request :: "'h hasher \<Rightarrow> bytes \<Rightarrow> u32 \<Rightarrow> u32 \<Rightarrow> update_request" where
  "selftest_request H version seed size' =
     \<lparr>rq_version = version, rq_digest = expected_digest H seed size', rq_size = ucast size',
      rq_requires = RuntimeApi 1 0\<rparr>"

text \<open>
  The loop of \<open>write_pattern\<close>, a \<open>CHUNK\<close> at a time. \<open>other k\<close> is what the other task does while the
  writer waits after its chunk \<open>k\<close>, on its own locals and the device.
\<close>

function write_loop ::
  "('w, 'p, 'wr) workload_storage \<Rightarrow> (nat \<Rightarrow> 'c \<times> 'w \<Rightarrow> 'c \<times> 'w) \<Rightarrow> nat \<Rightarrow> nat \<Rightarrow> u32 \<Rightarrow> 'wr \<Rightarrow> 'c \<times> 'w
   \<Rightarrow> 'wr option \<times> 'c \<times> 'w" where
  "write_loop S other k left s writer cw =
     (if left = 0 then (Some writer, cw)
      else let n = min left CHUNK
           in case pattern_fill n s of (bs, s') \<Rightarrow>
             (case st_append S bs writer (snd cw) of
                (False, _, w') \<Rightarrow> (None, fst cw, w')
              | (True, writer', w') \<Rightarrow>
                  write_loop S other (k + 1) (left - n) s' writer' (other k (fst cw, w'))))"
  by pat_completeness auto
termination by (relation "measure (\<lambda>(_, _, _, left, _, _, _). left)") (auto simp: CHUNK_def)

declare write_loop.simps [simp del]

definition write_pattern ::
  "('w, 'p, 'wr) workload_storage \<Rightarrow> (nat \<Rightarrow> 'c \<times> 'w \<Rightarrow> 'c \<times> 'w) \<Rightarrow> 'p \<Rightarrow> u32 \<Rightarrow> u32 \<Rightarrow> 'c \<times> 'w
   \<Rightarrow> committed option \<times> 'c \<times> 'w" where
  "write_pattern S other prepared seed size' cw =
     (case write_loop S other 0 (unat size') seed (st_writer S prepared) cw of
        (None, cw') \<Rightarrow> (None, cw')
      | (Some writer, c, w) \<Rightarrow>
          (case st_finish S writer w of
             (Ok committed, w') \<Rightarrow> (Some committed, c, w')
           | (Err _, w') \<Rightarrow> (None, c, w')))"

text \<open>
  One round of \<open>load\<close>: a read of the agent's configuration and one of the storage metadata. The
  latency it also measures is only logged.
\<close>

record load_counts =
  config_ok :: u32
  meta_ok :: u32

definition load_round ::
  "('w, 'p, 'wr) workload_storage \<Rightarrow> 'w config_space \<Rightarrow> load_counts \<times> 'w \<Rightarrow> load_counts \<times> 'w" where
  "load_round S config cw =
     (case load config (snd cw) of (r, w1) \<Rightarrow>
      case st_recover S w1 of (m, w2) \<Rightarrow>
        (fst cw\<lparr>config_ok := config_ok (fst cw) + (if is_ok r then 1 else 0),
                meta_ok := meta_ok (fst cw) + (if is_ok m then 1 else 0)\<rparr>, w2))"

section \<open>The phases\<close>

text \<open>
  How a boot of the self-test ends, and what it did to the storage that a later boot depends on.
\<close>

datatype selftest_end = Test_Returns | Test_Resets

datatype selftest_event = Staged side committed | Read_Back side u32 "(bytes, unit) result" | Activated | Test_Pass | Test_Fail

record 'w selftest =
  sf_world :: 'w
  sf_events :: "selftest_event list"

definition sf_note :: "selftest_event \<Rightarrow> 'w selftest \<Rightarrow> 'w selftest" where
  "sf_note e s = s\<lparr>sf_events := sf_events s @ [e]\<rparr>"

definition sf_do :: "('w \<Rightarrow> 'a \<times> 'w) \<Rightarrow> 'w selftest \<Rightarrow> 'a \<times> 'w selftest" where
  "sf_do f s = (case f (sf_world s) of (a, w) \<Rightarrow> (a, s\<lparr>sf_world := w\<rparr>))"

definition test_fails :: "'w selftest \<Rightarrow> selftest_end \<times> 'w selftest" where
  "test_fails s = (Test_Returns, sf_note Test_Fail s)"

definition read_back ::
  "('w, 'p, 'wr) workload_storage \<Rightarrow> side \<Rightarrow> u32 \<Rightarrow> 'w selftest \<Rightarrow> (bytes, unit) result \<times> 'w selftest" where
  "read_back S side n s =
     (case sf_do (st_read_digest S side n) s of (r, s') \<Rightarrow> (r, sf_note (Read_Back side n r) s'))"

text \<open>\<open>commit_staged\<close>, noted when it succeeded.\<close>

definition commit_staged ::
  "('w, 'p, 'wr) workload_storage \<Rightarrow> 'p \<Rightarrow> committed \<Rightarrow> 'w selftest \<Rightarrow> bool \<times> 'w selftest" where
  "commit_staged S prepared c s =
     (case sf_do (st_commit_staged S prepared c) s of
        (Ok _, s') \<Rightarrow> (True, sf_note (Staged (st_slot S prepared) c) s')
      | (Err _, s') \<Rightarrow> (False, s'))"

definition phase2 :: "('w, 'p, 'wr) workload_storage \<Rightarrow> 'h hasher \<Rightarrow> 'w selftest \<Rightarrow> selftest_end \<times> 'w selftest" where
  "phase2 S H s =
     (let want = expected_digest H P2_SEED P2_SIZE
      in case sf_do (st_prepare S (selftest_request H (lit ''selftest-2'') P2_SEED P2_SIZE)) s of
           (Err _, s1) \<Rightarrow> test_fails s1
         | (Ok prepared, s1) \<Rightarrow>
             (case read_back S (st_slot S prepared) P2_SIZE s1 of
                (d, s2) \<Rightarrow>
                  if d = Ok want then
                    (case commit_staged S prepared \<lparr>cm_size = ucast P2_SIZE, cm_digest = want\<rparr> s2 of
                       (False, s3) \<Rightarrow> test_fails s3
                     | (True, s3) \<Rightarrow> (Test_Resets, s3))
                  else
                    (case write_pattern S (\<lambda>_. id) prepared P2_SEED P2_SIZE ((), sf_world s2) of
                       (None, _, w) \<Rightarrow> (Test_Returns, s2\<lparr>sf_world := w\<rparr>)
                     | (Some _, _, w) \<Rightarrow> (Test_Resets, s2\<lparr>sf_world := w\<rparr>))))"
text \<open>
  Slot A is written while the other task reads: \<open>rounds k\<close> of its rounds fall after chunk \<open>k\<close>, and
  \<open>tail\<close> after the writer told it to stop.
\<close>

definition phase1 ::
  "('w, 'p, 'wr) workload_storage \<Rightarrow> 'h hasher \<Rightarrow> 'w config_space \<Rightarrow> (nat \<Rightarrow> nat) \<Rightarrow> nat \<Rightarrow> 'w selftest
   \<Rightarrow> selftest_end \<times> 'w selftest" where
  "phase1 S H config rounds tail s =
     (case sf_do (st_erase_slot S Side_B) s of
        (Err _, s1) \<Rightarrow> test_fails s1
      | (Ok _, s1) \<Rightarrow>
     (case sf_do (st_prepare S (selftest_request H (lit ''selftest-1'') P1_SEED P1_SIZE)) s1 of
        (Err _, s2) \<Rightarrow> test_fails s2
      | (Ok prepared, s2) \<Rightarrow>
     (case write_pattern S (\<lambda>k. load_round S config ^^ rounds k) prepared P1_SEED P1_SIZE
         (\<lparr>config_ok = 0, meta_ok = 0\<rparr>, sf_world s2) of
        (written, cw) \<Rightarrow>
     (case (load_round S config ^^ tail) cw of
        (counts, w) \<Rightarrow>
     (let s3 = s2\<lparr>sf_world := w\<rparr>
      in case written of
           None \<Rightarrow> (Test_Returns, s3)
         | Some c \<Rightarrow>
             if config_ok counts = 0 \<or> meta_ok counts = 0 then test_fails s3
             else case commit_staged S prepared c s3 of
               (False, s4) \<Rightarrow> test_fails s4
             | (True, s4) \<Rightarrow>
                 (case sf_do (st_activate S) s4 of
                    (Err _, s5) \<Rightarrow> test_fails s5
                  | (Ok _, s5) \<Rightarrow>
                      (case sf_do (st_confirm S) s5 of
                         (Err _, s6) \<Rightarrow> test_fails s6
                       | (Ok _, s6) \<Rightarrow> phase2 S H (sf_note Activated s6))))))))"

text \<open>One slot of the last phase: what it reads back is the pattern and what the metadata says.\<close>

definition slot_verified ::
  "('w, 'p, 'wr) workload_storage \<Rightarrow> 'h hasher \<Rightarrow> side \<Rightarrow> slot_meta \<Rightarrow> u32 \<Rightarrow> u32 \<Rightarrow> 'w selftest \<Rightarrow> bool \<times> 'w selftest" where
  "slot_verified S H side m seed n s =
     (case read_back S side (sm_size m) s of
        (Ok d, s') \<Rightarrow> (d = expected_digest H seed n \<and> d = sm_digest m, s')
      | (Err _, s') \<Rightarrow> (False, s'))"

definition phase3 :: "('w, 'p, 'wr) workload_storage \<Rightarrow> 'h hasher \<Rightarrow> 'w selftest \<Rightarrow> selftest_end \<times> 'w selftest" where
  "phase3 S H s =
     (case sf_do (st_record S) s of
        (Ok (Some (a, b)), s1) \<Rightarrow>
          (case slot_verified S H Side_A a P1_SEED P1_SIZE s1 of
             (a_ok, s2) \<Rightarrow>
               (case slot_verified S H Side_B b P2_SEED P2_SIZE s2 of
                  (b_ok, s3) \<Rightarrow>
                    if a_ok \<and> b_ok then (Test_Returns, sf_note Test_Pass s3) else test_fails s3))
      | (_, s1) \<Rightarrow> test_fails s1)"

definition selftest_run ::
  "('w, 'p, 'wr) workload_storage option \<Rightarrow> 'h hasher \<Rightarrow> 'w config_space \<Rightarrow> (nat \<Rightarrow> nat) \<Rightarrow> nat \<Rightarrow> 'w
   \<Rightarrow> selftest_end \<times> 'w selftest" where
  "selftest_run storage H config rounds tail w =
     (let s = \<lparr>sf_world = w, sf_events = []\<rparr>
      in case storage of
           None \<Rightarrow> (Test_Returns, s)
         | Some S \<Rightarrow>
             (case sf_do (st_recover S) s of
                (Err _, s1) \<Rightarrow> test_fails s1
              | (Ok state, s1) \<Rightarrow>
                  if state = No_Workload then phase1 S H config rounds tail s1
                  else if state = Rec_Valid Side_A then phase2 S H s1
                  else if state = Rec_Staged (Some Side_A) Side_B then phase3 S H s1
                  else test_fails s1))"

section \<open>The two readings of the pattern agree\<close>

text \<open>The reference: byte \<open>k\<close> of the pattern is that of the \<open>k+1\<close>-fold successor of the seed.\<close>

definition pattern :: "u32 \<Rightarrow> nat \<Rightarrow> bytes" where
  "pattern seed n = map (\<lambda>k. pattern_byte ((pattern_next ^^ Suc k) seed)) [0..<n]"

lemma length_pattern [simp]: "length (pattern s n) = n"
  by (simp add: pattern_def)

lemma pattern_nth: "k < n \<Longrightarrow> pattern s n ! k = pattern_byte ((pattern_next ^^ Suc k) s)"
  by (simp add: pattern_def del: funpow.simps)

lemma pattern_Suc: "pattern s (Suc n) = pattern_byte (pattern_next s) # pattern (pattern_next s) n"
proof (rule nth_equalityI)
  fix k assume "k < length (pattern s (Suc n))"
  then show "pattern s (Suc n) ! k = (pattern_byte (pattern_next s) # pattern (pattern_next s) n) ! k"
    by (cases k) (simp_all add: pattern_nth funpow_Suc_right del: funpow.simps(2))
qed simp

lemma pattern_fill_spec: "pattern_fill n s = (pattern s n, (pattern_next ^^ n) s)"
  by (induction n arbitrary: s)
     (simp_all add: pattern_Suc funpow_Suc_right Let_def del: funpow.simps(2), simp add: pattern_def)

lemma pattern_append: "pattern s (m + n) = pattern s m @ pattern ((pattern_next ^^ m) s) n"
  by (induction m arbitrary: s) (simp_all add: pattern_Suc funpow_Suc_right del: funpow.simps(2), simp add: pattern_def)

text \<open>What the storage and the hash promise: a writer collects what is appended to it.\<close>

definition hasher_law :: "'h hasher \<Rightarrow> (bytes \<Rightarrow> bytes) \<Rightarrow> bool" where
  "hasher_law H sha \<longleftrightarrow> (\<forall>bss. sh_finalize H (fold (sh_update H) bss (sh_new H)) = sha (concat bss))"

definition writer_law ::
  "('w, 'p, 'wr) workload_storage \<Rightarrow> (bytes \<Rightarrow> bytes) \<Rightarrow> ('wr \<Rightarrow> bytes) \<Rightarrow> bool" where
  "writer_law S sha content \<longleftrightarrow>
     (\<forall>p. content (st_writer S p) = []) \<and>
     (\<forall>bs wr w wr' w'. st_append S bs wr w = (True, wr', w') \<longrightarrow> content wr' = content wr @ bs) \<and>
     (\<forall>wr w c w'. st_finish S wr w = (Ok c, w') \<longrightarrow>
        cm_digest c = sha (content wr) \<and> cm_size c = of_nat (length (content wr)))"

lemma writer_lawD:
  assumes "writer_law S sha content"
  shows "content (st_writer S p) = []"
    "st_append S bs wr w = (True, wr', w') \<Longrightarrow> content wr' = content wr @ bs"
    "st_finish S wr w = (Ok c, w') \<Longrightarrow> cm_digest c = sha (content wr) \<and> cm_size c = of_nat (length (content wr))"
  using assms unfolding writer_law_def by blast+

lemma digest_loop_spec:
  "\<exists>bss. digest_loop H n s h = fold (sh_update H) bss h \<and> concat bss = pattern s n"
proof (induction H n s h rule: digest_loop.induct)
  case (1 H left s h)
  show ?case
  proof (cases "left = 0")
    case True
    then show ?thesis by (intro exI [of _ "[]"]) (simp add: digest_loop.simps pattern_def)
  next
    case False
    let ?n = "min left 4096" and ?t = "(pattern_next ^^ min left 4096) s"
    obtain bss where "digest_loop H (left - ?n) ?t (sh_update H (pattern s ?n) h) =
        fold (sh_update H) bss (sh_update H (pattern s ?n) h)" "concat bss = pattern ?t (left - ?n)"
      using 1 [OF False refl] pattern_fill_spec by metis
    moreover have "pattern s left = pattern s ?n @ pattern ?t (left - ?n)"
      by (subst pattern_append [symmetric]) simp
    ultimately show ?thesis
      using False by (intro exI [of _ "pattern s ?n # bss"]) (simp add: digest_loop.simps [of H left] pattern_fill_spec Let_def)
  qed
qed

lemma expected_digest_spec: "hasher_law H sha \<Longrightarrow> expected_digest H seed n = sha (pattern seed (unat n))"
  using digest_loop_spec [of H "unat n" seed "sh_new H"]
  by (auto simp: expected_digest_def hasher_law_def)

lemma write_loop_spec:
  "write_loop S other k n s writer cw = (Some writer', cw') \<Longrightarrow> writer_law S sha content \<Longrightarrow>
   content writer' = content writer @ pattern s n"
proof (induction S other k n s writer cw arbitrary: writer' cw' rule: write_loop.induct)
  case (1 S other k left s writer cw)
  note law = 1(3)
  show ?case
  proof (cases "left = 0")
    case True
    then show ?thesis using 1(2) by (simp add: write_loop.simps [of S other k 0] pattern_def)
  next
    case False
    let ?n = "min left CHUNK" and ?t = "(pattern_next ^^ min left CHUNK) s"
    obtain b wr1 w1 where app: "st_append S (pattern s ?n) writer (snd cw) = (b, wr1, w1)"
      by (cases "st_append S (pattern s ?n) writer (snd cw)") auto
    have b: "b" and rest: "write_loop S other (k + 1) (left - ?n) ?t wr1 (other k (fst cw, w1)) = (Some writer', cw')"
      using 1(2) False app by (auto simp: write_loop.simps [of S other k left] pattern_fill_spec Let_def split: if_splits bool.splits)
    have "content writer' = content wr1 @ pattern ?t (left - ?n)"
      by (rule 1(1) [OF False refl pattern_fill_spec [symmetric] app [symmetric] _ refl rest law])
         (use b in simp_all)
    moreover have "content wr1 = content writer @ pattern s ?n"
      using writer_lawD(2) [OF law] app b by simp
    moreover have "pattern s left = pattern s ?n @ pattern ?t (left - ?n)"
      by (subst pattern_append [symmetric]) simp
    ultimately show ?thesis by simp
  qed
qed

text \<open>
  C39: the artifact the self-test writes is the one whose digest it predicts. Whatever runs between
  the chunks, when \<open>write_pattern\<close> returns a committed artifact, its size is the size asked for and
  its digest is \<open>expected_digest\<close>, although the one loop goes 16 KiB at a time and the other 4 KiB;
  both are the digest of the first bytes of the xorshift sequence.
\<close>

theorem written_pattern_has_expected_digest:
  assumes "hasher_law H sha" and "writer_law S sha content"
    and "write_pattern S other prepared seed n cw = (Some c, cw')"
  shows "cm_size c = ucast n \<and> cm_digest c = expected_digest H seed n \<and>
    cm_digest c = sha (pattern seed (unat n))"
proof -
  obtain wr c0 w w' where loop: "write_loop S other 0 (unat n) seed (st_writer S prepared) cw = (Some wr, c0, w)"
    and fin: "st_finish S wr w = (Ok c, w')"
    using assms(3) by (auto simp: write_pattern_def split: prod.splits option.splits result.splits)
  have "content wr = pattern seed (unat n)"
    using write_loop_spec [OF loop assms(2)] writer_lawD(1) [OF assms(2)] by simp
  with writer_lawD(3) [OF assms(2) fin] show ?thesis
    by (simp add: expected_digest_spec [OF assms(1)])
qed

text \<open>A storage that keeps what a writer collects, in chunks of any size, under a hash that is the identity.\<close>

definition demo_hasher :: "bytes hasher" where
  "demo_hasher = \<lparr>sh_new = [], sh_update = (\<lambda>bs h. h @ bs), sh_finalize = id\<rparr>"

definition demo_storage :: "(unit, side, bytes) workload_storage" where
  "demo_storage = \<lparr>st_recover = (\<lambda>w. (Ok No_Workload, w)), st_erase_slot = (\<lambda>_ w. (Ok (), w)),
     st_prepare = (\<lambda>_ w. (Ok Side_A, w)), st_slot = id, st_writer = (\<lambda>_. []),
     st_append = (\<lambda>bs wr w. (True, wr @ bs, w)),
     st_finish = (\<lambda>wr w. (Ok \<lparr>cm_size = of_nat (length wr), cm_digest = wr\<rparr>, w)),
     st_commit_staged = (\<lambda>_ _ w. (Ok (), w)), st_activate = (\<lambda>w. (Ok (), w)), st_confirm = (\<lambda>w. (Ok (), w)),
     st_read_digest = (\<lambda>_ _ w. (Err (), w)), st_record = (\<lambda>w. (Ok None, w))\<rparr>"

lemma demo_hasher_law: "hasher_law demo_hasher id"
proof -
  have "fold (\<lambda>bs h. h @ bs) bss h = h @ concat bss" for bss :: "bytes list" and h
    by (induction bss arbitrary: h) simp_all
  then show ?thesis by (simp add: hasher_law_def demo_hasher_def)
qed

lemma demo_writer_law: "writer_law demo_storage id id"
  by (simp add: writer_law_def demo_storage_def)

lemma demo_append_always: "\<exists>wr cw'. write_loop demo_storage other k n s w cw = (Some wr, cw')"
proof (induction n arbitrary: k s w cw rule: less_induct)
  case (less n)
  show ?case
  proof (cases "n = 0")
    case True
    then show ?thesis by (cases cw) (simp add: write_loop.simps [of _ _ k 0])
  next
    case False
    obtain bs s' where fill: "pattern_fill (min n CHUNK) s = (bs, s')" by force
    have "n - min n CHUNK < n" using False by (simp add: CHUNK_def)
    from less [OF this] fill False show ?thesis
      by (subst write_loop.simps) (simp add: Let_def demo_storage_def)
  qed
qed

theorem written_pattern_has_expected_digest_witness:
  "\<exists>c cw'. write_pattern demo_storage (\<lambda>_. id) Side_A P1_SEED P1_SIZE ((), ()) = (Some c, cw') \<and>
     cm_digest c = expected_digest demo_hasher P1_SEED P1_SIZE"
proof -
  obtain wr cw' where loop: "write_loop demo_storage (\<lambda>_. id) 0 (unat P1_SIZE) P1_SEED
      (st_writer demo_storage Side_A) ((), ()) = (Some wr, cw')"
    using demo_append_always by blast
  then obtain c where run: "write_pattern demo_storage (\<lambda>_. id) Side_A P1_SEED P1_SIZE ((), ()) = (Some c, cw')"
    by (cases cw') (auto simp: write_pattern_def, auto simp: demo_storage_def)
  from written_pattern_has_expected_digest [OF demo_hasher_law demo_writer_law run] run show ?thesis by blast
qed

section \<open>The verdict\<close>

text \<open>
  A pass is announced only for what was read back, and only by the last phase; phase 2 stages slot
  B only after reading back from it the digest it then commits.
\<close>

lemma sf_do_events: "sf_do f s = (a, s') \<Longrightarrow> sf_events s' = sf_events s"
  by (auto simp: sf_do_def split: prod.splits)

lemma commit_staged_events:
  "commit_staged S p c s = (b, s') \<Longrightarrow> sf_events s' = sf_events s @ (if b then [Staged (st_slot S p) c] else [])"
  by (auto simp: commit_staged_def sf_note_def dest: sf_do_events split: prod.splits result.splits)

lemma read_back_events: "read_back S side n s = (r, s') \<Longrightarrow> sf_events s' = sf_events s @ [Read_Back side n r]"
  by (auto simp: read_back_def sf_note_def dest: sf_do_events split: prod.splits)

lemma phase2_stages_verified:
  assumes "phase2 S H s = (e, s')"
  shows "\<exists>es. sf_events s' = sf_events s @ es \<and> Test_Pass \<notin> set es \<and>
    (\<forall>side c. Staged side c \<in> set es \<longrightarrow>
       cm_digest c = expected_digest H P2_SEED P2_SIZE \<and> Read_Back side P2_SIZE (Ok (cm_digest c)) \<in> set es)"
  using assms
  by (auto simp: phase2_def test_fails_def sf_note_def Let_def
      dest!: sf_do_events commit_staged_events read_back_events split: prod.splits result.splits if_splits bool.splits option.splits)

lemma slot_verified_events:
  "slot_verified S H side m seed n s = (ok, s') \<Longrightarrow>
   \<exists>r. sf_events s' = sf_events s @ [Read_Back side (sm_size m) r] \<and>
     (ok \<longrightarrow> r = Ok (expected_digest H seed n) \<and> sm_digest m = expected_digest H seed n)"
  by (auto simp: slot_verified_def dest!: read_back_events split: prod.splits result.splits)

lemma phase3_passes_verified:
  assumes "phase3 S H s = (e, s')" and "sf_events s = []" and "Test_Pass \<in> set (sf_events s')"
  shows "\<exists>n m. sf_events s' = [Read_Back Side_A n (Ok (expected_digest H P1_SEED P1_SIZE)),
    Read_Back Side_B m (Ok (expected_digest H P2_SEED P2_SIZE)), Test_Pass]"
  using assms
  by (auto simp: phase3_def test_fails_def sf_note_def
      dest!: sf_do_events slot_verified_events split: prod.splits result.splits if_splits option.splits)

end
