(* ===== verification/Build_Script.thy ===== *)
theory Build_Script
  imports Rust_Std
begin

text \<open>
  \<open>build.rs\<close>: the build script, which is also the linker's error-handling script. Run by cargo it
  prints the linker arguments; run by the linker, with the kind of an error and what it is about,
  it prints a hint and exits. Standard output and error are lists of lines.
\<close>

section \<open>The script\<close>

datatype script_end = Script_Returns | Script_Exits int | Script_Panics

record script_run =
  stdout :: "bytes list"
  stderr :: "bytes list"
  ending :: script_end

text \<open>A hint: the light bulb and its text, between empty lines.\<close>

definition hint :: "bytes \<Rightarrow> bytes list" where
  "hint line = [[], [0xF0, 0x9F, 0x92, 0xA1, 0x20] @ line, []]"

definition alloc_symbols :: "bytes list" where
  "alloc_symbols = [lit ''free'', lit ''malloc'', lit ''calloc'', lit ''get_free_internal_heap_size'',
     lit ''malloc_internal'', lit ''realloc_internal'', lit ''calloc_internal'', lit ''free_internal'']"

definition symbol_hint :: "bytes \<Rightarrow> bytes list" where
  "symbol_hint what =
     (if starts_with what (lit ''_defmt_'') then
        hint (lit ''`defmt` not found - make sure `defmt.x` is added as a linker script and you have included `use defmt_rtt as _;`'')
      else if what = lit ''_stack_start'' then
        hint (lit ''Is the linker script `linkall.x` missing?'')
      else if starts_with what (lit ''esp_rtos_'') then
        hint (lit ''`esp-radio` has no scheduler enabled. Make sure you have initialized `esp-rtos` or provided an external scheduler.'')
      else if what = lit ''embedded_test_linker_file_not_added_to_rustflags'' then
        hint (lit ''`embedded-test` not found - make sure `embedded-test.x` is added as a linker script for tests'')
      else if what \<in> set alloc_symbols then
        hint (lit ''Did you forget the `esp-alloc` dependency or didn'' @ [39] @
          lit ''t enable the `compat` feature on it?'')
      else [])"

text \<open>
  \<open>linker_be_nice\<close>: the arguments (the program's name first), \<open>CARGO_CFG_TARGET_ARCH\<close> and the
  path of the script itself, either of which may be unavailable. One argument without a second is
  out of bounds.
\<close>

definition linker_be_nice :: "bytes list \<Rightarrow> (bytes, unit) result \<Rightarrow> (bytes, unit) result \<Rightarrow> script_run" where
  "linker_be_nice args target_arch exe =
     (if length args > 1 then
        if length args \<le> 2 then \<lparr>stdout = [], stderr = [], ending = Script_Panics\<rparr>
        else if args ! 1 = lit ''undefined-symbol'' then
          \<lparr>stdout = [], stderr = symbol_hint (args ! 2), ending = Script_Exits 0\<rparr>
        else \<lparr>stdout = [], stderr = [], ending = Script_Exits 1\<rparr>
      else if target_arch \<noteq> Ok (lit ''xtensa'') then
        (case exe of
           Err _ \<Rightarrow> \<lparr>stdout = [], stderr = [], ending = Script_Panics\<rparr>
         | Ok path \<Rightarrow> \<lparr>stdout = [lit ''cargo:rustc-link-arg=--error-handling-script='' @ path], stderr = [],
             ending = Script_Returns\<rparr>)
      else \<lparr>stdout = [], stderr = [], ending = Script_Returns\<rparr>)"

definition build_main :: "bytes list \<Rightarrow> (bytes, unit) result \<Rightarrow> (bytes, unit) result \<Rightarrow> script_run" where
  "build_main args target_arch exe =
     (let r = linker_be_nice args target_arch exe
      in case ending r of
           Script_Returns \<Rightarrow> r\<lparr>stdout := stdout r @ [lit ''cargo:rustc-link-arg=-Tlinkall.x'']\<rparr>
         | _ \<Rightarrow> r)"

section \<open>Properties\<close>

text \<open>
  The two uses never mix. Run by the linker the script prints no linker argument, ends
  with \<open>0\<close> exactly for an undefined symbol, and prints a hint at most then; run by cargo, with no
  argument, it prints no hint and, unless its own path cannot be found, the linker script
  \<open>linkall.x\<close> as the last argument, with the error-handling script before it on every target but
  Xtensa.
\<close>

theorem build_script_roles:
  "(length args > 2 \<longrightarrow> stdout (build_main args arch exe) = [] \<and>
      ending (build_main args arch exe) = Script_Exits (if args ! 1 = lit ''undefined-symbol'' then 0 else 1) \<and>
      (stderr (build_main args arch exe) \<noteq> [] \<longrightarrow> args ! 1 = lit ''undefined-symbol'')) \<and>
   (length args \<le> 1 \<and> ending (build_main args arch exe) \<noteq> Script_Panics \<longrightarrow>
      stderr (build_main args arch exe) = [] \<and>
      (\<exists>front. stdout (build_main args arch exe) = front @ [lit ''cargo:rustc-link-arg=-Tlinkall.x''] \<and>
         (front = [] \<longleftrightarrow> arch = Ok (lit ''xtensa''))))"
  by (cases exe) (auto simp: build_main_def linker_be_nice_def Let_def)

end
