(* ===== verification/Spec2Isabelle.thy ===== *)
theory Spec2Isabelle
  imports Config_Life Boot_Wiring Power_Recovery Spawn_Once Form_Text Probe_Runtime Selftest Build_Script
begin

text \<open>
  The Embewi agent for ESP32 (\<open>embewi-agent-esp\<close>): two firmware images and what they share.

  \<^bold>\<open>The program.\<close> A fresh device boots the \<^emph>\<open>init\<close> image (\<open>src/bin/init.rs\<close>). It makes itself a TLS identity,
  takes Wi-Fi credentials over the serial line (\<open>src/provisioning.rs\<close>) and serves one HTTPS form
  (\<open>src/http/config.rs\<close>) that stores the LED pin, the node id, the controller's URL and a new token,
  verifies and publishes the agent image preloaded in flash (\<open>src/composition/ota.rs\<close>), activates it and
  reboots. The device then boots the \<^emph>\<open>agent\<close> image (\<open>src/bin/main.rs\<close>): it decides whether the running
  image may stay, checks what was provisioned, confirms or rejects a pending image
  (\<open>src/ota.rs\<close>), and serves the HTTP API (\<open>src/http/api.rs\<close>), heartbeats to the controller
  (\<open>src/heartbeat.rs\<close>), the log stream and the Workload. All state that survives a reset is in eight
  named configuration spaces in flash, each with a schema of its own.

  \<^bold>\<open>Theories.\<close> In the order of the code's dependencies:
  \<^item> \<open>Prelude\<close>, \<open>Rust_Std\<close>, \<open>BTree_Map\<close>, \<open>Runs\<close>: results, bytes and little-endian words, the pieces of Rust's
    \<open>core\<close> and \<open>alloc\<close> the code uses (UTF-8, \<open>split_once\<close>, number formatting and parsing, \<open>BTreeMap\<close>), and
    runs of operations with the locales \<open>step_invariant\<close> and \<open>one_shot\<close>.
  \<^item> \<open>Config_Space\<close>: a configuration space as its two operations on an opaque device state, the law a provider
    keeps, the locale \<open>schema\<close> (an encoding that round-trips within a budget), and an in-memory provider
    with scripted faults on which every witness runs.
  \<^item> \<open>Hardware_Config\<close>, \<open>App_Config\<close>: \<open>src/hardware.rs\<close>, \<open>src/app_config.rs\<close>.
  \<^item> \<open>Agent_Core\<close>, \<open>Agent_Auth\<close>, \<open>Agent_Info\<close>: \<open>src/agent.rs\<close>: the identity's encoding, tokens, authorization and
    rotation; what they promise over any sequence of operations; the bodies of info and health.
  \<^item> \<open>Runtime_Config\<close>, \<open>Runtime_Apply\<close>: \<open>src/runtime_config.rs\<close>: the blob's encoding and decoding, and the merge of
    a push, which refines an update of a finite map.
  \<^item> \<open>Platform\<close>: code that may never return: actions with an outcome, their weakest preconditions
    (\<open>wp_rules\<close>) and phases that keep a preorder. The trace \<open>calls\<close> of a device records every effect on
    the platform in order.
  \<^item> \<open>Ota_Facade\<close>, \<open>Workload\<close>, \<open>Supervisor\<close>: \<open>src/ota.rs\<close>; \<open>src/workload.rs\<close> and \<open>src/workload/native_runtime.rs\<close>;
    \<open>src/supervisor.rs\<close> and \<open>src/esp_reboot.rs\<close>.
  \<^item> \<open>Boot_Agent\<close>, \<open>Boot_Policy\<close>, \<open>Boot_Liveness\<close>: \<open>src/bin/main.rs\<close>, what a boot never does, and when it comes up.
  \<^item> \<open>Http_Api\<close>, \<open>Http_Pages\<close>, \<open>Http_Config\<close>: \<open>src/http/\<close>: the routes of the API behind the Bearer check, the
    form's pages, and the form.
  \<^item> \<open>Composition\<close>: \<open>src/composition/ota.rs\<close>, \<open>src/composition/tls.rs\<close>: the adapters under the mounted OTA and TLS routes,
    and the factory image.
  \<^item> \<open>Improv\<close>, \<open>Boot_Init\<close>: \<open>src/provisioning.rs\<close>, as actions of a service that starts the application's services
    through a port (\<open>improv_env\<close>); \<open>src/bin/init.rs\<close>, whose boot ends in that service with the provisioning
    supervisor as the port (\<open>init_improv\<close>, \<open>serve_improv\<close>).
  \<^item> \<open>Heartbeat\<close>: \<open>src/heartbeat.rs\<close>.
  \<^item> \<open>Form_Text\<close>: the pages of the form are UTF-8.
  \<^item> \<open>Power_Cut\<close>: the platform under a supply that allows a number of operations, as a wrapper of every
    record of parameters, and the laws, which hold under any supply. It models the environment, not
    code of the repository.
  \<^item> \<open>Boot_Keeps\<close>, \<open>Device_Life\<close>, \<open>Power_Recovery\<close>: what a boot keeps, however it ends and wherever it is cut
    off; histories of a device (boots of both images and submissions, whole or cut off, and other
    work) as a step relation on its stored values, which refines a relation on the four states of
    the lifecycle; and the boot after the cuts.
  \<^item> \<open>Spawn_Once\<close>: the task slots a boot uses.
  \<^item> \<open>Esp_Tls\<close>, \<open>Http_Mounts\<close>, \<open>Tasks\<close>: \<open>src/esp_tls.rs\<close>; the routes mounted from other crates and the backends
    they are given; \<open>src/composition/tasks.rs\<close> with the fields of both supervisors: each task as the
    record of parameters it builds for the component it runs, from the spaces the boot claimed.
  \<^item> \<open>Boot_Wiring\<close>: the platform of the two boots with its TLS calls those of \<open>src/esp_tls.rs\<close>, and its laws.
  \<^item> \<open>Services\<close>, \<open>Config_Life\<close>: what holds of the wired services together, and of a pushed configuration
    from the request to the next boot.
  \<^item> \<open>Build_Script\<close>: \<open>build.rs\<close>.
  \<^item> \<open>Probe_Runtime\<close>, \<open>Selftest\<close>: the two test features, \<open>src/workload/probe_runtime.rs\<close> and
    \<open>src/workload/selftest.rs\<close>.

  \<^bold>\<open>How the code is modelled.\<close> A byte string is a \<open>u8\<close> list, a \<open>str\<close> one that is UTF-8; machine integers are
  words of their width. A function of the repository is a definition of its name, an error a value, a
  panic, reset or endless loop an exit of an action. An \<open>async\<close> function runs to its end unless the
  interleaving matters: requests, heartbeats, serial reads and probe operations are steps, and other
  tasks act between them. Code outside the repository (every \<open>iobewi-*\<close> crate, \<open>picoserve\<close>,
  \<open>serde_json\<close>, \<open>sha2\<close>, the executor) is a field of the record of parameters the definition takes, acting
  on the opaque device state; what is relied on is a named law (\<open>config_space_law\<close>, \<open>ct_eq_law\<close>,
  \<open>entropy_law\<close>, \<open>platform_law\<close>, \<open>api_law\<close>, \<open>factory_law\<close>, \<open>form_law\<close>, \<open>init_law\<close>, \<open>heartbeat_law\<close>,
  \<open>writer_law\<close>, \<open>tls_law\<close>, \<open>crates_law\<close>, \<open>mounts_law\<close>, \<open>product_law\<close>, \<open>quiet_boot_law\<close>), and each has an instance on the
  in-memory provider. A law says which spaces an operation may write and what its success means, and
  leaves every operation free to fail. The laws of the API, the heartbeat and the form are shown of
  the records the tasks build (\<open>wired_api_law\<close>, \<open>wired_heartbeat_law\<close>, \<open>wired_form_law\<close>).

  \<^bold>\<open>What is shown.\<close> Safety of the boot: an image is confirmed, and anything served, only on a fit device;
  a rejected image rolls back. Liveness: on a fit device with a working platform the boot comes up,
  also after boots that were cut off, and a device provisioned through the form reaches production;
  no task is spawned twice; whatever its history, power failures included, the lifecycle only moves
  forward and no step of it is skipped. Authentication: exactly the
  stored token authorizes, on every route of the router; no sequence of requests without it changes
  anything; it can be rotated but never removed, and a rotation reaches every service. Data: each encoding round-trips, decoding is total and canonical, a push is an
  atomic merge, effective at the next boot and only then. The form: what a success stored and in which order it acted, and that a failure stops
  before the reboot; its pages are UTF-8. The heartbeat (which contacts nobody before the clock and the
  controller's CA are there), the serial protocol (a client told that the device is provisioned finds the form started), the probe backend and the self-test: what they
  send, answer and report over any run.

  \<^bold>\<open>Bounds.\<close> Nothing runs on fuel. The recursions are structural or decrease a length (the UTF-8 scanner,
  the two loops of the self-test); the loops that never end are steps (\<open>heartbeat_step\<close>,
  \<open>support_step\<close>) or run over what they were given so far: the Improv service over the finite list of
  reads the serial line gave (\<open>improv_loop\<close>), the maintenance loop of Wi-Fi over the link events it
  reports. The probe's waits are its hundred rounds, with a clock of one millisecond; that an artifact's
  period be at most the two seconds \<open>stop\<close> waits is a hypothesis, and \<open>slow_probe_misreported\<close> shows what
  happens beyond it.

  \<^bold>\<open>Not modelled.\<close> \<open>src/wifi.rs\<close> and \<open>src/lib.rs\<close> (re-exports, a socket count and a static cell, module
  declarations); the loops of the log stream and of the clock synchronisation, which are crates; a
  power failure inside one call of a crate, which is whole or has not happened, and what the
  bootloader then selects to boot; in \<open>src/bin/\<close> the hardware
  initialisation that carries no decision; log lines, except those a property is about; the HTTP parsing, routing and JSON of \<open>picoserve\<close> and \<open>serde_json\<close>.
\<close>

section \<open>From the form to production\<close>

lemma saved_device_bootable:
  assumes saved: "rd_stored M Hardware w = Some \<lparr>data = hardware_encode (form_pin form), generation = g\<rparr>"
    and agent: "agent_view (rd_stored M Agent w) = Some c" "cfg_token c \<noteq> []"
    and pin: "\<And>pin. form_pin form = Some pin \<Longrightarrow> led_pin_exists pin"
    and net: "rd_wifi_ok M (rd_stored M Wifi w)" "rd_tls_ok M (rd_stored M Tls w)"
    and life: "rd_life M (rd_stored M Lifecycle w) = Some ReadyForAgent"
    and wl: "runs_workload feat M w" "runtime_ok (rd_stored M Runtime w)"
  shows "bootable feat M w"
proof -
  have "led_ok (rd_stored M Hardware w)"
    using pin by (auto simp: led_ok_def saved hardware_decode_encode split: option.split)
  moreover have "fit M w"
    using saved agent net by (simp add: fit_def provisioned_view_def hardware_encode_ok)
  ultimately show ?thesis using life wl by (simp add: bootable_def)
qed

text \<open>
  A device provisioned through the form reaches production. When the form answered \<open>200\<close>, the
  Wi-Fi credentials and the TLS identity pass their tests, and the pins the form offers exist on
  the chip, then the next boot, of the agent image as a pending image whose self-check passes and
  that can run the active Workload, on the device as the form left it (the OTA service's own space
  excepted), confirms the image, enters production and starts the API, the clock, the heartbeat
  and the log stream.
\<close>

theorem provisioned_device_reaches_production:
  assumes "form_law M slot_hash F" and "form_text form"
    and "post_form F form d = (Returns r, d')" and "status r = OK"
    and "list_all led_pin_exists (fs_pins F)"
    and "rd_wifi_ok M (rd_stored M Wifi (world d))" and "rd_tls_ok M (rd_stored M Tls (world d))"
    and "runs_workload feat M (world d')" and "runtime_ok (rd_stored M Runtime (world d))"
    and "platform_law M P" and "platform_answers M up True P"
    and "\<not> fault_injection feat" and "\<not> fault_injection_freeze feat"
    and "kept M {Ota} (world d') (world b)" and "up {} (world b)" and "calls b = []"
  shows "\<exists>b'. agent_main feat P b = (Exits Idles, b') \<and> device_state b' \<in> {St_Running, St_Degraded} \<and>
    {Confirm_Image, Enter_Production} \<union> Spawn ` ip_services \<subseteq> set (calls b')"
proof -
  have form: "(\<exists>g. rd_stored M Hardware (world d') =
      Some \<lparr>data = hardware_encode (form_pin form), generation = g\<rparr>)"
    "\<exists>c. agent_view (rd_stored M Agent (world d')) = Some c \<and> cfg_token c \<noteq> []"
    "rd_life M (rd_stored M Lifecycle (world d')) = Some ReadyForAgent"
    "form_accepts F form (world d)"
    using form_stored [OF assms(1-4)] by blast+
  have same: "rd_stored M m (world d') = rd_stored M m (world d)" if "m \<in> {Wifi, Tls, Runtime}" for m
    using form_stored [OF assms(1-4)] that by auto
  have pin: "led_pin_exists p" if "form_pin form = Some p" for p
    using form(4) that assms(5) by (simp add: form_accepts_def list_all_iff)
  have "bootable feat M (world d')"
    using form(1-3) saved_device_bootable [OF _ _ _ pin _ _ form(3) assms(8)] assms(6,7,9)
    by (auto simp: same)
  then have boot: "bootable feat M (world b)"
    using bootable_kept [OF assms(14)] by simp
  have life: "rd_life M (rd_stored M Lifecycle (world b)) = Some ReadyForAgent"
    using form(3) assms(14) by (simp add: kept_def)
  show ?thesis
    using agent_comes_up [OF assms(10-13,15) boot assms(16)] life by auto
qed

lemma init_base_answers: "platform_answers init_reading ram_up True init_base"
proof -
  have ops: "svc_on_boot init_ota = svc_on_boot demo_ota" "svc_pending_check init_ota = svc_pending_check demo_ota"
    "svc_confirm_pending init_ota = svc_confirm_pending demo_ota"
    by (simp_all add: init_ota_def)
  have life: "is_ok (fst (life_commit 3 (ram_space Lifecycle) w))" "faults (snd (life_commit 3 (ram_space Lifecycle) w)) = []"
    if "faults w = []" for w using that by (simp_all add: life_commit_def ram_commit)
  have "ota_answers init_reading ram_up True init_ota 15000"
    using demo_answers life unfolding platform_answers_def ota_answers_def ops
    by (simp add: answers_def init_ota_ops ram_up_def ram_faulty_def demo_platform_def demo_reading_def)
  moreover have "rd_wifi_ok init_reading = rd_wifi_ok demo_reading" "rd_tls_ok init_reading = rd_tls_ok demo_reading"
    "rd_space demo_reading = ram_space" "rd_stored demo_reading = (\<lambda>n w. cells w n)"
    by (simp_all add: init_reading_def demo_reading_def)
  ultimately show ?thesis
    using demo_answers unfolding platform_answers_def by (simp add: init_base_def demo_platform_def)
qed

theorem provisioned_device_reaches_production_witness:
  "\<exists>r d' b'. post_form demo_form_server demo_form (powered init_ram) = (Returns r, d') \<and>
     agent_main production_features init_base (powered (world d')) = (Exits Idles, b') \<and>
     Confirm_Image \<in> set (calls b') \<and> Enter_Production \<in> set (calls b')"
proof -
  obtain r d' where run: "post_form demo_form_server demo_form (powered init_ram) = (Returns r, d')"
    and ok: "status r = OK" and up: "faults (world d') = []"
    using demo_form_run
    by (cases "post_form demo_form_server demo_form (powered init_ram)")
       (auto simp: wp_def split: outcome.splits)
  have pins: "list_all led_pin_exists (fs_pins demo_form_server)"
    by (simp add: demo_form_server_def led_pin_exists_def)
  have net: "rd_wifi_ok init_reading (rd_stored init_reading Wifi (world (powered init_ram)))"
    "rd_tls_ok init_reading (rd_stored init_reading Tls (world (powered init_ram)))"
    "runtime_ok (rd_stored init_reading Runtime (world (powered init_ram)))"
    by (simp_all add: init_ram_def ram_with_def runtime_ok_def ram_empty_def)
       (simp_all add: init_reading_def demo_reading_def)
  have runs: "runs_workload production_features init_reading (world d')"
    by (simp add: runs_workload_def init_reading_def demo_reading_def RUNTIME_API_def production_features_def)
  have feat: "\<not> fault_injection production_features" "\<not> fault_injection_freeze production_features"
    by (simp_all add: production_features_def)
  have "kept init_reading {Ota} (world d') (world (powered (world d')))" "ram_up {} (world (powered (world d')))"
    using up by (simp_all add: ram_up_def)
  from provisioned_device_reaches_production [OF demo_form_law demo_form_text run ok pins net(1,2) runs net(3)
      init_base_law init_base_answers feat this] run
  show ?thesis by auto
qed

section \<open>From the factory to production\<close>

text \<open>
  C7: a device goes from the factory to production. The init image booted and reached its last loop;
  the network credentials were stored since, and the form it serves, on the spaces it claimed,
  answered \<open>200\<close> to a submission. Then the next boot of the agent image, pending, with a self-check
  that passes, able to run the active Workload, and on the device as the form left it (the OTA
  service's own space excepted), confirms the image, enters production and starts the API, the
  clock, the heartbeat and the log stream. The TLS identity, the identity's token, the LED pin and
  the lifecycle this takes are those the init image and the form stored.
\<close>

theorem factory_device_reaches_production:
  assumes "init_law M I" and "init_main I (powered w0) = (Exits Idles, d0)"
    and "kept M {Wifi} (world d0) (world d)" and "rd_wifi_ok M (rd_stored M Wifi (world d))"
    and "init_claim_spaces (ip_base I) dc = (Returns isp, dc')" and "crates_law M slot_hash ca_ok K"
    and "F = wire_provisioning K T isp img" and "list_all led_pin_exists (ESP_STATUS_INDICATOR K)"
    and "form_text form" and "post_form F form d = (Returns r, d')" and "status r = OK"
    and "runs_workload feat M (world d')" and "runtime_ok (rd_stored M Runtime w0)"
    and "platform_law M P" and "platform_answers M up True P"
    and "\<not> fault_injection feat" and "\<not> fault_injection_freeze feat"
    and "kept M {Ota} (world d') (world b)" and "up {} (world b)" and "calls b = []"
  shows "\<exists>b'. agent_main feat P b = (Exits Idles, b') \<and> device_state b' \<in> {St_Running, St_Degraded} \<and>
    {Confirm_Image, Enter_Production} \<union> Spawn ` ip_services \<subseteq> set (calls b')"
proof (rule provisioned_device_reaches_production [OF _ assms(9-11)])
  have "init_spaces_ok M isp"
    using phase_run [OF init_claim_spaces_run [OF init_lawD(1) [OF assms(1)]], of dc] assms(5)
    by (simp add: wp_def)
  then show "form_law M slot_hash F"
    using wired_form_law [OF assms(6)] assms(7) by simp
  show "list_all led_pin_exists (fs_pins F)"
    using assms(7,8)
    by (simp add: wire_provisioning_def spawned_form_def run_http_provisioning_def Let_def)
  have "init_post M (powered w0) Idles d0"
    using init_main_spec [OF assms(1), of "powered w0"] assms(2) by (simp add: wp_def)
  then have tls: "rd_tls_ok M (rd_stored M Tls (world d0))" and k: "kept M {Lifecycle, Tls, Wifi} w0 (world d0)"
    by (auto simp: init_post_def)
  show "rd_tls_ok M (rd_stored M Tls (world d))" "runtime_ok (rd_stored M Runtime (world d))"
    using tls k assms(3,13) by (simp_all add: kept_def)
qed (fact assms)+

theorem factory_device_reaches_production_witness:
  "\<exists>d0 r d' b'. init_main demo_init (powered ram_empty) = (Exits Idles, d0) \<and>
     post_form demo_form_server demo_form (powered init_ram) = (Returns r, d') \<and>
     agent_main production_features init_base (powered (world d')) = (Exits Idles, b') \<and>
     Confirm_Image \<in> set (calls b') \<and> Enter_Production \<in> set (calls b')"
proof -
  let ?T = "fs_templates demo_form_server" and ?img = "fs_factory_agent demo_form_server"
  obtain e d0 where run0: "init_main demo_init (powered ram_empty) = (Exits e, d0)"
    and ended: "e = Idles \<and> Ensure_Identity (lit ''embewi-a1'') \<in> set (calls d0) \<and>
      Spawn T_Http_Provisioning \<in> set (calls d0) \<and>
      (\<forall>m. m \<noteq> Wifi \<longrightarrow> cells (world d0) m = cells init_ram m)"
    by (rule boot_run [OF demo_init_boot])
  then have init: "init_main demo_init (powered ram_empty) = (Exits Idles, d0)" by simp
  have act: "rd_active init_reading = (\<lambda>_. Some (RuntimeApi 1 0))" "rd_wifi_ok init_reading = (\<lambda>s. s \<noteq> None)"
    by (simp_all add: init_reading_def demo_reading_def)
  have kept: "kept init_reading {Wifi} (world d0) (world (powered init_ram))"
    using ended by (simp add: kept_def act)
  have wifi: "rd_wifi_ok init_reading (rd_stored init_reading Wifi (world (powered init_ram)))"
    by (simp add: act init_ram_def ram_with_def)
  obtain r d' where run: "post_form demo_form_server demo_form (powered init_ram) = (Returns r, d')"
    and ok: "status r = OK" and up: "faults (world d') = []"
    using demo_form_run
    by (cases "post_form demo_form_server demo_form (powered init_ram)")
       (auto simp: wp_def split: outcome.splits)
  have claims: "init_claim_spaces (ip_base demo_init) (powered ram_empty) =
      (Returns \<lparr>init_hardware = ram_space Hardware, init_agent = ram_space Agent, init_lifecycle = ram_space Lifecycle,
        init_ota_space = ram_space Ota, init_tls = ram_space Tls, init_wifi = ram_space Wifi\<rparr>, dc')"
    if "dc' = (powered ram_empty)\<lparr>calls := map Claim [Hardware, Agent, Lifecycle, Ota, Tls, Wifi]\<rparr>" for dc'
    by (simp add: that init_claim_spaces_def claim_space_def act_expect_def act_bind_def act_call_def act_return_def
        demo_init_def init_base_def demo_platform_def)
  have form: "demo_form_server = wire_provisioning demo_crates ?T \<lparr>init_hardware = ram_space Hardware,
      init_agent = ram_space Agent, init_lifecycle = ram_space Lifecycle, init_ota_space = ram_space Ota,
      init_tls = ram_space Tls, init_wifi = ram_space Wifi\<rparr> ?img"
    by (simp add: wire_provisioning_def spawned_form_def provisioning_supervisor_new_def run_http_provisioning_def
        Let_def demo_form_server_def demo_crates_def esp_factory_ota_def demo_engine_def demo_factory_def)
  have pins: "list_all led_pin_exists (ESP_STATUS_INDICATOR demo_crates)"
    by (simp add: demo_crates_def led_pin_exists_def)
  have rt: "runtime_ok (rd_stored init_reading Runtime ram_empty)"
    by (simp add: runtime_ok_def)
  have runs: "runs_workload production_features init_reading (world d')"
    by (simp add: runs_workload_def act RUNTIME_API_def production_features_def)
       (simp add: init_reading_def demo_reading_def)
  have feat: "\<not> fault_injection production_features" "\<not> fault_injection_freeze production_features"
    by (simp_all add: production_features_def)
  have b: "kept init_reading {Ota} (world d') (world (powered (world d')))" "ram_up {} (world (powered (world d')))"
    using up by (simp_all add: ram_up_def)
  from factory_device_reaches_production [OF demo_init_law init kept wifi claims [OF refl] demo_crates_law form pins
      demo_form_text run ok runs rt init_base_law init_base_answers feat b] init run
  show ?thesis by auto
qed

end
